(* ===== verification/Ledger_Prelude.thy ===== *)
theory Ledger_Prelude
  imports Main "HOL-Library.Word" "HOL-Library.Signed_Division" "HOL-Library.Sublist"
begin

text \<open>
  What every component shares: the 64-bit machine integer of Go, the result type of a fallible
  operation (\<open>Inl\<close> the error, \<open>Inr\<close> the value), the collections of facts the component proofs
  are driven by, and generic lemmas on lists and association tables.

  Go's \<open>int64\<close> is the type of 64-bit words; \<open>+\<close>, \<open>-\<close> and unary minus wrap around, as they do in
  Go, and \<open>sint\<close> reads a word as a signed integer. A comparison \<open>a < b\<close> of the source is
  \<open>a <s b\<close> here.
\<close>

section \<open>Collections of facts\<close>

named_theorems go_defs \<open>definitions of small operations that proofs unfold\<close>
named_theorems inr_dest \<open>what the success of an operation tells about its arguments\<close>

section \<open>Go's int64\<close>

type_synonym int64 = "64 word"

definition max_int64 :: int64 where
  "max_int64 = 0x7FFFFFFFFFFFFFFF"

definition min_int64 :: int64 where
  "min_int64 = 0x8000000000000000"

definition in_int64 :: "int \<Rightarrow> bool" where
  "in_int64 i \<longleftrightarrow> - (2 ^ 63) \<le> i \<and> i < 2 ^ 63"

text \<open>Go's integer division and remainder on \<open>int64\<close> truncate towards zero.\<close>

definition go_div :: "int64 \<Rightarrow> int64 \<Rightarrow> int64" where
  "go_div a b = word_of_int (sint a sdiv sint b)"

definition go_mod :: "int64 \<Rightarrow> int64 \<Rightarrow> int64" where
  "go_mod a b = word_of_int (sint a smod sint b)"

lemma sint_max_int64 [simp]: "sint max_int64 = 9223372036854775807"
  by (simp add: max_int64_def)

lemma sint_min_int64 [simp]: "sint min_int64 = - 9223372036854775808"
  by (simp add: min_int64_def)

lemma int64_range: "- 9223372036854775808 \<le> sint (a :: int64)" "sint (a :: int64) \<le> 9223372036854775807"
  using sint_range_size [of a] by (simp_all add: word_size)

lemma in_int64_sint [simp]: "in_int64 (sint (a :: int64))"
  using int64_range [of a] by (simp add: in_int64_def)

lemma sint_of_int64: "in_int64 i \<Longrightarrow> sint (word_of_int i :: int64) = i"
  by (simp add: in_int64_def sint_sbintrunc' signed_take_bit_int_eq_self)

lemma sint_add_int64: "in_int64 (sint a + sint b) \<Longrightarrow> sint (a + b :: int64) = sint a + sint b"
  by (simp add: in_int64_def sint_word_add signed_take_bit_int_eq_self)

lemma sint_diff_int64: "in_int64 (sint a - sint b) \<Longrightarrow> sint (a - b :: int64) = sint a - sint b"
  by (simp add: in_int64_def sint_word_diff signed_take_bit_int_eq_self)

lemma sint_minus_int64: "in_int64 (- sint a) \<Longrightarrow> sint (- a :: int64) = - sint a"
  by (simp add: in_int64_def sint_word_minus signed_take_bit_int_eq_self)

lemma sint_eq_int64_iff: "(sint (a :: int64) = sint b) = (a = b)"
  by (auto intro: signed_word_eqI)

text \<open>What Go's overflow guards test: the exact sum or difference leaves the range.\<close>

lemma add_guard_max:
  fixes a b :: int64
  assumes "0 <s b"
  shows "max_int64 - b <s a \<longleftrightarrow> \<not> in_int64 (sint a + sint b)"
proof -
  have b: "0 < sint b" using assms by (simp add: word_sless_alt)
  have "in_int64 (sint max_int64 - sint b)"
    using b int64_range [of b] by (simp add: in_int64_def)
  then have "sint (max_int64 - b) = 9223372036854775807 - sint b" by (simp add: sint_diff_int64)
  then show ?thesis
    using b int64_range [of a] unfolding word_sless_alt in_int64_def by auto
qed

lemma add_guard_min:
  fixes a b :: int64
  assumes "b <s 0"
  shows "a <s min_int64 - b \<longleftrightarrow> \<not> in_int64 (sint a + sint b)"
proof -
  have b: "sint b < 0" using assms by (simp add: word_sless_alt)
  have "in_int64 (sint min_int64 - sint b)"
    using b int64_range [of b] by (simp add: in_int64_def)
  then have "sint (min_int64 - b) = - 9223372036854775808 - sint b" by (simp add: sint_diff_int64)
  then show ?thesis
    using b int64_range [of a] unfolding word_sless_alt in_int64_def by auto
qed

lemma sub_guard_min:
  fixes a b :: int64
  assumes "0 <s b"
  shows "a <s min_int64 + b \<longleftrightarrow> \<not> in_int64 (sint a - sint b)"
proof -
  have b: "0 < sint b" using assms by (simp add: word_sless_alt)
  have "in_int64 (sint min_int64 + sint b)"
    using b int64_range [of b] by (simp add: in_int64_def)
  then have "sint (min_int64 + b) = - 9223372036854775808 + sint b" by (simp add: sint_add_int64)
  then show ?thesis
    using b int64_range [of a] unfolding word_sless_alt in_int64_def by auto
qed

lemma sub_guard_max:
  fixes a b :: int64
  assumes "b <s 0"
  shows "max_int64 + b <s a \<longleftrightarrow> \<not> in_int64 (sint a - sint b)"
proof -
  have b: "sint b < 0" using assms by (simp add: word_sless_alt)
  have "in_int64 (sint max_int64 + sint b)"
    using b int64_range [of b] by (simp add: in_int64_def)
  then have "sint (max_int64 + b) = 9223372036854775807 + sint b" by (simp add: sint_add_int64)
  then show ?thesis
    using b int64_range [of a] unfolding word_sless_alt in_int64_def by auto
qed

lemma int64_trichotomy:
  fixes b :: int64
  obtains "0 <s b" "\<not> b <s 0" | "b <s 0" "\<not> 0 <s b" | "b = 0"
proof (cases "sint b" "0 :: int" rule: linorder_cases)
  case equal
  then show ?thesis using that(3) sint_eq_int64_iff [of b 0] by simp
qed (use that in \<open>simp_all add: word_sless_alt\<close>)

lemma go_div_nonneg:
  assumes "0 \<le> sint a" "0 < sint b"
  shows "sint (go_div a b) = sint a div sint b"
proof -
  have "sint a sdiv sint b = sint a div sint b"
    using assms by (cases "sint a = 0") (simp_all add: signed_divide_int_def)
  moreover have "in_int64 (sint a div sint b)"
    using assms int64_range [of a] pos_imp_zdiv_nonneg_iff [of "sint b" "sint a"]
      zdiv_mono2 [of "sint a" 1 "sint b"]
    by (simp add: in_int64_def)
  ultimately show ?thesis by (simp add: go_div_def sint_of_int64)
qed

lemma go_mod_nonneg:
  assumes "0 \<le> sint a" "0 < sint b"
  shows "sint (go_mod a b) = sint a mod sint b"
proof -
  have "sint a smod sint b = sint a mod sint b"
    using assms
    by (cases "sint a = 0") (simp_all add: signed_modulo_int_def signed_divide_int_def minus_mult_div_eq_mod)
  moreover have "0 \<le> sint a mod sint b" "sint a mod sint b < sint b" using assms by simp_all
  then have "in_int64 (sint a mod sint b)"
    using int64_range [of b] by (simp add: in_int64_def del: pos_mod_bound pos_mod_sign)
  ultimately show ?thesis by (simp add: go_mod_def sint_of_int64)
qed

section \<open>Results\<close>

lemma if_Inl_eq_Inr [simp]: "(if c then Inl e else r) = Inr a \<longleftrightarrow> \<not> c \<and> r = Inr a"
  by simp

section \<open>Lists\<close>

lemma length_2E:
  assumes "length xs = 2"
  obtains a b where "xs = [a, b]"
  using assms by (auto simp: numeral_2_eq_2 length_Suc_conv)

section \<open>Rows of a table\<close>

text \<open>
  A table is the list of its rows in the order of their insertion. \<open>find\<close> on a unique key is the
  query by that key; \<open>map\<close> with a guard is the update.
\<close>

definition update_where :: "('r \<Rightarrow> bool) \<Rightarrow> ('r \<Rightarrow> 'r) \<Rightarrow> 'r list \<Rightarrow> 'r list" where
  "update_where P f rs = map (\<lambda>r. if P r then f r else r) rs"

lemma list_all2_right:
  assumes "y \<in> set ys" "list_all2 P xs ys"
  obtains x where "x \<in> set xs" "P x y"
  using assms(2,1) that by (induction rule: list_all2_induct) auto

lemma list_all2_left:
  assumes "x \<in> set xs" "list_all2 P xs ys"
  obtains y where "y \<in> set ys" "P x y"
  using assms(2,1) that by (induction rule: list_all2_induct) auto

lemma find_append: "find P (xs @ ys) = (case find P xs of None \<Rightarrow> find P ys | Some x \<Rightarrow> Some x)"
  by (induction xs) auto

lemma find_SomeD: "find P xs = Some x \<Longrightarrow> x \<in> set xs \<and> P x"
  by (induction xs) (auto split: if_splits)

lemma find_None_iff_not: "find P xs = None \<longleftrightarrow> (\<forall>x \<in> set xs. \<not> P x)"
  by (induction xs) auto

lemma find_unique_key:
  assumes "distinct (map key xs)" "x \<in> set xs"
  shows "find (\<lambda>r. key r = key x) xs = Some x"
  using assms by (induction xs) (auto simp: image_iff)

lemma find_map_same:
  assumes "\<And>r. P (f r) = P r"
  shows "find P (map f xs) = map_option f (find P xs)"
  using assms by (induction xs) auto

lemma length_update_where [simp]: "length (update_where P f rs) = length rs"
  by (simp add: update_where_def)

lemma set_update_where: "set (update_where P f rs) = (\<lambda>r. if P r then f r else r) ` set rs"
  by (simp add: update_where_def)

lemma map_update_where:
  "(\<And>r. P r \<Longrightarrow> g (f r) = g r) \<Longrightarrow> map g (update_where P f rs) = map g rs"
  by (simp add: update_where_def)

lemma find_update_where:
  assumes "\<And>r. P r \<Longrightarrow> Q (f r) = Q r"
  shows "find Q (update_where P f rs) = map_option (\<lambda>r. if P r then f r else r) (find Q rs)"
  using assms by (induction rs) (auto simp: update_where_def)

end
