(* ===== verification/Go_Strings.thy ===== *)
theory Go_Strings
  imports Ledger_Prelude "HOL-Library.List_Lexorder" "HOL-Library.Char_ord"
begin

text \<open>
  What the program uses of Go's packages \<open>strings\<close>, \<open>strconv\<close>, \<open>fmt\<close> and \<open>unicode/utf8\<close>. A Go string
  is a sequence of bytes, here a list of \<open>char\<close> (a \<open>char\<close> is a byte); \<open>len\<close> counts bytes.

  \<open>strings.ToUpper\<close> and \<open>strings.ToLower\<close> have a fast path for ASCII strings, which is written
  out; for a string with a byte above 127 they map the string through the Unicode case tables,
  which are a parameter (a field of \<open>runtime\<close>). \<open>strings.TrimSpace\<close> is complete: the Unicode
  white space characters are listed by their UTF-8 encodings.

  The record \<open>runtime\<close> holds what the program takes from its platform and that is not written in
  its source: the case tables, and the instant that a \<open>timestamptz\<close> column keeps of a \<open>time.Time\<close>
  (instants are in nanoseconds).
\<close>

record runtime =
  unicode_upper :: "string \<Rightarrow> string"
  unicode_lower :: "string \<Rightarrow> string"
  store_time :: "int \<Rightarrow> int"

section \<open>Bytes\<close>

definition byte_val :: "char \<Rightarrow> nat" where
  "byte_val c = of_char c"

definition byte_of :: "nat \<Rightarrow> char" where
  "byte_of n = char_of n"

lemma byte_val_less: "byte_val c < 256"
  by (simp add: byte_val_def)

lemma byte_val_byte_of [simp]: "n < 256 \<Longrightarrow> byte_val (byte_of n) = n"
  by (simp add: byte_val_def byte_of_def)

lemma byte_of_byte_val [simp]: "byte_of (byte_val c) = c"
  by (simp add: byte_val_def byte_of_def)

lemma byte_val_inject [simp]: "byte_val c = byte_val d \<longleftrightarrow> c = d"
  by (simp add: byte_val_def)

definition is_ascii :: "string \<Rightarrow> bool" where
  "is_ascii s = list_all (\<lambda>c. byte_val c < 128) s"

section \<open>strings.ToUpper and strings.ToLower\<close>

definition upper_byte :: "char \<Rightarrow> char" where
  "upper_byte c = (let n = byte_val c in if 97 \<le> n \<and> n \<le> 122 then byte_of (n - 32) else c)"

definition lower_byte :: "char \<Rightarrow> char" where
  "lower_byte c = (let n = byte_val c in if 65 \<le> n \<and> n \<le> 90 then byte_of (n + 32) else c)"

definition to_upper :: "runtime \<Rightarrow> string \<Rightarrow> string" where
  "to_upper R s = (if is_ascii s then map upper_byte s else unicode_upper R s)"

definition to_lower :: "runtime \<Rightarrow> string \<Rightarrow> string" where
  "to_lower R s = (if is_ascii s then map lower_byte s else unicode_lower R s)"

lemma upper_byte_ascii: "byte_val c < 128 \<Longrightarrow> byte_val (upper_byte c) < 128"
  using byte_val_less [of c] by (auto simp: upper_byte_def Let_def)

lemma upper_byte_idem [simp]: "upper_byte (upper_byte c) = upper_byte c"
proof (cases "97 \<le> byte_val c \<and> byte_val c \<le> 122")
  case True
  then have "byte_val c - 32 < 256" by linarith
  with True have "byte_val (upper_byte c) = byte_val c - 32"
    by (simp add: upper_byte_def Let_def)
  with True have "\<not> 97 \<le> byte_val (upper_byte c)" by linarith
  then show ?thesis
    by (simp add: upper_byte_def [of "upper_byte c"] Let_def)
next
  case False
  then show ?thesis by (auto simp: upper_byte_def Let_def)
qed

lemma is_ascii_map_upper: "is_ascii s \<Longrightarrow> is_ascii (map upper_byte s)"
  by (simp add: is_ascii_def list_all_iff upper_byte_ascii)

lemma to_upper_idem: "is_ascii s \<Longrightarrow> to_upper R (to_upper R s) = to_upper R s"
  by (simp add: to_upper_def is_ascii_map_upper)

section \<open>strings.TrimSpace\<close>

definition space_seqs :: "string list" where
  "space_seqs = map (map byte_of)
     ([[9], [10], [11], [12], [13], [32], [0xC2, 0x85], [0xC2, 0xA0], [0xE1, 0x9A, 0x80]]
      @ map (\<lambda>i. [0xE2, 0x80, 0x80 + i]) [0..<11]
      @ [[0xE2, 0x80, 0xA8], [0xE2, 0x80, 0xA9], [0xE2, 0x80, 0xAF], [0xE2, 0x81, 0x9F],
         [0xE3, 0x80, 0x80]])"

definition lead_len :: "string list \<Rightarrow> string \<Rightarrow> nat" where
  "lead_len seqs s = (case find (\<lambda>w. prefix w s) seqs of None \<Rightarrow> 0 | Some w \<Rightarrow> length w)"

function strip_with :: "string list \<Rightarrow> string \<Rightarrow> string" where
  "strip_with seqs s =
     (if s = [] \<or> lead_len seqs s = 0 then s else strip_with seqs (drop (lead_len seqs s) s))"
  by pat_completeness auto
termination
  by (relation "measure (\<lambda>(seqs, s). length s)") auto

declare strip_with.simps [simp del]

definition trim_left_space :: "string \<Rightarrow> string" where
  "trim_left_space s = strip_with space_seqs s"

definition trim_right_space :: "string \<Rightarrow> string" where
  "trim_right_space s = rev (strip_with (map rev space_seqs) (rev s))"

definition trim_space :: "string \<Rightarrow> string" where
  "trim_space s = trim_right_space (trim_left_space s)"

lemma strip_with_suffix: "suffix (strip_with seqs s) s"
proof (induction seqs s rule: strip_with.induct)
  case (1 seqs s)
  show ?case
  proof (cases "s = [] \<or> lead_len seqs s = 0")
    case True
    then show ?thesis by (simp add: strip_with.simps [of seqs s])
  next
    case False
    with 1 have "suffix (strip_with seqs (drop (lead_len seqs s) s)) (drop (lead_len seqs s) s)"
      by simp
    with False show ?thesis
      by (auto simp: strip_with.simps [of seqs s] intro: suffix_order.trans suffix_drop)
  qed
qed

lemma lead_len_0_iff:
  "[] \<notin> set seqs \<Longrightarrow> lead_len seqs s = 0 \<longleftrightarrow> (\<forall>w \<in> set seqs. \<not> prefix w s)"
  by (auto simp: lead_len_def find_None_iff_not dest: find_SomeD split: option.splits)

lemma strip_with_done: "strip_with seqs s = [] \<or> lead_len seqs (strip_with seqs s) = 0"
proof (induction seqs s rule: strip_with.induct)
  case (1 seqs s)
  then show ?case
    by (cases "s = [] \<or> lead_len seqs s = 0") (auto simp: strip_with.simps [of seqs s])
qed

lemma strip_with_id: "s = [] \<or> lead_len seqs s = 0 \<Longrightarrow> strip_with seqs s = s"
  by (simp add: strip_with.simps [of seqs s])

lemma space_seqs_nonempty: "[] \<notin> set space_seqs" "[] \<notin> set (map rev space_seqs)"
  by (auto simp: space_seqs_def)

lemma trim_right_prefix: "prefix (trim_right_space s) s"
  using strip_with_suffix [of "map rev space_seqs" "rev s"]
  by (simp add: trim_right_space_def suffix_to_prefix)

lemma trim_space_sublist: "set (trim_space s) \<subseteq> set s"
  using set_mono_prefix [OF trim_right_prefix [of "trim_left_space s"]]
    set_mono_suffix [OF strip_with_suffix [of space_seqs s]]
  by (simp add: trim_space_def trim_left_space_def)

lemma trim_left_id_prefix:
  assumes "lead_len space_seqs s = 0" "prefix t s"
  shows "trim_left_space t = t"
proof -
  have "lead_len space_seqs t = 0"
    using assms prefix_order.trans by (auto simp: lead_len_0_iff space_seqs_nonempty)
  then show ?thesis by (simp add: trim_left_space_def strip_with_id)
qed

text \<open>Trimming twice is trimming once.\<close>

lemma trim_space_idem [simp]: "trim_space (trim_space s) = trim_space s"
proof -
  let ?l = "trim_left_space s" and ?r = "trim_right_space (trim_left_space s)"
  have "trim_left_space ?r = ?r"
  proof (cases "?l = []")
    case True
    then have "?r = []" using trim_right_prefix [of ?l] by simp
    then show ?thesis by (simp add: trim_left_space_def strip_with_id)
  next
    case False
    then have "lead_len space_seqs ?l = 0"
      using strip_with_done [of space_seqs s] by (simp add: trim_left_space_def)
    then show ?thesis by (rule trim_left_id_prefix) (rule trim_right_prefix)
  qed
  moreover have "trim_right_space ?r = ?r"
    using strip_with_done [of "map rev space_seqs" "rev ?l"]
    by (simp add: trim_right_space_def strip_with_id)
  ultimately show ?thesis by (simp add: trim_space_def)
qed

text \<open>
  The two normalisations of a currency code in the source, \<open>TrimSpace(ToUpper(c))\<close> and
  \<open>ToUpper(TrimSpace(c))\<close>; on an ASCII code that the first has produced the second is the identity.
\<close>

lemma upper_fixed_subset:
  assumes "set t \<subseteq> set (map upper_byte s)"
  shows "map upper_byte t = t"
  using assms by (intro map_idI) auto

lemma normalised_currency:
  assumes "is_ascii s"
  shows "to_upper R (trim_space (trim_space (to_upper R s))) = trim_space (to_upper R s)"
proof -
  have u: "to_upper R s = map upper_byte s" using assms by (simp add: to_upper_def)
  have sub: "set (trim_space (map upper_byte s)) \<subseteq> set (map upper_byte s)"
    by (rule trim_space_sublist)
  moreover have "is_ascii (trim_space (map upper_byte s))"
    using sub is_ascii_map_upper [OF assms] by (auto simp: is_ascii_def list_all_iff)
  ultimately show ?thesis using upper_fixed_subset [OF sub] by (simp add: u) (simp add: to_upper_def)
qed

text \<open>A string of printable ASCII characters without blanks is left alone.\<close>

definition is_graphic :: "string \<Rightarrow> bool" where
  "is_graphic s = list_all (\<lambda>c. 32 < byte_val c \<and> byte_val c < 128) s"

lemma is_graphic_ascii: "is_graphic s \<Longrightarrow> is_ascii s"
  by (auto simp: is_graphic_def is_ascii_def list_all_iff)

lemma prefix_space_seq_not_graphic:
  assumes "w \<in> set space_seqs" "set w \<subseteq> set s" "is_graphic s"
  shows False
proof -
  have "\<exists>c \<in> set w. byte_val c \<le> 32 \<or> 128 \<le> byte_val c"
    using assms(1) by (auto simp: space_seqs_def)
  with assms(2,3) show False by (fastforce simp: is_graphic_def list_all_iff)
qed

lemma trim_space_graphic [simp]: "is_graphic s \<Longrightarrow> trim_space s = s"
proof -
  assume g: "is_graphic s"
  have l: "lead_len space_seqs s = 0"
    using prefix_space_seq_not_graphic [OF _ set_mono_prefix g]
    by (auto simp: lead_len_0_iff space_seqs_nonempty)
  have "\<not> prefix (rev w) (rev s)" if "w \<in> set space_seqs" for w
    using prefix_space_seq_not_graphic [OF that _ g] set_mono_prefix [of "rev w" "rev s"] by auto
  then have r: "lead_len (map rev space_seqs) (rev s) = 0"
    using space_seqs_nonempty(2) by (simp add: lead_len_0_iff)
  show ?thesis
    by (simp add: trim_space_def trim_left_space_def trim_right_space_def strip_with_id l r)
qed

section \<open>Splitting, joining, suffixes\<close>

text \<open>\<open>strings.Split(s, sep)\<close> for a separator of one byte; the result is never empty.\<close>

fun split_on :: "char \<Rightarrow> string \<Rightarrow> string list" where
  "split_on c [] = [[]]"
| "split_on c (x # xs) =
     (if x = c then [] # split_on c xs
      else (case split_on c xs of [] \<Rightarrow> [[x]] | p # ps \<Rightarrow> (x # p) # ps))"

lemma split_on_nonempty [simp]: "split_on c s \<noteq> []"
  by (induction s) (auto split: list.splits)

lemma split_on_no_sep: "c \<notin> set s \<Longrightarrow> split_on c s = [s]"
  by (induction s) auto

lemma split_on_append:
  "c \<notin> set s \<Longrightarrow> split_on c (s @ c # t) = s # split_on c t"
  by (induction s) auto

fun join_with :: "char \<Rightarrow> string list \<Rightarrow> string" where
  "join_with c [] = []"
| "join_with c [p] = p"
| "join_with c (p # q # ps) = p @ c # join_with c (q # ps)"

lemma split_on_join: "join_with c (split_on c s) = s"
proof (induction s)
  case (Cons x xs)
  then show ?case by (cases "(c, split_on c xs)" rule: join_with.cases) auto
qed simp

text \<open>\<open>strings.ReplaceAll(s, w, '''')\<close> for a non-empty \<open>w\<close>: the leftmost occurrences, not overlapping.\<close>

fun remove_all :: "string \<Rightarrow> string \<Rightarrow> string" where
  "remove_all w [] = []"
| "remove_all w (x # xs) =
     (if w \<noteq> [] \<and> prefix w (x # xs) then remove_all w (drop (length w) (x # xs))
      else x # remove_all w xs)"

section \<open>Decimal numbers\<close>

definition digit_char :: "nat \<Rightarrow> char" where
  "digit_char d = byte_of (48 + d)"

definition is_digit :: "char \<Rightarrow> bool" where
  "is_digit c \<longleftrightarrow> 48 \<le> byte_val c \<and> byte_val c \<le> 57"

definition digit_val :: "char \<Rightarrow> nat" where
  "digit_val c = byte_val c - 48"

text \<open>The \<open>%d\<close> verb of \<open>fmt\<close>.\<close>

fun show_nat :: "nat \<Rightarrow> string" where
  "show_nat n = (if n < 10 then [digit_char n] else show_nat (n div 10) @ [digit_char (n mod 10)])"

declare show_nat.simps [simp del]

definition show_int :: "int \<Rightarrow> string" where
  "show_int i = (if i < 0 then CHR ''-'' # show_nat (nat (- i)) else show_nat (nat i))"

text \<open>The \<open>%02d\<close> verb: zero-padded to two characters, the sign counted.\<close>

definition show_pad2 :: "int \<Rightarrow> string" where
  "show_pad2 i = (if 0 \<le> i \<and> i < 10 then CHR ''0'' # show_int i else show_int i)"

text \<open>The value of a string of digits, most significant digit first.\<close>

definition digits_val :: "string \<Rightarrow> nat" where
  "digits_val s = foldl (\<lambda>n c. 10 * n + digit_val c) 0 s"

text \<open>
  \<open>strconv.ParseInt(s, 10, 64)\<close> and, on a 64-bit platform, \<open>strconv.Atoi(s)\<close>: an optional sign and at
  least one digit; an error (here \<open>None\<close>) for anything else and for a value out of range.
\<close>

definition parse_int64 :: "string \<Rightarrow> int option" where
  "parse_int64 s =
     (let neg = (s \<noteq> [] \<and> hd s = CHR ''-'');
          ds = (if s \<noteq> [] \<and> (hd s = CHR ''-'' \<or> hd s = CHR ''+'') then tl s else s);
          i = (if neg then - int (digits_val ds) else int (digits_val ds))
      in if ds = [] \<or> \<not> list_all is_digit ds then None
         else if in_int64 i then Some i else None)"

lemma byte_val_digit_char [simp]: "d < 10 \<Longrightarrow> byte_val (digit_char d) = 48 + d"
  by (simp add: digit_char_def)

lemma is_digit_digit_char [simp]: "d < 10 \<Longrightarrow> is_digit (digit_char d)"
  by (simp add: is_digit_def)

lemma digit_val_digit_char [simp]: "d < 10 \<Longrightarrow> digit_val (digit_char d) = d"
  by (simp add: digit_val_def)

lemma digits_val_Nil [simp]: "digits_val [] = 0"
  by (simp add: digits_val_def)

lemma digits_val_snoc [simp]: "digits_val (s @ [c]) = 10 * digits_val s + digit_val c"
  by (simp add: digits_val_def)

lemma digits_val_single [simp]: "digits_val [c] = digit_val c"
  using digits_val_snoc [of "[]" c] by simp

lemma show_nat_digits: "list_all is_digit (show_nat n)"
proof (induction n rule: show_nat.induct)
  case (1 n)
  then show ?case by (cases "n < 10") (simp_all add: show_nat.simps [of n])
qed

lemma show_nat_nonempty [simp]: "show_nat n \<noteq> []"
  by (simp add: show_nat.simps [of n])

text \<open>Parsing what \<open>%d\<close> prints gives the number back.\<close>

lemma digits_val_show_nat [simp]: "digits_val (show_nat n) = n"
proof (induction n rule: show_nat.induct)
  case (1 n)
  then show ?case by (cases "n < 10") (simp_all add: show_nat.simps [of n])
qed

lemma show_nat_inj: "show_nat m = show_nat n \<Longrightarrow> m = n"
  by (metis digits_val_show_nat)

lemma not_digit_chars [simp]: "\<not> is_digit (CHR ''-'')" "\<not> is_digit (CHR ''+'')" "\<not> is_digit (CHR ''.'')"
  by (simp_all add: is_digit_def byte_val_def)

lemma hd_digits: "list_all is_digit s \<Longrightarrow> s \<noteq> [] \<Longrightarrow> is_digit (hd s)"
  by (cases s) simp_all

lemma parse_int64_digits:
  assumes "list_all is_digit s" "s \<noteq> []"
  shows "parse_int64 s = (if int (digits_val s) < 2 ^ 63 then Some (int (digits_val s)) else None)"
proof -
  have "hd s \<noteq> CHR ''-''" "hd s \<noteq> CHR ''+''"
    using hd_digits [OF assms] not_digit_chars by metis+
  with assms show ?thesis by (simp add: parse_int64_def Let_def in_int64_def)
qed

lemma show_int_inj: "show_int i = show_int j \<Longrightarrow> i = j"
proof -
  assume eq: "show_int i = show_int j"
  have d: "show_nat n \<noteq> CHR ''-'' # t" for n t
    using show_nat_digits [of n] by auto
  show ?thesis
    using eq d d [symmetric] by (auto simp: show_int_def dest: show_nat_inj split: if_splits)
qed

section \<open>Characters of a UTF-8 string\<close>

text \<open>
  The length in bytes of the well-formed UTF-8 sequence at the head of a string, 0 if there is
  none (the table of well-formed sequences of the Unicode standard, which is also the one
  \<open>utf8.DecodeRune\<close> uses).
\<close>

definition cont_byte :: "char \<Rightarrow> bool" where
  "cont_byte c \<longleftrightarrow> 0x80 \<le> byte_val c \<and> byte_val c \<le> 0xBF"

fun rune_len :: "string \<Rightarrow> nat" where
  "rune_len [] = 0"
| "rune_len (a # s) =
     (let x = byte_val a in
      if x < 0x80 then 1
      else if 0xC2 \<le> x \<and> x \<le> 0xDF then
        (case s of b # _ \<Rightarrow> if cont_byte b then 2 else 0 | _ \<Rightarrow> 0)
      else if 0xE0 \<le> x \<and> x \<le> 0xEF then
        (case s of b # c # _ \<Rightarrow>
           if cont_byte b \<and> cont_byte c
              \<and> (x = 0xE0 \<longrightarrow> 0xA0 \<le> byte_val b) \<and> (x = 0xED \<longrightarrow> byte_val b \<le> 0x9F)
           then 3 else 0 | _ \<Rightarrow> 0)
      else if 0xF0 \<le> x \<and> x \<le> 0xF4 then
        (case s of b # c # d # _ \<Rightarrow>
           if cont_byte b \<and> cont_byte c \<and> cont_byte d
              \<and> (x = 0xF0 \<longrightarrow> 0x90 \<le> byte_val b) \<and> (x = 0xF4 \<longrightarrow> byte_val b \<le> 0x8F)
           then 4 else 0 | _ \<Rightarrow> 0)
      else 0)"

function valid_utf8 :: "string \<Rightarrow> bool" where
  "valid_utf8 s =
     (if s = [] then True else if rune_len s = 0 then False else valid_utf8 (drop (rune_len s) s))"
  by pat_completeness auto
termination
  by (relation "measure length") auto

declare valid_utf8.simps [simp del] rune_len.simps(2) [simp del]

text \<open>The number of characters of a well-formed string: the bytes that do not continue a sequence.\<close>

definition char_count :: "string \<Rightarrow> nat" where
  "char_count s = length (filter (\<lambda>c. \<not> cont_byte c) s)"

lemma valid_utf8_Nil [simp]: "valid_utf8 []"
  by (simp add: valid_utf8.simps)

lemma rune_len_ascii [simp]: "byte_val a < 128 \<Longrightarrow> rune_len (a # s) = 1"
  by (simp add: rune_len.simps)

lemma valid_utf8_ascii: "is_ascii s \<Longrightarrow> valid_utf8 s"
  by (induction s) (simp_all add: is_ascii_def valid_utf8.simps [of "_ # _"])

lemma char_count_ascii: "is_ascii s \<Longrightarrow> char_count s = length s"
  by (induction s) (simp_all add: is_ascii_def char_count_def cont_byte_def)

lemma char_count_le_length: "char_count s \<le> length s"
  by (simp add: char_count_def)

end
