(* ===== verification/Ledger_Errors.thy ===== *)
theory Ledger_Errors
  imports Ledger_Prelude
begin

text \<open>
  Go errors as values. Every sentinel (\<open>errors.New\<close> at package level) is a constructor of its own, so
  that two sentinels with the same text (\<open>domain.ErrWalletNotFound\<close> and
  \<open>repository.ErrWalletNotFound\<close>) stay different, as they are for \<open>errors.Is\<close>.
  \<open>Wrapped m e\<close> is \<open>fmt.Errorf\<close> with \<open>%w\<close>: the text before the wrapped error and the error.
  \<open>ErrorString m\<close> is \<open>fmt.Errorf\<close> or \<open>errors.New\<close> with no wrapped error. \<open>PgError c\<close> is what the
  driver returns for a statement that PostgreSQL refuses with SQLSTATE \<open>c\<close>, and \<open>Panic\<close> a run-time
  panic.
\<close>

datatype goerror =
    ErrIncompatibleCurrency
  | ErrMoneyOverflow
  | ErrInvalidMoneyFormat
  | ErrNegativeAmountInput
  | ErrCurrencyNotSupported
  | ErrWalletNotFound
  | ErrWalletAlreadyExists
  | ErrWalletBalanceTooLow
  | ErrWalletBalanceTooHigh
  | ErrWalletBalanceNotZero
  | ErrWalletBalanceNotPositive
  | ErrWalletBalanceNotNegative
  | ErrIdAndPlayerIDRequired
  | ErrNegativeOrZeroAmountInput
  | ErrWalletCurrencyMismatch
  | ErrInsufficientBalance
  | ErrTerminalStateTransition
  | ErrInvalidTransactionKind
  | ErrMissingReference
  | ErrInvalidStateTransition
  | ErrLossTypeMustHaveZeroValue
  | ErrActiveOperationsMustBePositive
  | ErrFailureCodeRequired
  | RepoErrWalletNotFound
  | ErrTransactionConflict
  | ErrDuplicateTransaction
  | ErrDuplicateMessage
  | ErrNilTransaction
  | ErrNilDatabasePool
  | ErrWalletOwnerMismatch
  | ErrReferenceNotFound
  | ErrReferenceNotUsable
  | ErrNilWalletRepository
  | ErrTxCommitRollback
  | ErrNumberOutOfRange
  | PgError string
  | ErrorString string
  | Wrapped string goerror
  | Panic string

type_synonym 'a result = "goerror + 'a"

text \<open>\<open>errors.Is\<close>: the chain of wrapped errors contains the target.\<close>

fun errors_is :: "goerror \<Rightarrow> goerror \<Rightarrow> bool" where
  "errors_is (Wrapped m e) t = (Wrapped m e = t \<or> errors_is e t)"
| "errors_is e t = (e = t)"

text \<open>\<open>errors.As\<close> with a \<open>*pgconn.PgError\<close>: the first driver error of the chain.\<close>

fun pg_code :: "goerror \<Rightarrow> string option" where
  "pg_code (Wrapped m e) = pg_code e"
| "pg_code (PgError c) = Some c"
| "pg_code e = None"

abbreviation unique_violation :: string where
  "unique_violation \<equiv> ''23505''"

definition is_unique_violation :: "goerror \<Rightarrow> bool" where
  "is_unique_violation e \<longleftrightarrow> pg_code e = Some unique_violation"

text \<open>
  \<open>err.Error()\<close>. The texts of errors that the driver makes are not in the repository: \<open>driver\<close> gives them by
  a name, the SQLSTATE for an error of the server.
\<close>

fun error_text :: "(string \<Rightarrow> string) \<Rightarrow> goerror \<Rightarrow> string" where
  "error_text driver ErrIncompatibleCurrency = ''incompatible currency''"
| "error_text driver ErrMoneyOverflow = ''money overflow''"
| "error_text driver ErrInvalidMoneyFormat = ''invalid money format''"
| "error_text driver ErrNegativeAmountInput = ''negative amount input''"
| "error_text driver ErrCurrencyNotSupported = ''currency not supported''"
| "error_text driver ErrWalletNotFound = ''wallet not found''"
| "error_text driver ErrWalletAlreadyExists = ''wallet already exists''"
| "error_text driver ErrWalletBalanceTooLow = ''wallet balance too low''"
| "error_text driver ErrWalletBalanceTooHigh = ''wallet balance too high''"
| "error_text driver ErrWalletBalanceNotZero = ''wallet balance not zero''"
| "error_text driver ErrWalletBalanceNotPositive = ''wallet balance not positive''"
| "error_text driver ErrWalletBalanceNotNegative = ''wallet balance not negative''"
| "error_text driver ErrIdAndPlayerIDRequired = ''id and playerID are required''"
| "error_text driver ErrNegativeOrZeroAmountInput = ''amount must be positive''"
| "error_text driver ErrWalletCurrencyMismatch = ''wallet currency mismatch''"
| "error_text driver ErrInsufficientBalance = ''insufficient balance''"
| "error_text driver ErrTerminalStateTransition = ''cannot change the state of a terminal transaction''"
| "error_text driver ErrInvalidTransactionKind = ''invalid betting transaction type''"
| "error_text driver ErrMissingReference = ''required external reference is missing for this operation''"
| "error_text driver ErrInvalidStateTransition = ''invalid state transition in state machine''"
| "error_text driver ErrLossTypeMustHaveZeroValue = ''LOSS type operations must have a zero value (0.00)''"
| "error_text driver ErrActiveOperationsMustBePositive =
     ''active external financial operations must have a value strictly greater than zero''"
| "error_text driver ErrFailureCodeRequired = ''failure code is required for transaction rejection''"
| "error_text driver RepoErrWalletNotFound = ''wallet not found''"
| "error_text driver ErrTransactionConflict = ''conflict: idempotency key reused with a different payload''"
| "error_text driver ErrDuplicateTransaction = ''duplicate transaction''"
| "error_text driver ErrDuplicateMessage = ''duplicate message''"
| "error_text driver ErrNilTransaction = ''infrastructure: the provided SQL transaction is nil''"
| "error_text driver ErrNilDatabasePool = ''infrastructure: database pool is nil''"
| "error_text driver ErrWalletOwnerMismatch = ''the specified wallet does not belong to the given player''"
| "error_text driver ErrReferenceNotFound = ''referenced transaction not found''"
| "error_text driver ErrReferenceNotUsable = ''referenced transaction is not in a usable state''"
| "error_text driver ErrNilWalletRepository = ''usecase: wallet repository not initialized''"
| "error_text driver ErrTxCommitRollback = driver ''commit unexpectedly resulted in rollback''"
| "error_text driver ErrNumberOutOfRange = driver ''cannot scan numeric into int64''"
| "error_text driver (PgError code) = driver code"
| "error_text driver (ErrorString m) = m"
| "error_text driver (Wrapped m e) = m @ error_text driver e"
| "error_text driver (Panic m) = m"

lemma errors_is_refl [simp]: "errors_is e e"
  by (cases e) simp_all

lemma errors_is_wrapped [simp]: "errors_is (Wrapped m e) e"
  by simp

end
