(* ===== verification/Sql_Store.thy ===== *)
theory Sql_Store
  imports Go_Strings Ledger_Errors
begin

text \<open>
  The PostgreSQL store as the source uses it: the tables and constraints of
  \<open>migrations/000001_init_schema.up.sql\<close>, and the session in which a transaction runs
  (\<open>internal/infrastructure/database/transaction_manager.go\<close>).

  A table is the list of its rows. The statements of the repositories are functions on the
  \<open>database\<close>; \<open>exec_stmt\<close> runs one of them in a session. What the program cannot foresee is in
  the record \<open>txenv\<close>, which every theorem quantifies over: any statement may fail with any
  SQLSTATE (a lost connection, a deadlock, a timeout, a row another transaction inserted),
  beginning or committing may fail, and a commit may succeed while its acknowledgement is lost.
  As PostgreSQL documents, once a statement of a transaction block has failed, every further
  statement is refused with SQLSTATE 25P02 until the block ends, and the block can only be rolled
  back.
\<close>

section \<open>Tables\<close>

record wallet_row =
  w_id :: string
  w_player_id :: string
  w_currency :: string
  w_amount :: int64
  w_version :: int64
  w_created_at :: int
  w_updated_at :: int

record tx_row =
  t_id :: string
  t_provider_id :: string
  t_external_transaction_id :: string
  t_idempotency_key :: string
  t_payload_hash :: string
  t_wallet_id :: string
  t_player_id :: string
  t_round_id :: string
  t_game_id :: string
  t_kind :: string
  t_amount :: int64
  t_currency :: string
  t_reference_external_id :: "string option"
  t_status :: string
  t_failure_code :: "string option"
  t_next_retry_at :: "int option"
  t_created_at :: int
  t_updated_at :: int

record ledger_row =
  l_id :: string
  l_wallet_id :: string
  l_transaction_id :: string
  l_direction :: string
  l_amount :: int64
  l_balance_before :: int64
  l_balance_after :: int64
  l_created_at :: int

record inbox_row =
  i_message_id :: string
  i_consumer_name :: string
  i_payload_hash :: string

record outbox_row =
  o_id :: string
  o_aggregate_id :: string
  o_event_type :: string
  o_payload :: string
  o_attempts :: int
  o_status :: string
  o_next_send_at :: int
  o_created_at :: int
  o_published_at :: "int option"

record database =
  wallets :: "wallet_row list"
  wager_transactions :: "tx_row list"
  wallet_ledger_entries :: "ledger_row list"
  inbox_messages :: "inbox_row list"
  outbox_events :: "outbox_row list"

definition empty_database :: database where
  "empty_database = \<lparr>wallets = [], wager_transactions = [], wallet_ledger_entries = [],
     inbox_messages = [], outbox_events = []\<rparr>"

section \<open>Character columns\<close>

text \<open>
  A value of a text type is well-formed UTF-8 without the zero byte. A \<open>VARCHAR(n)\<close> column holds at
  most \<open>n\<close> characters; a longer value is an error unless all the excess characters are blanks, in which case it is
  cut (the SQL rule, as PostgreSQL documents it).
\<close>

definition pg_text :: "string \<Rightarrow> bool" where
  "pg_text s \<longleftrightarrow> valid_utf8 s \<and> byte_of 0 \<notin> set s"

definition pg_excess :: "nat \<Rightarrow> string \<Rightarrow> nat" where
  "pg_excess n s = char_count s - n"

definition pg_fits :: "nat \<Rightarrow> string \<Rightarrow> bool" where
  "pg_fits n s \<longleftrightarrow>
     pg_text s \<and> list_all (\<lambda>c. c = CHR '' '') (drop (length s - pg_excess n s) s)"

definition pg_trunc :: "nat \<Rightarrow> string \<Rightarrow> string" where
  "pg_trunc n s = take (length s - pg_excess n s) s"

text \<open>The columns of a row that are wider than their contents: the value is kept as it is.\<close>

definition pg_short :: "nat \<Rightarrow> string \<Rightarrow> bool" where
  "pg_short n s \<longleftrightarrow> pg_text s \<and> char_count s \<le> n"

lemma pg_trunc_short [simp]: "char_count s \<le> n \<Longrightarrow> pg_trunc n s = s"
  by (simp add: pg_trunc_def pg_excess_def)

lemma pg_short_fits: "pg_short n s \<Longrightarrow> pg_fits n s"
  by (simp add: pg_short_def pg_fits_def pg_excess_def)

lemma pg_short_trunc: "pg_short n s \<Longrightarrow> pg_trunc n s = s"
  by (simp add: pg_short_def)

lemma graphic_pg_short: "is_graphic s \<Longrightarrow> length s \<le> n \<Longrightarrow> pg_short n s"
proof -
  assume g: "is_graphic s" and n: "length s \<le> n"
  have "byte_of 0 \<notin> set s" using g by (auto simp: is_graphic_def list_all_iff)
  then show ?thesis
    using is_graphic_ascii [OF g] n
    by (simp add: pg_short_def pg_text_def valid_utf8_ascii char_count_ascii)
qed

lemma char_count_append [simp]: "char_count (s @ t) = char_count s + char_count t"
  by (simp add: char_count_def)

lemma char_count_blanks: "list_all (\<lambda>c. c = CHR '' '') s \<Longrightarrow> char_count s = length s"
  by (induction s) (simp_all add: char_count_def cont_byte_def byte_val_def)

lemma char_count_pg_trunc: "pg_fits n s \<Longrightarrow> char_count (pg_trunc n s) \<le> n"
proof -
  assume f: "pg_fits n s"
  define e where "e = pg_excess n s"
  define k where "k = length s - e"
  have blanks: "list_all (\<lambda>c. c = CHR '' '') (drop k s)"
    using f by (simp add: pg_fits_def k_def e_def)
  have "e \<le> length s" using char_count_le_length [of s] by (simp add: e_def pg_excess_def)
  then have "char_count (drop k s) = e" using char_count_blanks [OF blanks] by (simp add: k_def)
  moreover have "char_count (take k s) + char_count (drop k s) = char_count s"
    using char_count_append [of "take k s" "drop k s"] by (simp only: append_take_drop_id)
  moreover have "e = char_count s - n" by (simp add: e_def pg_excess_def)
  ultimately have "char_count (take k s) \<le> n" by linarith
  then show ?thesis by (simp add: pg_trunc_def k_def e_def)
qed

lemma pg_trunc_stable: "pg_fits n s \<Longrightarrow> pg_trunc n (pg_trunc n s) = pg_trunc n s"
  by (simp add: char_count_pg_trunc)

section \<open>Constraints\<close>

text \<open>
  The value a row has once it is stored, and the conditions under which an \<open>INSERT\<close> stores it,
  in the order PostgreSQL tests them: column types, \<open>CHECK\<close> constraints, unique indexes, foreign
  keys.
\<close>

definition refuse :: "string \<Rightarrow> goerror + 'a" where
  "refuse code = Inl (PgError code)"

definition columns_fit :: "(nat \<times> string) list \<Rightarrow> bool" where
  "columns_fit cs = list_all (\<lambda>(n, s). pg_fits n s) cs"

definition stored_wallet :: "wallet_row \<Rightarrow> wallet_row" where
  "stored_wallet r = r\<lparr>w_id := pg_trunc 64 (w_id r), w_player_id := pg_trunc 64 (w_player_id r),
     w_currency := pg_trunc 3 (w_currency r)\<rparr>"

definition wallet_check :: "wallet_row \<Rightarrow> bool" where
  "wallet_check r \<longleftrightarrow> 0 \<le> sint (w_amount r) \<and> 0 < sint (w_version r)"

definition owner_key :: "wallet_row \<Rightarrow> string \<times> string" where
  "owner_key r = (w_player_id r, w_currency r)"

definition insert_wallet :: "wallet_row \<Rightarrow> database \<Rightarrow> goerror + database" where
  "insert_wallet r0 d =
     (let r = stored_wallet r0 in
      if \<not> columns_fit [(64, w_id r0), (64, w_player_id r0), (3, w_currency r0)] then refuse ''22001''
      else if \<not> wallet_check r then refuse ''23514''
      else if list_ex (\<lambda>q. w_id q = w_id r) (wallets d)
        \<or> list_ex (\<lambda>q. owner_key q = owner_key r) (wallets d)
      then refuse unique_violation
      else Inr (d\<lparr>wallets := wallets d @ [r]\<rparr>))"

definition tx_columns :: "tx_row \<Rightarrow> (nat \<times> string) list" where
  "tx_columns r =
     [(64, t_id r), (64, t_provider_id r), (64, t_external_transaction_id r),
      (255, t_idempotency_key r), (64, t_payload_hash r), (64, t_wallet_id r), (64, t_player_id r),
      (64, t_round_id r), (64, t_game_id r), (20, t_kind r), (3, t_currency r), (30, t_status r)]
     @ (case t_reference_external_id r of None \<Rightarrow> [] | Some s \<Rightarrow> [(64, s)])
     @ (case t_failure_code r of None \<Rightarrow> [] | Some s \<Rightarrow> [(50, s)])"

definition stored_tx :: "tx_row \<Rightarrow> tx_row" where
  "stored_tx r = r\<lparr>t_id := pg_trunc 64 (t_id r), t_provider_id := pg_trunc 64 (t_provider_id r),
     t_external_transaction_id := pg_trunc 64 (t_external_transaction_id r),
     t_idempotency_key := pg_trunc 255 (t_idempotency_key r),
     t_payload_hash := pg_trunc 64 (t_payload_hash r), t_wallet_id := pg_trunc 64 (t_wallet_id r),
     t_player_id := pg_trunc 64 (t_player_id r), t_round_id := pg_trunc 64 (t_round_id r),
     t_game_id := pg_trunc 64 (t_game_id r), t_kind := pg_trunc 20 (t_kind r),
     t_currency := pg_trunc 3 (t_currency r), t_status := pg_trunc 30 (t_status r),
     t_reference_external_id := map_option (pg_trunc 64) (t_reference_external_id r),
     t_failure_code := map_option (pg_trunc 50) (t_failure_code r)\<rparr>"

definition tx_check :: "tx_row \<Rightarrow> bool" where
  "tx_check r \<longleftrightarrow>
     t_kind r \<in> {''OPENING'', ''BET'', ''WIN'', ''LOSS'', ''REFUND'', ''ROLLBACK''}
     \<and> t_status r \<in> {''PENDING'', ''PENDING_REFERENCE'', ''PROCESSED'', ''REJECTED'', ''FAILED''}"

definition external_key :: "tx_row \<Rightarrow> string \<times> string" where
  "external_key r = (t_provider_id r, t_external_transaction_id r)"

definition insert_tx :: "tx_row \<Rightarrow> database \<Rightarrow> goerror + database" where
  "insert_tx r0 d =
     (let r = stored_tx r0; rs = wager_transactions d in
      if \<not> columns_fit (tx_columns r0) then refuse ''22001''
      else if \<not> tx_check r then refuse ''23514''
      else if list_ex (\<lambda>q. t_id q = t_id r) rs
        \<or> list_ex (\<lambda>q. external_key q = external_key r) rs
        \<or> list_ex (\<lambda>q. t_idempotency_key q = t_idempotency_key r) rs
      then refuse unique_violation
      else if \<not> list_ex (\<lambda>w. w_id w = t_wallet_id r) (wallets d) then refuse ''23503''
      else Inr (d\<lparr>wager_transactions := rs @ [r]\<rparr>))"

definition ledger_key :: "ledger_row \<Rightarrow> string \<times> string" where
  "ledger_key r = (l_wallet_id r, l_transaction_id r)"

definition stored_ledger :: "ledger_row \<Rightarrow> ledger_row" where
  "stored_ledger r = r\<lparr>l_id := pg_trunc 64 (l_id r), l_wallet_id := pg_trunc 64 (l_wallet_id r),
     l_transaction_id := pg_trunc 64 (l_transaction_id r), l_direction := pg_trunc 6 (l_direction r)\<rparr>"

definition ledger_check :: "ledger_row \<Rightarrow> bool" where
  "ledger_check r \<longleftrightarrow>
     (l_direction r = ''CREDIT'' \<and> sint (l_balance_after r) = sint (l_balance_before r) + sint (l_amount r)
      \<or> l_direction r = ''DEBIT'' \<and> sint (l_balance_after r) = sint (l_balance_before r) - sint (l_amount r))
     \<and> 0 < sint (l_amount r) \<and> 0 \<le> sint (l_balance_after r) \<and> 0 \<le> sint (l_balance_before r)"

text \<open>The sum in the check of a credit is of type \<open>BIGINT\<close>: when it does not fit, evaluating the check is SQLSTATE 22003.\<close>

definition ledger_check_code :: "ledger_row \<Rightarrow> string" where
  "ledger_check_code r =
     (if l_direction r = ''CREDIT'' \<and> 0 < sint (l_amount r) \<and> 0 \<le> sint (l_balance_after r) \<and> 0 \<le> sint (l_balance_before r)
         \<and> \<not> in_int64 (sint (l_balance_before r) + sint (l_amount r))
      then ''22003'' else ''23514'')"

definition insert_ledger :: "ledger_row \<Rightarrow> database \<Rightarrow> goerror + database" where
  "insert_ledger r0 d =
     (let r = stored_ledger r0; rs = wallet_ledger_entries d in
      if \<not> columns_fit [(64, l_id r0), (64, l_wallet_id r0), (64, l_transaction_id r0), (6, l_direction r0)]
      then refuse ''22001''
      else if \<not> ledger_check r then refuse (ledger_check_code r)
      else if list_ex (\<lambda>q. l_id q = l_id r) rs
        \<or> list_ex (\<lambda>q. ledger_key q = ledger_key r) rs
      then refuse unique_violation
      else if \<not> list_ex (\<lambda>w. w_id w = l_wallet_id r) (wallets d)
        \<or> \<not> list_ex (\<lambda>t. t_id t = l_transaction_id r) (wager_transactions d)
      then refuse ''23503''
      else Inr (d\<lparr>wallet_ledger_entries := rs @ [r]\<rparr>))"

definition stored_inbox :: "inbox_row \<Rightarrow> inbox_row" where
  "stored_inbox r = r\<lparr>i_message_id := pg_trunc 64 (i_message_id r),
     i_consumer_name := pg_trunc 100 (i_consumer_name r), i_payload_hash := pg_trunc 64 (i_payload_hash r)\<rparr>"

definition inbox_key :: "inbox_row \<Rightarrow> string \<times> string" where
  "inbox_key r = (i_consumer_name r, i_message_id r)"

definition insert_inbox :: "inbox_row \<Rightarrow> database \<Rightarrow> goerror + database" where
  "insert_inbox r0 d =
     (let r = stored_inbox r0; rs = inbox_messages d in
      if \<not> columns_fit [(64, i_message_id r0), (100, i_consumer_name r0), (64, i_payload_hash r0)]
      then refuse ''22001''
      else if list_ex (\<lambda>q. inbox_key q = inbox_key r) rs then refuse unique_violation
      else Inr (d\<lparr>inbox_messages := rs @ [r]\<rparr>))"

definition stored_outbox :: "outbox_row \<Rightarrow> outbox_row" where
  "stored_outbox r = r\<lparr>o_id := pg_trunc 64 (o_id r), o_aggregate_id := pg_trunc 64 (o_aggregate_id r),
     o_event_type := pg_trunc 100 (o_event_type r), o_status := pg_trunc 20 (o_status r)\<rparr>"

definition outbox_check :: "outbox_row \<Rightarrow> bool" where
  "outbox_check r \<longleftrightarrow> o_status r \<in> {''PENDING'', ''PUBLISHED'', ''FAILED''}"

definition insert_outbox :: "outbox_row \<Rightarrow> database \<Rightarrow> goerror + database" where
  "insert_outbox r0 d =
     (let r = stored_outbox r0; rs = outbox_events d in
      if \<not> columns_fit [(64, o_id r0), (64, o_aggregate_id r0), (100, o_event_type r0), (20, o_status r0)]
        \<or> \<not> pg_text (o_payload r0)
      then refuse ''22001''
      else if \<not> outbox_check r then refuse ''23514''
      else if list_ex (\<lambda>q. o_id q = o_id r) rs then refuse unique_violation
      else Inr (d\<lparr>outbox_events := rs @ [r]\<rparr>))"

section \<open>Sessions\<close>

datatype commit_outcome = CommitOk | CommitFailed string | CommitLost string

record txenv =
  begin_fault :: "string option"
  stmt_fault :: "nat \<Rightarrow> string option"
  commit_outcome :: commit_outcome
  clock :: "nat \<Rightarrow> int"

record session =
  db :: database
  aborted :: bool
  stmts :: nat
  ticks :: nat

type_synonym 'a action = "txenv \<Rightarrow> session \<Rightarrow> (goerror + 'a) \<times> session"

definition act_return :: "'a \<Rightarrow> 'a action" where
  "act_return a X s = (Inr a, s)"

definition act_fail :: "goerror \<Rightarrow> 'a action" where
  "act_fail e X s = (Inl e, s)"

definition act_pure :: "'a result \<Rightarrow> 'a action" where
  "act_pure r X s = (r, s)"

text \<open>
  \<open>act_try m h f\<close>: run \<open>m\<close>; on an error \<open>e\<close> go on with \<open>h e\<close>, on a value \<open>a\<close> with \<open>f a\<close>.
  \<open>act_bind\<close> is the common case \<open>if err != nil { return err }\<close>.
\<close>

definition act_try :: "'a action \<Rightarrow> (goerror \<Rightarrow> 'b action) \<Rightarrow> ('a \<Rightarrow> 'b action) \<Rightarrow> 'b action" where
  "act_try m h f X s = (case m X s of (Inl e, s') \<Rightarrow> h e X s' | (Inr a, s') \<Rightarrow> f a X s')"

definition act_bind :: "'a action \<Rightarrow> ('a \<Rightarrow> 'b action) \<Rightarrow> 'b action" where
  "act_bind m f = act_try m act_fail f"

text \<open>\<open>time.Now().UTC()\<close>: the next reading of the clock.\<close>

definition act_now :: "int action" where
  "act_now X s = (Inr (clock X (ticks s)), s\<lparr>ticks := Suc (ticks s)\<rparr>)"

text \<open>One statement of a transaction.\<close>

definition exec_stmt :: "(database \<Rightarrow> goerror + ('a \<times> database)) \<Rightarrow> 'a action" where
  "exec_stmt f X s =
     (let s' = s\<lparr>stmts := Suc (stmts s)\<rparr> in
      if aborted s then (Inl (PgError ''25P02''), s')
      else case stmt_fault X (stmts s) of
        Some code \<Rightarrow> (Inl (PgError code), s'\<lparr>aborted := True\<rparr>)
      | None \<Rightarrow>
          (case f (db s) of
             Inl e \<Rightarrow> (Inl e, s'\<lparr>aborted := True\<rparr>)
           | Inr (a, d) \<Rightarrow> (Inr a, s'\<lparr>db := d\<rparr>)))"

text \<open>A statement that returns nothing, and a query with the text parameters it is given.\<close>

definition sql_exec :: "(database \<Rightarrow> goerror + database) \<Rightarrow> unit action" where
  "sql_exec f = exec_stmt (\<lambda>d. case f d of Inl e \<Rightarrow> Inl e | Inr d' \<Rightarrow> Inr ((), d'))"

definition sql_query :: "string list \<Rightarrow> (database \<Rightarrow> 'a) \<Rightarrow> 'a action" where
  "sql_query params q =
     exec_stmt (\<lambda>d. if list_all pg_text params then Inr (q d, d) else refuse ''22021'')"

text \<open>
  The transaction handle that the repositories are given, \<open>None\<close> for a nil one; and a query on the
  connection pool, outside every transaction, the \<open>n\<close>-th statement of its caller.
\<close>

type_synonym pgx_tx = "unit option"
type_synonym pgx_pool = "unit option"

abbreviation live_tx :: pgx_tx where
  "live_tx \<equiv> Some ()"

definition guard_tx :: "pgx_tx \<Rightarrow> 'a action \<Rightarrow> 'a action" where
  "guard_tx tx m = (case tx of None \<Rightarrow> act_fail ErrNilTransaction | Some _ \<Rightarrow> m)"

definition wrap_err :: "string \<Rightarrow> 'a action \<Rightarrow> 'a action" where
  "wrap_err msg m = act_try m (\<lambda>e. act_fail (Wrapped msg e)) act_return"

definition pool_query :: "txenv \<Rightarrow> nat \<Rightarrow> string list \<Rightarrow> (database \<Rightarrow> 'a) \<Rightarrow> database \<Rightarrow> 'a result" where
  "pool_query X n params q d =
     (case stmt_fault X n of
        Some code \<Rightarrow> Inl (PgError code)
      | None \<Rightarrow> if list_all pg_text params then Inr (q d) else refuse ''22021'')"

section \<open>ExecuteInTransaction\<close>

text \<open>
  \<open>ExecuteInTransaction\<close> gives the body a live handle and a working copy of the committed database;
  it publishes the copy when the body succeeds and the commit does, and rolls back otherwise.
\<close>

definition ExecuteInTransaction ::
  "txenv \<Rightarrow> nat \<Rightarrow> (pgx_tx \<Rightarrow> 'a action) \<Rightarrow> database \<Rightarrow> 'a result \<times> database" where
  "ExecuteInTransaction X n fn d =
     (case begin_fault X of
        Some code \<Rightarrow> (Inl (Wrapped ''failed to begin transaction: '' (PgError code)), d)
      | None \<Rightarrow>
          (case fn live_tx X \<lparr>db = d, aborted = False, stmts = 0, ticks = n\<rparr> of
             (Inl e, s) \<Rightarrow> (Inl e, d)
           | (Inr a, s) \<Rightarrow>
               (case commit_outcome X of
                  CommitFailed code \<Rightarrow> (Inl (Wrapped ''failed to commit transaction: '' (PgError code)), d)
                | CommitLost code \<Rightarrow>
                    (Inl (Wrapped ''failed to commit transaction: '' (PgError code)),
                     if aborted s then d else db s)
                | CommitOk \<Rightarrow>
                    if aborted s
                    then (Inl (Wrapped ''failed to commit transaction: '' ErrTxCommitRollback), d)
                    else (Inr a, db s))))"

end
