(* ===== verification/Store_Laws.thy ===== *)
theory Store_Laws
  imports Sql_Store
begin

text \<open>
  What the store promises to its clients. First the laws of sessions: what a successful statement
  tells, that a failed one leaves the transaction good for nothing but a rollback, and that
  \<open>ExecuteInTransaction\<close> either commits the whole working copy or leaves the database alone. Then
  the interface of a table with a unique key (locale \<open>keyed_table\<close>), interpreted for every unique
  constraint of the schema, and the interface of a transaction body that keeps an invariant
  (locale \<open>invariant_body\<close>).
\<close>

section \<open>Success of actions\<close>

named_theorems act_inr \<open>an action succeeds if and only if its parts do\<close>

lemma act_return_Inr [act_inr]: "act_return a X s = (Inr b, s') \<longleftrightarrow> b = a \<and> s' = s"
  by (auto simp: act_return_def)

lemma act_fail_Inr [act_inr]: "act_fail e X s \<noteq> (Inr b, s')"
  by (simp add: act_fail_def)

lemma act_pure_Inr [act_inr]: "act_pure r X s = (Inr b, s') \<longleftrightarrow> r = Inr b \<and> s' = s"
  by (auto simp: act_pure_def)

lemma act_now_Inr [act_inr]:
  "act_now X s = (Inr t, s') \<longleftrightarrow> t = clock X (ticks s) \<and> s' = s\<lparr>ticks := Suc (ticks s)\<rparr>"
  by (auto simp: act_now_def)

lemma act_try_Inr:
  "act_try m h f X s = (Inr b, s') \<longleftrightarrow>
     (\<exists>e s1. m X s = (Inl e, s1) \<and> h e X s1 = (Inr b, s'))
     \<or> (\<exists>a s1. m X s = (Inr a, s1) \<and> f a X s1 = (Inr b, s'))"
  by (auto simp: act_try_def split: prod.splits sum.splits)

lemma act_bind_Inr [act_inr]:
  "act_bind m f X s = (Inr b, s') \<longleftrightarrow> (\<exists>a s1. m X s = (Inr a, s1) \<and> f a X s1 = (Inr b, s'))"
  by (auto simp: act_bind_def act_try_Inr act_fail_def)

lemma exec_stmt_Inr [act_inr]:
  "exec_stmt f X s = (Inr a, s') \<longleftrightarrow>
     \<not> aborted s \<and> stmt_fault X (stmts s) = None
     \<and> (\<exists>d. f (db s) = Inr (a, d) \<and> s' = s\<lparr>stmts := Suc (stmts s), db := d\<rparr>)"
  by (auto simp: exec_stmt_def Let_def split: option.splits sum.splits)

lemma sql_exec_Inr [act_inr]:
  "sql_exec f X s = (Inr u, s') \<longleftrightarrow>
     \<not> aborted s \<and> stmt_fault X (stmts s) = None
     \<and> (\<exists>d. f (db s) = Inr d \<and> s' = s\<lparr>stmts := Suc (stmts s), db := d\<rparr>)"
  by (auto simp: sql_exec_def exec_stmt_Inr split: sum.splits)

lemma sql_query_Inr [act_inr]:
  "sql_query ps q X s = (Inr a, s') \<longleftrightarrow>
     \<not> aborted s \<and> stmt_fault X (stmts s) = None \<and> list_all pg_text ps
     \<and> a = q (db s) \<and> s' = s\<lparr>stmts := Suc (stmts s)\<rparr>"
  by (auto simp: sql_query_def exec_stmt_Inr refuse_def)

lemma guard_tx_live [simp]: "guard_tx live_tx m = m"
  by (simp add: guard_tx_def)

lemma guard_tx_nil [simp]: "guard_tx None m = act_fail ErrNilTransaction"
  by (simp add: guard_tx_def)

lemma wrap_err_Inr [act_inr]: "wrap_err msg m X s = (Inr a, s') \<longleftrightarrow> m X s = (Inr a, s')"
  by (auto simp: wrap_err_def act_try_Inr act_fail_def act_return_def)

section \<open>Failure of actions\<close>

text \<open>
  An action is \<open>strict\<close> when in a session that has failed it fails too, and leaves the working copy
  alone and the session failed.
\<close>

definition stuck :: "session \<Rightarrow> session \<Rightarrow> bool" where
  "stuck s s' \<longleftrightarrow> aborted s' \<and> db s' = db s"

lemma exec_stmt_aborted:
  "aborted s \<Longrightarrow> exec_stmt f X s = (Inl (PgError ''25P02''), s\<lparr>stmts := Suc (stmts s)\<rparr>)"
  by (simp add: exec_stmt_def Let_def)

lemma sql_query_aborted:
  "aborted s \<Longrightarrow> sql_query ps q X s = (Inl (PgError ''25P02''), s\<lparr>stmts := Suc (stmts s)\<rparr>)"
  by (simp add: sql_query_def exec_stmt_aborted)

lemma sql_exec_aborted:
  "aborted s \<Longrightarrow> sql_exec f X s = (Inl (PgError ''25P02''), s\<lparr>stmts := Suc (stmts s)\<rparr>)"
  by (simp add: sql_exec_def exec_stmt_aborted)

text \<open>A failed statement leaves the session failed and the working copy alone.\<close>

lemma exec_stmt_Inl: "exec_stmt f X s = (Inl e, s') \<Longrightarrow> aborted s' \<and> db s' = db s"
  by (auto simp: exec_stmt_def Let_def split: if_splits option.splits sum.splits)

lemma sql_exec_Inl: "sql_exec f X s = (Inl e, s') \<Longrightarrow> aborted s' \<and> db s' = db s"
  by (simp add: sql_exec_def exec_stmt_Inl)

section \<open>Steps forward\<close>

text \<open>Evaluation of the actions where no fault is in the way.\<close>

definition fault_free :: "txenv \<Rightarrow> bool" where
  "fault_free X \<longleftrightarrow> begin_fault X = None \<and> (\<forall>n. stmt_fault X n = None) \<and> commit_outcome X = CommitOk"

lemma fault_freeD: "fault_free X \<Longrightarrow> stmt_fault X n = None"
  by (simp add: fault_free_def)

lemma act_bind_run: "act_bind m f X s = (case m X s of (Inl e, s') \<Rightarrow> (Inl e, s') | (Inr a, s') \<Rightarrow> f a X s')"
  by (simp add: act_bind_def act_try_def act_fail_def split: prod.split sum.split)

lemmas act_run =
  act_bind_run act_try_def act_return_def act_fail_def act_pure_def act_now_def

lemma sql_exec_run:
  "fault_free X \<Longrightarrow> \<not> aborted s \<Longrightarrow>
   sql_exec f X s =
     (case f (db s) of
        Inl e \<Rightarrow> (Inl e, s\<lparr>stmts := Suc (stmts s), aborted := True\<rparr>)
      | Inr d \<Rightarrow> (Inr (), s\<lparr>stmts := Suc (stmts s), db := d\<rparr>))"
  by (auto simp: sql_exec_def exec_stmt_def Let_def fault_free_def split: sum.splits)

lemma sql_query_run:
  "fault_free X \<Longrightarrow> \<not> aborted s \<Longrightarrow> list_all pg_text ps \<Longrightarrow>
   sql_query ps q X s = (Inr (q (db s)), s\<lparr>stmts := Suc (stmts s)\<rparr>)"
  by (auto simp: sql_query_def exec_stmt_def Let_def fault_free_def)

section \<open>ExecuteInTransaction\<close>

definition start_session :: "database \<Rightarrow> nat \<Rightarrow> session" where
  "start_session d n = \<lparr>db = d, aborted = False, stmts = 0, ticks = n\<rparr>"

lemma start_session_simps [simp]:
  "db (start_session d n) = d" "\<not> aborted (start_session d n)"
  "stmts (start_session d n) = 0" "ticks (start_session d n) = n"
  by (simp_all add: start_session_def)

text \<open>A success has committed the working copy of a body that succeeded.\<close>

lemma Execute_Inr:
  "ExecuteInTransaction X n fn d = (Inr a, d') \<longleftrightarrow>
     begin_fault X = None \<and> commit_outcome X = CommitOk
     \<and> (\<exists>s. fn live_tx X (start_session d n) = (Inr a, s) \<and> \<not> aborted s \<and> d' = db s)"
  by (auto simp: ExecuteInTransaction_def start_session_def
      split: option.splits prod.splits sum.splits commit_outcome.splits)

text \<open>Whatever happens, the database is the old one or the working copy of a body that succeeded.\<close>

lemma Execute_cases:
  assumes "ExecuteInTransaction X n fn d = (r, d')"
  obtains "d' = d" | a s where "fn live_tx X (start_session d n) = (Inr a, s)" "\<not> aborted s" "d' = db s"
  using assms
  by (auto simp: ExecuteInTransaction_def start_session_def
      split: option.splits prod.splits sum.splits commit_outcome.splits if_splits)

text \<open>An error leaves the database alone, unless the acknowledgement of a commit was lost.\<close>

lemma Execute_Inl:
  assumes "ExecuteInTransaction X n fn d = (Inl e, d')" "\<And>c. commit_outcome X \<noteq> CommitLost c"
  shows "d' = d"
  using assms
  by (auto simp: ExecuteInTransaction_def
      split: option.splits prod.splits sum.splits commit_outcome.splits if_splits)

lemma Execute_body_fails:
  assumes "fn live_tx X (start_session d n) = (Inl e, s)" "begin_fault X = None"
  shows "ExecuteInTransaction X n fn d = (Inl e, d)"
  using assms by (simp add: ExecuteInTransaction_def start_session_def)

lemma Execute_body_ok:
  assumes "fn live_tx X (start_session d n) = (Inr a, s)" "begin_fault X = None" "commit_outcome X = CommitOk"
    "\<not> aborted s"
  shows "ExecuteInTransaction X n fn d = (Inr a, db s)"
  using assms by (simp add: ExecuteInTransaction_def start_session_def)

section \<open>Bodies that keep an invariant\<close>

locale invariant_body =
  fixes I :: "database \<Rightarrow> bool"
    and body :: "pgx_tx \<Rightarrow> 'a action"
  assumes body_keeps: "I (db s) \<Longrightarrow> body live_tx X s = (Inr a, s') \<Longrightarrow> I (db s')"
begin

lemma execute_keeps:
  assumes "I d" "ExecuteInTransaction X n body d = (r, d')"
  shows "I d'"
  using assms(2)
proof (rule Execute_cases)
  fix a s
  assume "body live_tx X (start_session d n) = (Inr a, s)" "d' = db s"
  then show ?thesis using body_keeps [of "start_session d n" X a s] assms(1) by simp
qed (use assms(1) in simp)

end

section \<open>Tables with a unique key\<close>

locale keyed_table =
  fixes rows :: "database \<Rightarrow> 'r list"
    and key :: "'r \<Rightarrow> 'k"
    and stored :: "'r \<Rightarrow> 'r"
    and ins :: "'r \<Rightarrow> database \<Rightarrow> goerror + database"
  assumes insert_rows: "ins r d = Inr d' \<Longrightarrow> rows d' = rows d @ [stored r]"
    and insert_fresh: "ins r d = Inr d' \<Longrightarrow> key (stored r) \<notin> key ` set (rows d)"
begin

definition unique :: "database \<Rightarrow> bool" where
  "unique d \<longleftrightarrow> distinct (map key (rows d))"

definition lookup :: "'k \<Rightarrow> database \<Rightarrow> 'r option" where
  "lookup k d = find (\<lambda>r. key r = k) (rows d)"

lemma insert_unique: "unique d \<Longrightarrow> ins r d = Inr d' \<Longrightarrow> unique d'"
  using insert_rows insert_fresh by (auto simp: unique_def)

lemma lookup_inserted: "ins r d = Inr d' \<Longrightarrow> lookup (key (stored r)) d' = Some (stored r)"
  using insert_rows [of r d d'] insert_fresh [of r d d']
  by (auto simp: lookup_def find_append find_None_iff_not image_iff split: option.splits dest!: find_SomeD)

lemma lookup_kept: "ins r d = Inr d' \<Longrightarrow> lookup k d = Some q \<Longrightarrow> lookup k d' = Some q"
  using insert_rows [of r d d'] by (simp add: lookup_def find_append)

lemma insert_duplicate: "lookup (key (stored r)) d = Some q \<Longrightarrow> \<exists>e. ins r d = Inl e"
proof (cases "ins r d")
  case (Inr d')
  moreover assume "lookup (key (stored r)) d = Some q"
  then have "q \<in> set (rows d)" "key (stored r) = key q"
    by (auto simp: lookup_def dest: find_SomeD)
  then have "key (stored r) \<in> key ` set (rows d)" by simp
  ultimately show ?thesis using insert_fresh by blast
qed simp

lemma lookup_mem: "lookup k d = Some q \<Longrightarrow> q \<in> set (rows d) \<and> key q = k"
  by (auto simp: lookup_def dest: find_SomeD)

lemma lookup_unique: "unique d \<Longrightarrow> q \<in> set (rows d) \<Longrightarrow> lookup (key q) d = Some q"
  by (auto simp: lookup_def unique_def intro: find_unique_key)

lemma unique_eq: "unique d \<Longrightarrow> q \<in> set (rows d) \<Longrightarrow> q' \<in> set (rows d) \<Longrightarrow> key q = key q' \<Longrightarrow> q = q'"
  by (simp add: unique_def distinct_map inj_on_def)

end

section \<open>The constraints of the schema\<close>

lemma list_ex_key: "list_ex (\<lambda>q. f q = c) rs \<longleftrightarrow> c \<in> f ` set rs"
  by (auto simp: list_ex_iff)

lemmas insert_defs = refuse_def Let_def list_ex_key

lemma insert_wallet_Inr [inr_dest]:
  "insert_wallet r d = Inr d' \<longleftrightarrow>
     columns_fit [(64, w_id r), (64, w_player_id r), (3, w_currency r)]
     \<and> wallet_check (stored_wallet r)
     \<and> w_id (stored_wallet r) \<notin> w_id ` set (wallets d)
     \<and> owner_key (stored_wallet r) \<notin> owner_key ` set (wallets d)
     \<and> d' = d\<lparr>wallets := wallets d @ [stored_wallet r]\<rparr>"
  by (auto simp: insert_wallet_def insert_defs)

lemma insert_tx_Inr [inr_dest]:
  "insert_tx r d = Inr d' \<longleftrightarrow>
     columns_fit (tx_columns r) \<and> tx_check (stored_tx r)
     \<and> t_id (stored_tx r) \<notin> t_id ` set (wager_transactions d)
     \<and> external_key (stored_tx r) \<notin> external_key ` set (wager_transactions d)
     \<and> t_idempotency_key (stored_tx r) \<notin> t_idempotency_key ` set (wager_transactions d)
     \<and> t_wallet_id (stored_tx r) \<in> w_id ` set (wallets d)
     \<and> d' = d\<lparr>wager_transactions := wager_transactions d @ [stored_tx r]\<rparr>"
  by (auto simp: insert_tx_def insert_defs)

lemma insert_ledger_Inr [inr_dest]:
  "insert_ledger r d = Inr d' \<longleftrightarrow>
     columns_fit [(64, l_id r), (64, l_wallet_id r), (64, l_transaction_id r), (6, l_direction r)]
     \<and> ledger_check (stored_ledger r)
     \<and> l_id (stored_ledger r) \<notin> l_id ` set (wallet_ledger_entries d)
     \<and> ledger_key (stored_ledger r) \<notin> ledger_key ` set (wallet_ledger_entries d)
     \<and> l_wallet_id (stored_ledger r) \<in> w_id ` set (wallets d)
     \<and> l_transaction_id (stored_ledger r) \<in> t_id ` set (wager_transactions d)
     \<and> d' = d\<lparr>wallet_ledger_entries := wallet_ledger_entries d @ [stored_ledger r]\<rparr>"
  by (auto simp: insert_ledger_def insert_defs)

lemma insert_inbox_Inr [inr_dest]:
  "insert_inbox r d = Inr d' \<longleftrightarrow>
     columns_fit [(64, i_message_id r), (100, i_consumer_name r), (64, i_payload_hash r)]
     \<and> inbox_key (stored_inbox r) \<notin> inbox_key ` set (inbox_messages d)
     \<and> d' = d\<lparr>inbox_messages := inbox_messages d @ [stored_inbox r]\<rparr>"
  by (auto simp: insert_inbox_def insert_defs)

lemma insert_outbox_Inr [inr_dest]:
  "insert_outbox r d = Inr d' \<longleftrightarrow>
     columns_fit [(64, o_id r), (64, o_aggregate_id r), (100, o_event_type r), (20, o_status r)]
     \<and> pg_text (o_payload r) \<and> outbox_check (stored_outbox r)
     \<and> o_id (stored_outbox r) \<notin> o_id ` set (outbox_events d)
     \<and> d' = d\<lparr>outbox_events := outbox_events d @ [stored_outbox r]\<rparr>"
  by (auto simp: insert_outbox_def insert_defs)

interpretation wallet_tab: keyed_table wallets w_id stored_wallet insert_wallet
  by unfold_locales (auto simp: insert_wallet_Inr)

interpretation owner_tab: keyed_table wallets owner_key stored_wallet insert_wallet
  by unfold_locales (auto simp: insert_wallet_Inr)

interpretation tx_tab: keyed_table wager_transactions t_id stored_tx insert_tx
  by unfold_locales (auto simp: insert_tx_Inr)

interpretation ext_tab: keyed_table wager_transactions external_key stored_tx insert_tx
  by unfold_locales (auto simp: insert_tx_Inr)

interpretation idem_tab: keyed_table wager_transactions t_idempotency_key stored_tx insert_tx
  by unfold_locales (auto simp: insert_tx_Inr)

interpretation entry_tab: keyed_table wallet_ledger_entries l_id stored_ledger insert_ledger
  by unfold_locales (auto simp: insert_ledger_Inr)

interpretation movement_tab: keyed_table wallet_ledger_entries ledger_key stored_ledger insert_ledger
  by unfold_locales (auto simp: insert_ledger_Inr)

interpretation inbox_tab: keyed_table inbox_messages inbox_key stored_inbox insert_inbox
  by unfold_locales (auto simp: insert_inbox_Inr)

interpretation outbox_tab: keyed_table outbox_events o_id stored_outbox insert_outbox
  by unfold_locales (auto simp: insert_outbox_Inr)

end
