(* ===== verification/Messaging_Repository.thy ===== *)
theory Messaging_Repository
  imports Store_Laws
begin

text \<open>
  \<open>internal/infrastructure/repository/messaging_repository.go\<close>: the inbox of consumed messages and
  the outbox of events to publish.
\<close>

record outbox_event =
  oe_ID :: string
  oe_AggregateID :: string
  oe_EventType :: string
  oe_Payload :: string
  oe_Status :: string
  oe_Attempts :: int
  oe_NextSendAt :: int
  oe_CreatedAt :: int

section \<open>The operations\<close>

text \<open>The statement does not set \<open>attempts\<close> and \<open>published_at\<close>: the defaults are 0 and NULL.\<close>

definition outbox_row_of :: "runtime \<Rightarrow> outbox_event \<Rightarrow> outbox_row" where
  "outbox_row_of R e =
     \<lparr>o_id = oe_ID e, o_aggregate_id = oe_AggregateID e, o_event_type = oe_EventType e,
      o_payload = oe_Payload e, o_attempts = 0, o_status = oe_Status e,
      o_next_send_at = store_time R (oe_NextSendAt e), o_created_at = store_time R (oe_CreatedAt e),
      o_published_at = None\<rparr>"

definition SaveOutbox :: "runtime \<Rightarrow> pgx_tx \<Rightarrow> outbox_event \<Rightarrow> unit action" where
  "SaveOutbox R tx event = guard_tx tx (sql_exec (insert_outbox (outbox_row_of R event)))"

definition SaveInbox :: "pgx_tx \<Rightarrow> string \<Rightarrow> string \<Rightarrow> string \<Rightarrow> unit action" where
  "SaveInbox tx consumerName messageID payloadHash =
     guard_tx tx
       (act_try
         (sql_exec (insert_inbox \<lparr>i_message_id = messageID, i_consumer_name = consumerName,
            i_payload_hash = payloadHash\<rparr>))
         (\<lambda>err. if is_unique_violation err then act_fail ErrDuplicateMessage else act_fail err)
         act_return)"

text \<open>
  \<open>SELECT ... WHERE status = 'PENDING' AND next_send_at <= $1 ORDER BY next_send_at LIMIT $2 FOR UPDATE SKIP LOCKED\<close>:
  \<open>locked\<close> are the rows that other sessions hold a lock on.
\<close>

definition due_events :: "runtime \<Rightarrow> (string \<Rightarrow> bool) \<Rightarrow> int \<Rightarrow> nat \<Rightarrow> database \<Rightarrow> outbox_row list" where
  "due_events R locked now limit d =
     take limit (sort_key o_next_send_at
       (filter (\<lambda>r. o_status r = ''PENDING'' \<and> o_next_send_at r \<le> store_time R now \<and> \<not> locked (o_id r))
         (outbox_events d)))"

definition event_of_row :: "outbox_row \<Rightarrow> outbox_event" where
  "event_of_row r =
     \<lparr>oe_ID = o_id r, oe_AggregateID = o_aggregate_id r, oe_EventType = o_event_type r,
      oe_Payload = o_payload r, oe_Status = o_status r, oe_Attempts = o_attempts r,
      oe_NextSendAt = o_next_send_at r, oe_CreatedAt = o_created_at r\<rparr>"

definition FindPendingOutboxEvents ::
  "runtime \<Rightarrow> (string \<Rightarrow> bool) \<Rightarrow> pgx_tx \<Rightarrow> nat \<Rightarrow> outbox_event list action" where
  "FindPendingOutboxEvents R locked tx limit =
     guard_tx tx
       (act_bind act_now (\<lambda>now.
         wrap_err ''failed to find pending outbox events: ''
           (sql_query [] (\<lambda>d. map event_of_row (due_events R locked now limit d)))))"

definition publish_row :: "int \<Rightarrow> outbox_row \<Rightarrow> outbox_row" where
  "publish_row now r = r\<lparr>o_status := ''PUBLISHED'', o_published_at := Some now\<rparr>"

definition MarkOutboxAsPublished :: "runtime \<Rightarrow> pgx_tx \<Rightarrow> string \<Rightarrow> unit action" where
  "MarkOutboxAsPublished R tx i =
     guard_tx tx
       (act_bind act_now (\<lambda>now.
         wrap_err ''failed to mark outbox as published: ''
           (sql_exec (\<lambda>d.
              if \<not> pg_text i then refuse ''22021''
              else Inr (d\<lparr>outbox_events :=
                update_where (\<lambda>r. o_id r = i) (publish_row (store_time R now)) (outbox_events d)\<rparr>)))))"

definition retry_row :: "int \<Rightarrow> int \<Rightarrow> outbox_row \<Rightarrow> outbox_row" where
  "retry_row nextSendAt maxAttempts r =
     r\<lparr>o_attempts := o_attempts r + 1, o_next_send_at := nextSendAt,
       o_status := (if maxAttempts \<le> o_attempts r + 1 then ''FAILED'' else o_status r)\<rparr>"

text \<open>The column \<open>attempts\<close> is a 32-bit \<open>INT\<close>: counting past its maximum is SQLSTATE 22003.\<close>

definition UpdateOutboxRetry :: "runtime \<Rightarrow> pgx_tx \<Rightarrow> string \<Rightarrow> int \<Rightarrow> int \<Rightarrow> unit action" where
  "UpdateOutboxRetry R tx i nextSendAt maxAttempts =
     guard_tx tx
       (wrap_err ''failed to update outbox retry: ''
         (sql_exec (\<lambda>d.
            if \<not> pg_text i then refuse ''22021''
            else if list_ex (\<lambda>r. o_id r = i \<and> 2 ^ 31 \<le> o_attempts r + 1) (outbox_events d)
            then refuse ''22003''
            else Inr (d\<lparr>outbox_events :=
              update_where (\<lambda>r. o_id r = i) (retry_row (store_time R nextSendAt) maxAttempts)
                (outbox_events d)\<rparr>))))"

end
