(* ===== verification/Money.thy ===== *)
theory Money
  imports Go_Strings Ledger_Errors
begin

text \<open>
  \<open>internal/domain/money.go\<close>: amounts in the smallest unit of the currency, as a signed 64-bit
  integer, with a currency code. First the operations as the source writes them, guards
  included, then what they compute: parsing accepts exactly the strings of the format whose value
  fits, printing is its inverse, and the guards of \<open>Add\<close>, \<open>Subtract\<close> and \<open>Negate\<close> catch exactly
  the sums, differences and negations that \<open>int64\<close> cannot hold.
\<close>

record money =
  amount :: int64
  currency :: string

section \<open>The operations\<close>

text \<open>\<open>decimalRegex\<close>: \<open>^[0-9]+\.[0-9]{2}$\<close>.\<close>

definition decimal_regex :: "string \<Rightarrow> bool" where
  "decimal_regex s =
     (let n = length s in
      4 \<le> n \<and> list_all is_digit (take (n - 3) s) \<and> s ! (n - 3) = CHR ''.''
      \<and> list_all is_digit (drop (n - 2) s))"

definition NewMoneyFromString :: "runtime \<Rightarrow> string \<Rightarrow> string \<Rightarrow> money result" where
  "NewMoneyFromString R valStr cur0 =
     (let cur = trim_space (to_upper R cur0) in
      if length cur \<noteq> 3 then Inl (ErrorString (''invalid currency format: '' @ cur))
      else
        let v = trim_space valStr in
        if \<not> decimal_regex v then Inl ErrInvalidMoneyFormat
        else case split_on (CHR ''.'') v of
          integerStr # decimalStr # _ \<Rightarrow>
            (case parse_int64 integerStr of
               None \<Rightarrow> Inl ErrMoneyOverflow
             | Some integers \<Rightarrow>
                 (case parse_int64 decimalStr of
                    None \<Rightarrow> Inl ErrInvalidMoneyFormat
                  | Some decimals \<Rightarrow>
                      let i = (word_of_int integers :: int64); d = (word_of_int decimals :: int64) in
                      if go_div max_int64 100 <s i then Inl ErrMoneyOverflow
                      else
                        let a = i * 100 in
                        if max_int64 - d <s a then Inl ErrMoneyOverflow
                        else Inr \<lparr>amount = a + d, currency = cur\<rparr>))
        | _ \<Rightarrow> Inl (Panic ''index out of range''))"

definition NewZeroMoney :: "runtime \<Rightarrow> string \<Rightarrow> money" where
  "NewZeroMoney R cur = \<lparr>amount = 0, currency = to_upper R (trim_space cur)\<rparr>"

definition NewInternalMoney :: "runtime \<Rightarrow> int64 \<Rightarrow> string \<Rightarrow> money" where
  "NewInternalMoney R a cur = \<lparr>amount = a, currency = to_upper R (trim_space cur)\<rparr>"

definition money_string :: "money \<Rightarrow> string" where
  "money_string m =
     (let absAmount = (if amount m <s 0 then - amount m else amount m);
          sgn = (if amount m <s 0 then ''-'' else '''');
          integers = go_div absAmount 100;
          decimals = go_mod absAmount 100
      in sgn @ show_int (sint integers) @ ''.'' @ show_pad2 (sint decimals))"

definition Add :: "money \<Rightarrow> money \<Rightarrow> money result" where
  "Add m other =
     (if currency m \<noteq> currency other then Inl ErrIncompatibleCurrency
      else if 0 <s amount other \<and> max_int64 - amount other <s amount m then Inl ErrMoneyOverflow
      else if amount other <s 0 \<and> amount m <s min_int64 - amount other then Inl ErrMoneyOverflow
      else Inr \<lparr>amount = amount m + amount other, currency = currency m\<rparr>)"

definition Subtract :: "money \<Rightarrow> money \<Rightarrow> money result" where
  "Subtract m other =
     (if currency m \<noteq> currency other then Inl ErrIncompatibleCurrency
      else if 0 <s amount other \<and> amount m <s min_int64 + amount other then Inl ErrMoneyOverflow
      else if amount other <s 0 \<and> max_int64 + amount other <s amount m then Inl ErrMoneyOverflow
      else Inr \<lparr>amount = amount m - amount other, currency = currency m\<rparr>)"

definition Negate :: "money \<Rightarrow> money result" where
  "Negate m =
     (if amount m = min_int64 then Inl ErrMoneyOverflow
      else Inr \<lparr>amount = - amount m, currency = currency m\<rparr>)"

definition Compare :: "money \<Rightarrow> money \<Rightarrow> int result" where
  "Compare m other =
     (if currency m \<noteq> currency other then Inl ErrIncompatibleCurrency
      else if amount m <s amount other then Inr (- 1)
      else if amount other <s amount m then Inr 1
      else Inr 0)"

definition IsZero :: "money \<Rightarrow> bool" where
  "IsZero m \<longleftrightarrow> amount m = 0"

definition IsNegative :: "money \<Rightarrow> bool" where
  "IsNegative m \<longleftrightarrow> amount m <s 0"

fun IsCurrencySupported :: "runtime \<Rightarrow> money \<Rightarrow> string list \<Rightarrow> bool" where
  "IsCurrencySupported R m [] = False"
| "IsCurrencySupported R m (c # cs) =
     (if to_upper R (trim_space c) = currency m then True else IsCurrencySupported R m cs)"

section \<open>The value of an amount\<close>

definition cents :: "money \<Rightarrow> int" where
  "cents m = sint (amount m)"

lemma cents_range [simp]: "in_int64 (cents m)"
  by (simp add: cents_def)

lemma IsZero_cents: "IsZero m \<longleftrightarrow> cents m = 0"
  using sint_eq_int64_iff [of "amount m" 0] by (simp add: IsZero_def cents_def)

lemma IsNegative_cents: "IsNegative m \<longleftrightarrow> cents m < 0"
  by (simp add: IsNegative_def cents_def word_sless_alt)

text \<open>The reference definition of each operation, on unbounded integers.\<close>

definition checked_money :: "string \<Rightarrow> int \<Rightarrow> money result" where
  "checked_money cur i =
     (if in_int64 i then Inr \<lparr>amount = word_of_int i, currency = cur\<rparr> else Inl ErrMoneyOverflow)"

lemma checked_money_Inr_iff:
  "checked_money cur i = Inr m \<longleftrightarrow> in_int64 i \<and> cents m = i \<and> currency m = cur"
  by (cases m) (auto simp: checked_money_def cents_def sint_of_int64 intro: signed_word_eqI)

lemma Add_checked:
  "currency m = currency other \<Longrightarrow> Add m other = checked_money (currency m) (cents m + cents other)"
  by (rule int64_trichotomy [of "amount other"])
    (simp_all add: Add_def checked_money_def cents_def add_guard_max add_guard_min)

lemma Subtract_checked:
  "currency m = currency other \<Longrightarrow>
   Subtract m other = checked_money (currency m) (cents m - cents other)"
  by (rule int64_trichotomy [of "amount other"])
    (simp_all add: Subtract_def checked_money_def cents_def sub_guard_max sub_guard_min)

lemma Negate_checked: "Negate m = checked_money (currency m) (- cents m)"
proof -
  have "amount m = min_int64 \<longleftrightarrow> cents m = - 9223372036854775808"
    using sint_eq_int64_iff [of "amount m" min_int64] by (simp add: cents_def)
  then show ?thesis
    using int64_range [of "amount m"]
    by (auto simp: Negate_def checked_money_def cents_def in_int64_def sint_minus_int64 sint_of_int64
        intro!: signed_word_eqI)
qed

lemma Compare_cents:
  "currency m = currency other \<Longrightarrow> Compare m other = Inr (sgn (cents m - cents other))"
  by (simp add: Compare_def cents_def word_sless_alt)

lemma Compare_mismatch: "currency m \<noteq> currency other \<Longrightarrow> Compare m other = Inl ErrIncompatibleCurrency"
  by (simp add: Compare_def)

lemma IsCurrencySupported_iff:
  "IsCurrencySupported R m cs \<longleftrightarrow> currency m \<in> (\<lambda>c. to_upper R (trim_space c)) ` set cs"
  by (induction cs) auto

section \<open>Parsing\<close>

text \<open>The amount that a string of the accepted format denotes.\<close>

definition decimal_value :: "string \<Rightarrow> nat" where
  "decimal_value v = digits_val (filter is_digit v)"

lemma decimal_regexE:
  assumes "decimal_regex v"
  obtains ds d1 d2 where "v = ds @ CHR ''.'' # [d1, d2]" "ds \<noteq> []" "list_all is_digit ds"
    "is_digit d1" "is_digit d2"
proof -
  let ?n = "length v" and ?ds = "take (length v - 3) v"
  have n: "4 \<le> ?n" and dot: "v ! (?n - 3) = CHR ''.''" and dd: "list_all is_digit ?ds"
    and tl: "list_all is_digit (drop (?n - 2) v)"
    using assms by (simp_all add: decimal_regex_def Let_def)
  have "length (drop (?n - 2) v) = 2" using n by simp
  then obtain d1 d2 where d: "drop (?n - 2) v = [d1, d2]"
    by (rule length_2E)
  have "drop (?n - 3) v = v ! (?n - 3) # drop (Suc (?n - 3)) v"
    using n by (intro Cons_nth_drop_Suc [symmetric]) simp
  moreover have "Suc (?n - 3) = ?n - 2" using n by simp
  ultimately have "v = ?ds @ CHR ''.'' # [d1, d2]"
    using append_take_drop_id [of "?n - 3" v] dot d by simp
  moreover have "?ds \<noteq> []" using n by auto
  ultimately show ?thesis using that dd tl d by simp
qed

lemma digits_val_two [simp]: "digits_val [c, d] = 10 * digit_val c + digit_val d"
  using digits_val_snoc [of "[c]" d] by simp

lemma digits_val_append2: "digits_val (ds @ [c, d]) = 100 * digits_val ds + digits_val [c, d]"
  using digits_val_snoc [of "ds @ [c]" d] by simp

lemma digit_val_le: "is_digit c \<Longrightarrow> digit_val c \<le> 9"
  by (auto simp: is_digit_def digit_val_def)

lemma not_in_digits: "list_all is_digit ds \<Longrightarrow> \<not> is_digit c \<Longrightarrow> c \<notin> set ds"
  by (auto simp: list_all_iff)

lemma go_div_max_100: "sint (go_div max_int64 100) = 92233720368547758"
  by (simp add: go_div_def signed_divide_int_def)

lemma decimal_parts_checked:
  assumes "0 \<le> integers" "integers < 2 ^ 63" "0 \<le> decimals" "decimals \<le> 99"
  defines "i \<equiv> word_of_int integers :: int64" and "d \<equiv> word_of_int decimals :: int64"
  shows "(if go_div max_int64 100 <s i then Inl ErrMoneyOverflow
          else let a = i * 100 in
            if max_int64 - d <s a then Inl ErrMoneyOverflow
            else Inr \<lparr>amount = a + d, currency = cur\<rparr>)
         = checked_money cur (100 * integers + decimals)"
proof -
  have i: "sint i = integers" and d: "sint d = decimals"
    using assms by (simp_all add: sint_of_int64 in_int64_def)
  have m: "sint (max_int64 - d) = 9223372036854775807 - decimals"
    using assms d by (simp add: sint_diff_int64 in_int64_def)
  have p: "sint (i * 100) = 100 * integers" if "integers \<le> 92233720368547758"
  proof -
    have "sint (word_of_int (100 * integers) :: int64) = 100 * integers"
      using that assms(1) by (intro sint_of_int64) (simp add: in_int64_def)
    moreover have "i * 100 = word_of_int (100 * integers)" by (simp add: i_def)
    ultimately show ?thesis by metis
  qed
  have s: "i * 100 + d = word_of_int (100 * integers + decimals)"
    by (simp add: i_def d_def)
  show ?thesis
    using assms(1-4) i m p s
    by (auto simp: word_sless_alt go_div_max_100 checked_money_def in_int64_def Let_def)
qed

text \<open>What \<open>NewMoneyFromString\<close> computes, in terms of the value the string denotes.\<close>

lemma NewMoneyFromString_spec:
  "NewMoneyFromString R s c =
     (let cur = trim_space (to_upper R c); v = trim_space s in
      if length cur \<noteq> 3 then Inl (ErrorString (''invalid currency format: '' @ cur))
      else if \<not> decimal_regex v then Inl ErrInvalidMoneyFormat
      else checked_money cur (int (decimal_value v)))"
proof (cases "length (trim_space (to_upper R c)) = 3 \<and> decimal_regex (trim_space s)")
  case False
  then show ?thesis by (auto simp: NewMoneyFromString_def Let_def)
next
  case True
  let ?cur = "trim_space (to_upper R c)"
  from True obtain ds d1 d2 where v: "trim_space s = ds @ CHR ''.'' # [d1, d2]"
    and ds: "ds \<noteq> []" "list_all is_digit ds" and d: "is_digit d1" "is_digit d2"
    by (blast elim: decimal_regexE)
  have nd: "CHR ''.'' \<notin> set ds" "CHR ''.'' \<notin> set [d1, d2]"
    using ds(2) d not_in_digits [of ds "CHR ''.''"] not_digit_chars(3) by auto
  have split: "split_on (CHR ''.'') (trim_space s) = [ds, [d1, d2]]"
    using split_on_append [OF nd(1), of "[d1, d2]"] split_on_no_sep [OF nd(2)] by (simp add: v)
  have dec: "digits_val [d1, d2] \<le> 99"
    using digit_val_le [OF d(1)] digit_val_le [OF d(2)] by simp
  have p1: "parse_int64 ds = (if int (digits_val ds) < 2 ^ 63 then Some (int (digits_val ds)) else None)"
    using ds by (intro parse_int64_digits) auto
  have p2: "parse_int64 [d1, d2] = Some (int (digits_val [d1, d2]))"
    using d dec parse_int64_digits [of "[d1, d2]"] by simp
  have "filter is_digit ds = ds" using ds(2) by (auto simp: list_all_iff intro: filter_True)
  then have val: "decimal_value (trim_space s) = 100 * digits_val ds + digits_val [d1, d2]"
    using d digits_val_append2 [of ds d1 d2] by (simp add: v decimal_value_def)
  define I where "I = int (digits_val ds)"
  define D where "D = int (digits_val [d1, d2])"
  have val': "int (decimal_value (trim_space s)) = 100 * I + D"
    by (simp add: val I_def D_def del: digits_val_two)
  have p1': "parse_int64 ds = (if I < 2 ^ 63 then Some I else None)" and p2': "parse_int64 [d1, d2] = Some D"
    using p1 p2 by (simp_all only: I_def D_def)
  show ?thesis
  proof (cases "I < 2 ^ 63")
    case True
    then have "decimal_regex (trim_space s)" "length ?cur = 3" "0 \<le> I" "0 \<le> D" "D \<le> 99"
      using \<open>length ?cur = 3 \<and> _\<close> dec by (simp_all add: I_def D_def del: digits_val_two)
    with True show ?thesis
      using decimal_parts_checked [of I D ?cur]
      by (simp add: NewMoneyFromString_def split p1' p2' val')
  next
    case False
    then show ?thesis
      using \<open>length ?cur = 3 \<and> _\<close>
      by (simp add: NewMoneyFromString_def Let_def split p1' val' checked_money_def in_int64_def
          D_def)
  qed
qed

lemma NewMoneyFromString_Inr:
  assumes "NewMoneyFromString R s c = Inr m"
  shows "0 \<le> cents m" "currency m = trim_space (to_upper R c)" "length (currency m) = 3"
  using assms
  by (auto simp: NewMoneyFromString_spec Let_def checked_money_Inr_iff split: if_splits)

section \<open>Printing\<close>

lemma money_string_nonneg:
  assumes "0 \<le> cents m"
  shows "money_string m = show_int (cents m div 100) @ ''.'' @ show_pad2 (cents m mod 100)"
proof -
  have "sint (go_div (amount m) 100) = cents m div 100" "sint (go_mod (amount m) 100) = cents m mod 100"
    using assms go_div_nonneg [of "amount m" 100] go_mod_nonneg [of "amount m" 100]
    by (simp_all add: cents_def)
  then show ?thesis
    using assms by (simp add: money_string_def Let_def word_sless_alt cents_def)
qed

lemma show_pad2_digits:
  assumes "0 \<le> i" "i < 100"
  shows "show_pad2 i = [digit_char (nat i div 10), digit_char (nat i mod 10)]"
proof (cases "i < 10")
  case True
  with assms have "nat i < 10" by simp
  moreover have "CHR ''0'' = digit_char 0" by (simp flip: byte_val_inject) (simp add: byte_val_def)
  ultimately show ?thesis
    using assms True by (simp add: show_pad2_def show_int_def show_nat.simps [of "nat i"])
next
  case False
  with assms have "\<not> nat i < 10" "nat i div 10 < 10" by auto
  then show ?thesis
    using assms False
    by (simp add: show_pad2_def show_int_def show_nat.simps [of "nat i"] show_nat.simps [of "nat i div 10"])
qed

lemma two_digits: "(n :: nat) mod 100 div 10 < 10" "n mod 100 mod 10 < 10"
  using less_mult_imp_div_less [of "n mod 100" 10 10] by simp_all
lemma show_two_digits:
  "digits_val (show_nat (n div 100) @ [digit_char (n mod 100 div 10), digit_char (n mod 100 mod 10)]) = n"
proof -
  have "digits_val [digit_char (n mod 100 div 10), digit_char (n mod 100 mod 10)] = n mod 100"
    using two_digits [of n] by (simp only: digits_val_two digit_val_digit_char mult_div_mod_eq)
  then show ?thesis by (simp add: digits_val_append2 del: digits_val_snoc digits_val_two)
qed
lemma is_digit_graphic: "is_digit c \<Longrightarrow> 32 < byte_val c \<and> byte_val c < 128"
  by (simp add: is_digit_def)

text \<open>The printed form of an amount that is not negative: digits, a dot, two digits.\<close>

lemma money_string_form:
  assumes "0 \<le> cents m"
  obtains ds d1 d2 where "money_string m = ds @ CHR ''.'' # [d1, d2]" "ds \<noteq> []" "list_all is_digit ds"
    "is_digit d1" "is_digit d2" "int (digits_val (ds @ [d1, d2])) = cents m"
proof -
  obtain i where i: "cents m = int i" using assms by (rule nonneg_int_cases)
  let ?ds = "show_nat (i div 100)" and ?d1 = "digit_char (i mod 100 div 10)"
    and ?d2 = "digit_char (i mod 100 mod 10)"
  have "money_string m = show_int (int (i div 100)) @ ''.'' @ show_pad2 (int (i mod 100))"
    by (simp add: money_string_nonneg i zdiv_int zmod_int)
  also have "show_pad2 (int (i mod 100)) = [?d1, ?d2]"
    using show_pad2_digits [of "int (i mod 100)"] by (simp only: nat_int)
  finally have "money_string m = ?ds @ CHR ''.'' # [?d1, ?d2]" by (simp add: show_int_def)
  moreover have "int (digits_val (?ds @ [?d1, ?d2])) = cents m" by (simp only: show_two_digits i)
  ultimately show ?thesis
    using that [of ?ds ?d1 ?d2] show_nat_digits two_digits [of i]
    by (simp only: is_digit_digit_char show_nat_nonempty not_False_eq_True simp_thms)
qed

lemma decimal_regexI:
  assumes "ds \<noteq> []" "list_all is_digit ds" "is_digit d1" "is_digit d2"
  shows "decimal_regex (ds @ CHR ''.'' # [d1, d2])"
  using assms by (cases ds) (simp_all add: decimal_regex_def Let_def nth_append)

text \<open>Parsing the printed form gives the amount back.\<close>

lemma parse_money_string:
  assumes "0 \<le> cents m" "length (currency m) = 3" "trim_space (to_upper R (currency m)) = currency m"
  shows "NewMoneyFromString R (money_string m) (currency m) = Inr m"
proof -
  obtain ds d1 d2 where v: "money_string m = ds @ CHR ''.'' # [d1, d2]" and ds: "ds \<noteq> []" "list_all is_digit ds"
    and d: "is_digit d1" "is_digit d2" and val: "int (digits_val (ds @ [d1, d2])) = cents m"
    using assms(1) by (rule money_string_form)
  have "is_graphic (money_string m)"
    using ds(2) d is_digit_graphic by (auto simp: v is_graphic_def list_all_iff byte_val_def)
  then have t: "trim_space (money_string m) = money_string m" by simp
  have "filter is_digit ds = ds" using ds(2) by (auto simp: list_all_iff intro: filter_True)
  then have dv: "decimal_value (money_string m) = digits_val (ds @ [d1, d2])"
    using d by (simp add: v decimal_value_def)
  have "checked_money (currency m) (cents m) = Inr m" by (simp add: checked_money_Inr_iff)
  then show ?thesis
    using assms decimal_regexI [OF ds d] t v val dv
    by (simp add: NewMoneyFromString_spec Let_def del: digits_val_snoc)
qed

lemma money_string_inj:
  assumes "money_string m = money_string m'" "0 \<le> cents m" "0 \<le> cents m'"
  shows "amount m = amount m'"
proof -
  have key: "int (digits_val (filter is_digit (money_string x))) = cents x" if nn: "0 \<le> cents x" for x
  proof -
    obtain ds d1 d2 where "money_string x = ds @ CHR ''.'' # [d1, d2]" "ds \<noteq> []" "list_all is_digit ds"
      "is_digit d1" "is_digit d2" "int (digits_val (ds @ [d1, d2])) = cents x"
      using nn by (rule money_string_form)
    moreover from this(3) have "filter is_digit ds = ds" by (auto simp: list_all_iff intro: filter_True)
    ultimately show ?thesis by simp
  qed
  from key [of m] key [of m'] assms have "cents m = cents m'" by simp
  then show ?thesis by (simp add: cents_def sint_eq_int64_iff)
qed

end
