(* ===== verification/Config.thy ===== *)
theory Config
  imports Money
begin

text \<open>
  \<open>internal/config/config.go\<close>: the configuration read from the process environment, which is the
  argument \<open>lookupEnv\<close> (\<open>os.LookupEnv\<close>: the value of a variable, if it is set).
\<close>

record config =
  SupportedCurrencies :: "string list"
  DBConnectionString :: string
  AWSRegion :: string
  SQSEndpoint :: string
  WagerQueueURL :: string
  EventsQueueURL :: string
  IDPIssuerURL :: string
  IDPJWKSURL :: string
  OutboxMaxAttempts :: int
  PendingRefMaxRetry :: int

definition getEnv :: "(string \<Rightarrow> string option) \<Rightarrow> string \<Rightarrow> string \<Rightarrow> string" where
  "getEnv lookupEnv key fallback = (case lookupEnv key of Some value \<Rightarrow> value | None \<Rightarrow> fallback)"

definition getEnvInt :: "(string \<Rightarrow> string option) \<Rightarrow> string \<Rightarrow> int \<Rightarrow> int" where
  "getEnvInt lookupEnv key fallback =
     (let raw = getEnv lookupEnv key '''' in
      if raw = '''' then fallback
      else case parse_int64 raw of None \<Rightarrow> fallback | Some v \<Rightarrow> v)"

definition NewConfig :: "runtime \<Rightarrow> (string \<Rightarrow> string option) \<Rightarrow> config" where
  "NewConfig R lookupEnv =
     (let env = getEnv lookupEnv;
          currenciesStr = env ''SUPPORTED_CURRENCIES'' ''BRL'';
          currencies = map (\<lambda>c. trim_space (to_upper R c)) (split_on (CHR '','') currenciesStr);
          dbHost = env ''DB_HOST'' ''localhost'';
          dbPort = env ''DB_PORT'' ''5432'';
          dbUser = env ''DB_USER'' ''jungle_user'';
          dbPassword = env ''DB_PASSWORD'' ''jungle_password'';
          dbName = env ''DB_NAME'' ''jungle_wagering_ledger'';
          dbSSLMode = env ''DB_SSLMODE'' ''disable'';
          dbURL = ''postgres://'' @ dbUser @ '':'' @ dbPassword @ ''@'' @ dbHost @ '':'' @ dbPort
                  @ ''/'' @ dbName @ ''?sslmode='' @ dbSSLMode
      in \<lparr>SupportedCurrencies = currencies,
          DBConnectionString = dbURL,
          AWSRegion = env ''AWS_REGION'' ''us-east-1'',
          SQSEndpoint = env ''SQS_ENDPOINT'' ''http://localhost:4566'',
          WagerQueueURL = env ''WAGER_QUEUE_URL'' ''http://localhost:4566/000000000000/wager-transactions.fifo'',
          EventsQueueURL = env ''EVENTS_QUEUE_URL'' ''http://localhost:4566/000000000000/wager-events'',
          IDPIssuerURL = env ''IDP_ISSUER_URL'' ''http://localhost:8080/realms/jungle'',
          IDPJWKSURL = env ''IDP_JWKS_URL'' ''http://localhost:8080/realms/jungle/protocol/openid-connect/certs'',
          OutboxMaxAttempts = getEnvInt lookupEnv ''OUTBOX_MAX_ATTEMPTS'' 10,
          PendingRefMaxRetry = getEnvInt lookupEnv ''PENDING_REF_MAX_RETRY'' 20\<rparr>)"

fun config_loop :: "runtime \<Rightarrow> string \<Rightarrow> string list \<Rightarrow> bool" where
  "config_loop R cur [] = False"
| "config_loop R cur (supported # rest) =
     (if to_upper R (trim_space cur) = supported then True else config_loop R cur rest)"

definition Config_IsCurrencySupported :: "runtime \<Rightarrow> config \<Rightarrow> string \<Rightarrow> bool" where
  "Config_IsCurrencySupported R c cur = config_loop R cur (SupportedCurrencies c)"

lemma config_loop_iff: "config_loop R cur cs \<longleftrightarrow> to_upper R (trim_space cur) \<in> set cs"
  by (induction cs) auto

lemma getEnvInt_default: "lookupEnv key = None \<Longrightarrow> getEnvInt lookupEnv key fallback = fallback"
  by (simp add: getEnvInt_def getEnv_def)

end
