(* ===== verification/Wallet.thy ===== *)
theory Wallet
  imports Money
begin

text \<open>
  \<open>internal/domain/wallet.go\<close>: the wallet aggregate, its constructors and the two operations that
  move money. A method that mutates its receiver returns the new wallet; a method that returns an
  error leaves the receiver as it was. The instant read with \<open>time.Now().UTC()\<close> is an argument.

  The lemmas give the exact effect of \<open>Debit\<close> and \<open>Credit\<close> on the balance, as integers, and that
  a wallet whose balance is not negative keeps that property.
\<close>

record wallet =
  wid :: string
  playerID :: string
  balance :: money
  version :: int64
  wcreatedAt :: int
  wupdatedAt :: int

section \<open>The operations\<close>

definition NewWallet :: "int \<Rightarrow> string \<Rightarrow> string \<Rightarrow> money \<Rightarrow> wallet result" where
  "NewWallet now i p initialBalance =
     (if i = '''' \<or> p = '''' then Inl ErrIdAndPlayerIDRequired
      else if IsNegative initialBalance then Inl ErrNegativeAmountInput
      else Inr \<lparr>wid = i, playerID = p, balance = initialBalance, version = 1,
               wcreatedAt = now, wupdatedAt = now\<rparr>)"

definition RehydrateWallet ::
  "string \<Rightarrow> string \<Rightarrow> money \<Rightarrow> int64 \<Rightarrow> int \<Rightarrow> int \<Rightarrow> wallet result" where
  "RehydrateWallet i p bal ver created updated =
     (if i = '''' \<or> p = '''' then Inl ErrIdAndPlayerIDRequired
      else if IsNegative bal then Inl ErrNegativeAmountInput
      else Inr \<lparr>wid = i, playerID = p, balance = bal, version = ver,
               wcreatedAt = created, wupdatedAt = updated\<rparr>)"

definition Debit :: "int \<Rightarrow> money \<Rightarrow> wallet \<Rightarrow> wallet result" where
  "Debit now amt w =
     (if IsNegative amt \<or> IsZero amt then Inl ErrNegativeOrZeroAmountInput
      else if currency (balance w) \<noteq> currency amt then Inl ErrWalletCurrencyMismatch
      else case Compare (balance w) amt of
        Inl e \<Rightarrow> Inl e
      | Inr comparison \<Rightarrow>
          if comparison < 0 then Inl ErrInsufficientBalance
          else case Subtract (balance w) amt of
            Inl e \<Rightarrow> Inl e
          | Inr newBalance \<Rightarrow>
              Inr (w\<lparr>balance := newBalance, version := version w + 1, wupdatedAt := now\<rparr>))"

definition Credit :: "int \<Rightarrow> money \<Rightarrow> wallet \<Rightarrow> wallet result" where
  "Credit now amt w =
     (if IsNegative amt \<or> IsZero amt then Inl ErrNegativeOrZeroAmountInput
      else if currency (balance w) \<noteq> currency amt then Inl ErrWalletCurrencyMismatch
      else case Add (balance w) amt of
        Inl e \<Rightarrow> Inl e
      | Inr newBalance \<Rightarrow>
          Inr (w\<lparr>balance := newBalance, version := version w + 1, wupdatedAt := now\<rparr>))"

section \<open>What they compute\<close>

definition funds :: "wallet \<Rightarrow> int" where
  "funds w = cents (balance w)"

definition wallet_ok :: "wallet \<Rightarrow> bool" where
  "wallet_ok w \<longleftrightarrow> wid w \<noteq> '''' \<and> playerID w \<noteq> '''' \<and> 0 \<le> funds w"

text \<open>The wallet after a movement that brings its balance to \<open>i\<close>.\<close>

definition moved :: "int \<Rightarrow> int \<Rightarrow> wallet \<Rightarrow> wallet" where
  "moved now i w =
     w\<lparr>balance := \<lparr>amount = word_of_int i, currency = currency (balance w)\<rparr>,
       version := version w + 1, wupdatedAt := now\<rparr>"

lemma Debit_cases:
  "Debit now amt w =
     (if cents amt \<le> 0 then Inl ErrNegativeOrZeroAmountInput
      else if currency (balance w) \<noteq> currency amt then Inl ErrWalletCurrencyMismatch
      else if funds w < cents amt then Inl ErrInsufficientBalance
      else Inr (moved now (funds w - cents amt) w))"
proof -
  have "in_int64 (funds w - cents amt)" if "0 < cents amt" "cents amt \<le> funds w"
    using that cents_range [of "balance w"] unfolding in_int64_def funds_def by linarith
  then show ?thesis
    by (auto simp: Debit_def IsNegative_cents IsZero_cents Compare_cents Subtract_checked checked_money_def
        moved_def funds_def)
qed

lemma Credit_cases:
  "Credit now amt w =
     (if cents amt \<le> 0 then Inl ErrNegativeOrZeroAmountInput
      else if currency (balance w) \<noteq> currency amt then Inl ErrWalletCurrencyMismatch
      else if \<not> in_int64 (funds w + cents amt) then Inl ErrMoneyOverflow
      else Inr (moved now (funds w + cents amt) w))"
  by (auto simp: Credit_def IsNegative_cents IsZero_cents Add_checked checked_money_def moved_def funds_def)

lemma moved_simps [simp]:
  "wid (moved now i w) = wid w" "playerID (moved now i w) = playerID w"
  "currency (balance (moved now i w)) = currency (balance w)"
  "version (moved now i w) = version w + 1"
  "amount (balance (moved now i w)) = word_of_int i"
  by (simp_all add: moved_def)

lemma funds_moved: "in_int64 i \<Longrightarrow> funds (moved now i w) = i"
  by (simp add: funds_def cents_def sint_of_int64)

text \<open>The success of a movement, with everything it tells; and the shape of a wallet read back.\<close>

lemma Debit_Inr [inr_dest]:
  "Debit now amt w = Inr w' \<longleftrightarrow>
     0 < cents amt \<and> currency (balance w) = currency amt \<and> cents amt \<le> funds w
     \<and> w' = moved now (funds w - cents amt) w"
  by (auto simp: Debit_cases)

lemma Credit_Inr [inr_dest]:
  "Credit now amt w = Inr w' \<longleftrightarrow>
     0 < cents amt \<and> currency (balance w) = currency amt \<and> in_int64 (funds w + cents amt)
     \<and> w' = moved now (funds w + cents amt) w"
  by (auto simp: Credit_cases)

lemma Debit_funds:
  assumes "Debit now amt w = Inr w'"
  shows "funds w' = funds w - cents amt" "0 \<le> funds w'"
proof -
  have h: "0 < cents amt" "cents amt \<le> funds w" "w' = moved now (funds w - cents amt) w"
    using assms by (simp_all add: Debit_Inr)
  moreover have "in_int64 (funds w - cents amt)"
    using h cents_range [of "balance w"] unfolding in_int64_def funds_def by linarith
  ultimately show "funds w' = funds w - cents amt" "0 \<le> funds w'" by (simp_all add: funds_moved)
qed

lemma Credit_funds:
  "Credit now amt w = Inr w' \<Longrightarrow> funds w' = funds w + cents amt"
  by (auto simp: Credit_Inr funds_moved)

lemma NewWallet_Inr [inr_dest]:
  "NewWallet now i p m = Inr w \<longleftrightarrow>
     i \<noteq> '''' \<and> p \<noteq> '''' \<and> 0 \<le> cents m \<and>
     w = \<lparr>wid = i, playerID = p, balance = m, version = 1, wcreatedAt = now, wupdatedAt = now\<rparr>"
  by (auto simp: NewWallet_def IsNegative_cents)

lemma RehydrateWallet_Inr [inr_dest]:
  "RehydrateWallet i p m v c u = Inr w \<longleftrightarrow>
     i \<noteq> '''' \<and> p \<noteq> '''' \<and> 0 \<le> cents m \<and>
     w = \<lparr>wid = i, playerID = p, balance = m, version = v, wcreatedAt = c, wupdatedAt = u\<rparr>"
  by (auto simp: RehydrateWallet_def IsNegative_cents)

end
