(* ===== verification/Wallet_Repository.thy ===== *)
theory Wallet_Repository
  imports Wallet Store_Laws
begin

text \<open>
  \<open>internal/infrastructure/repository/wallet_repository.go\<close>: the statements on the table of wallets,
  and the sums over the ledger. The row of a wallet and the wallet of a row are inverse to each
  other up to the normalisation of the currency code and the precision of stored instants.
\<close>

section \<open>The operations\<close>

definition wallet_row_of :: "runtime \<Rightarrow> wallet \<Rightarrow> wallet_row" where
  "wallet_row_of R w =
     \<lparr>w_id = wid w, w_player_id = playerID w, w_currency = currency (balance w),
      w_amount = amount (balance w), w_version = version w,
      w_created_at = store_time R (wcreatedAt w), w_updated_at = store_time R (wupdatedAt w)\<rparr>"

definition Wallet_Save :: "runtime \<Rightarrow> pgx_tx \<Rightarrow> wallet \<Rightarrow> unit action" where
  "Wallet_Save R tx w =
     guard_tx tx (wrap_err ''failed to save wallet: '' (sql_exec (insert_wallet (wallet_row_of R w))))"

text \<open>\<open>UPDATE wallets SET amount, version, updated_at WHERE id = $4 AND version = $5\<close>: the rows affected.\<close>

definition update_wallet ::
  "int64 \<Rightarrow> int64 \<Rightarrow> int \<Rightarrow> string \<Rightarrow> int64 \<Rightarrow> database \<Rightarrow> goerror + (nat \<times> database)" where
  "update_wallet amt ver updated i expected d =
     (let P = (\<lambda>r. w_id r = i \<and> w_version r = expected);
          f = (\<lambda>r. r\<lparr>w_amount := amt, w_version := ver, w_updated_at := updated\<rparr>);
          n = length (filter P (wallets d))
      in if \<not> pg_text i then refuse ''22021''
         else if 0 < n \<and> \<not> (0 \<le> sint amt \<and> 0 < sint ver) then refuse ''23514''
         else Inr (n, d\<lparr>wallets := update_where P f (wallets d)\<rparr>))"

lemma update_wallet_rows:
  "update_wallet amt ver upd i v d = Inr (n, d') \<Longrightarrow>
     d' = d\<lparr>wallets := update_where (\<lambda>r. w_id r = i \<and> w_version r = v)
            (\<lambda>r. r\<lparr>w_amount := amt, w_version := ver, w_updated_at := upd\<rparr>) (wallets d)\<rparr>"
  by (auto simp: update_wallet_def Let_def refuse_def split: if_splits)

definition Wallet_Update :: "runtime \<Rightarrow> pgx_tx \<Rightarrow> wallet \<Rightarrow> int64 \<Rightarrow> unit action" where
  "Wallet_Update R tx w expectedVersion =
     guard_tx tx
       (act_bind
         (wrap_err ''failed to update wallet: ''
           (exec_stmt (update_wallet (amount (balance w)) (version w) (store_time R (wupdatedAt w))
              (wid w) expectedVersion)))
         (\<lambda>rowsAffected. if rowsAffected = 0 then act_fail RepoErrWalletNotFound else act_return ()))"

definition wallet_by_id :: "string \<Rightarrow> database \<Rightarrow> wallet_row option" where
  "wallet_by_id i d = find (\<lambda>r. w_id r = i) (wallets d)"

definition wallet_of_row :: "runtime \<Rightarrow> wallet_row \<Rightarrow> wallet result" where
  "wallet_of_row R r =
     RehydrateWallet (w_id r) (w_player_id r) (NewInternalMoney R (w_amount r) (w_currency r))
       (w_version r) (w_created_at r) (w_updated_at r)"

definition FindByIDWithLock :: "runtime \<Rightarrow> pgx_tx \<Rightarrow> string \<Rightarrow> wallet action" where
  "FindByIDWithLock R tx i =
     guard_tx tx
       (act_bind
         (wrap_err ''failed to find wallet by id: '' (sql_query [i] (wallet_by_id i)))
         (\<lambda>row. case row of None \<Rightarrow> act_fail ErrWalletNotFound | Some r \<Rightarrow> act_pure (wallet_of_row R r)))"

definition FindByID :: "runtime \<Rightarrow> pgx_pool \<Rightarrow> txenv \<Rightarrow> nat \<Rightarrow> string \<Rightarrow> database \<Rightarrow> wallet result" where
  "FindByID R pool X n i d =
     (if pool = None then Inl ErrNilDatabasePool
      else case pool_query X n [i] (wallet_by_id i) d of
        Inl e \<Rightarrow> Inl (Wrapped ''failed to find wallet by id: '' e)
      | Inr None \<Rightarrow> Inl ErrWalletNotFound
      | Inr (Some r) \<Rightarrow> wallet_of_row R r)"

text \<open>
  The query of \<open>CalculateLedgerBalance\<close>: PostgreSQL sums \<open>bigint\<close> into \<open>numeric\<close>, without a bound; reading a
  sum into an \<open>int64\<close> fails when it does not fit.
\<close>

definition entries_of :: "string \<Rightarrow> database \<Rightarrow> ledger_row list" where
  "entries_of i d = filter (\<lambda>l. l_wallet_id l = i) (wallet_ledger_entries d)"

definition total :: "string \<Rightarrow> ledger_row list \<Rightarrow> int" where
  "total dir ls = sum_list (map (\<lambda>l. if l_direction l = dir then sint (l_amount l) else 0) ls)"

definition CalculateLedgerBalance ::
  "pgx_pool \<Rightarrow> txenv \<Rightarrow> nat \<Rightarrow> string \<Rightarrow> database \<Rightarrow> (int64 \<times> int64) result" where
  "CalculateLedgerBalance pool X n i d =
     (if pool = None then Inl ErrNilDatabasePool
      else case pool_query X n [i]
          (\<lambda>d. let ls = entries_of i d in (total ''CREDIT'' ls, total ''DEBIT'' ls, length ls)) d of
        Inl e \<Rightarrow> Inl (Wrapped ''failed to calculate ledger balance: '' e)
      | Inr (credits, debits, count) \<Rightarrow>
          if \<not> in_int64 credits \<or> \<not> in_int64 debits
          then Inl (Wrapped ''failed to calculate ledger balance: '' ErrNumberOutOfRange)
          else Inr (word_of_int credits - word_of_int debits, of_nat count))"

end
