(* ===== verification/Go_Json.thy ===== *)
theory Go_Json
  imports Go_Strings
begin

text \<open>
  What the program uses of \<open>encoding/json.Marshal\<close>: maps with string keys and structs, whose values are strings,
  integers, booleans or again maps and structs, and a pointer to a struct that has no exported field. Marshal writes the entries of a map sorted by
  key; it escapes in a string the quote, the backslash, the control characters and, by default,
  the characters \<open><\<close>, \<open>>\<close> and \<open>&\<close>; it writes U+2028 and U+2029 escaped and replaces a byte that starts no well-formed
  UTF-8 sequence by U+FFFD, escaped.
\<close>

datatype json_value = JString string | JInt int | JBool bool | JObject "(string \<times> json_value) list"

definition hex_digit :: "nat \<Rightarrow> char" where
  "hex_digit d = (if d < 10 then byte_of (48 + d) else byte_of (87 + d))"

definition esc_u00 :: "char \<Rightarrow> string" where
  "esc_u00 c = (CHR 0x5C # ''u00'') @ [hex_digit (byte_val c div 16), hex_digit (byte_val c mod 16)]"

definition json_ascii :: "char \<Rightarrow> string" where
  "json_ascii c =
     (let n = byte_val c in
      if n = 34 \<or> n = 92 then [CHR 0x5C, c]
      else if n = 8 then (CHR 0x5C # ''b'') else if n = 12 then (CHR 0x5C # ''f'') else if n = 10 then (CHR 0x5C # ''n'')
      else if n = 13 then (CHR 0x5C # ''r'') else if n = 9 then (CHR 0x5C # ''t'')
      else if n < 32 \<or> n = 60 \<or> n = 62 \<or> n = 38 then esc_u00 c
      else [c])"

function json_chars :: "string \<Rightarrow> string" where
  "json_chars s =
     (if s = [] then []
      else if byte_val (hd s) < 128 then json_ascii (hd s) @ json_chars (tl s)
      else if rune_len s = 0 then (CHR 0x5C # ''ufffd'') @ json_chars (tl s)
      else if prefix (map byte_of [0xE2, 0x80, 0xA8]) s then (CHR 0x5C # ''u2028'') @ json_chars (drop 3 s)
      else if prefix (map byte_of [0xE2, 0x80, 0xA9]) s then (CHR 0x5C # ''u2029'') @ json_chars (drop 3 s)
      else take (rune_len s) s @ json_chars (drop (rune_len s) s))"
  by pat_completeness auto
termination
  by (relation "measure length") auto

declare json_chars.simps [simp del]

definition json_string :: "string \<Rightarrow> string" where
  "json_string s = CHR 0x22 # json_chars s @ [CHR 0x22]"

text \<open>An object is written with its members in the order given: the order of the fields of a struct.\<close>

fun show_json :: "json_value \<Rightarrow> string" and json_members :: "(string \<times> json_value) list \<Rightarrow> string" where
  "show_json (JString s) = json_string s"
| "show_json (JInt i) = show_int i"
| "show_json (JBool b) = (if b then ''true'' else ''false'')"
| "show_json (JObject kvs) = CHR ''{'' # json_members kvs @ ''}''"
| "json_members [] = []"
| "json_members [(k, v)] = json_string k @ CHR '':'' # show_json v"
| "json_members ((k, v) # kv # kvs) =
     json_string k @ CHR '':'' # show_json v @ CHR '','' # json_members (kv # kvs)"

text \<open>\<open>json.Marshal\<close> of a map given by its entries, whose keys are distinct.\<close>

definition json_map :: "(string \<times> json_value) list \<Rightarrow> json_value" where
  "json_map kvs = JObject (sort_key fst kvs)"

definition marshal_map :: "(string \<times> json_value) list \<Rightarrow> string" where
  "marshal_map kvs = show_json (json_map kvs)"

text \<open>\<open>json.Marshal\<close> of a pointer to a struct without exported fields and without a \<open>MarshalJSON\<close> method.\<close>

definition marshal_opaque_struct :: "'a \<Rightarrow> string" where
  "marshal_opaque_struct x = ''{}''"

end
