(* ===== verification/Sha256.thy ===== *)
theory Sha256
  imports Go_Strings
begin

text \<open>
  \<open>crypto/sha256\<close> of the Go standard library and \<open>hex.EncodeToString\<close>: \<open>sha256.Sum256\<close> of a byte string,
  printed as 64 lower-case hexadecimal digits, as FIPS 180-4 defines it, on 32-bit words that wrap around.
\<close>

unbundle bit_operations_syntax

type_synonym byte = "8 word"
type_synonym word32 = "32 word"
type_synonym sha_state = "word32 \<times> word32 \<times> word32 \<times> word32 \<times> word32 \<times> word32 \<times> word32 \<times> word32"

definition sha_rotr :: "nat \<Rightarrow> word32 \<Rightarrow> word32" where
  "sha_rotr n x = drop_bit n x OR push_bit (32 - n) x"

text \<open>The constants of FIPS 180-4, in decimal.\<close>

definition sha_init :: sha_state where
  "sha_init = (1779033703, 3144134277, 1013904242, 2773480762, 1359893119, 2600822924, 528734635, 1541459225)"

definition sha_constants :: "word32 list" where
  "sha_constants =
     [1116352408, 1899447441, 3049323471, 3921009573, 961987163, 1508970993, 2453635748, 2870763221,
      3624381080, 310598401, 607225278, 1426881987, 1925078388, 2162078206, 2614888103, 3248222580,
      3835390401, 4022224774, 264347078, 604807628, 770255983, 1249150122, 1555081692, 1996064986,
      2554220882, 2821834349, 2952996808, 3210313671, 3336571891, 3584528711, 113926993, 338241895,
      666307205, 773529912, 1294757372, 1396182291, 1695183700, 1986661051, 2177026350, 2456956037,
      2730485921, 2820302411, 3259730800, 3345764771, 3516065817, 3600352804, 4094571909, 275423344,
      430227734, 506948616, 659060556, 883997877, 958139571, 1322822218, 1537002063, 1747873779,
      1955562222, 2024104815, 2227730452, 2361852424, 2428436474, 2756734187, 3204031479, 3329325298]"

text \<open>The message schedule, latest word first.\<close>

fun sha_schedule :: "nat \<Rightarrow> word32 list \<Rightarrow> word32 list" where
  "sha_schedule 0 ws = ws"
| "sha_schedule (Suc n) ws =
     (let x = ws ! 1; y = ws ! 14;
          s1 = sha_rotr 17 x XOR sha_rotr 19 x XOR drop_bit 10 x;
          s0 = sha_rotr 7 y XOR sha_rotr 18 y XOR drop_bit 3 y
      in sha_schedule n ((s1 + ws ! 6 + s0 + ws ! 15) # ws))"

fun sha_rounds :: "(word32 \<times> word32) list \<Rightarrow> sha_state \<Rightarrow> sha_state" where
  "sha_rounds [] st = st"
| "sha_rounds ((k, w) # kws) (a, b, c, d, e, f, g, h) =
     (let s1 = sha_rotr 6 e XOR sha_rotr 11 e XOR sha_rotr 25 e;
          ch = (e AND f) XOR (NOT e AND g);
          t1 = h + s1 + ch + k + w;
          s0 = sha_rotr 2 a XOR sha_rotr 13 a XOR sha_rotr 22 a;
          maj = (a AND b) XOR (a AND c) XOR (b AND c)
      in sha_rounds kws (t1 + (s0 + maj), a, b, c, d + t1, e, f, g))"

definition sha_block :: "word32 list \<Rightarrow> sha_state \<Rightarrow> sha_state" where
  "sha_block ws st =
     (let (a, b, c, d, e, f, g, h) = st;
          (a', b', c', d', e', f', g', h') = sha_rounds (zip sha_constants (rev (sha_schedule 48 (rev ws)))) st
      in (a + a', b + b', c + c', d + d', e + e', f + f', g + g', h + h'))"

text \<open>Big-endian words of four bytes, taken sixteen at a time.\<close>

fun be_words :: "byte list \<Rightarrow> word32 list" where
  "be_words (a # b # c # d # bs) =
     (push_bit 24 (ucast a) OR push_bit 16 (ucast b) OR push_bit 8 (ucast c) OR ucast d) # be_words bs"
| "be_words bs = []"

function sha_blocks :: "word32 list \<Rightarrow> sha_state \<Rightarrow> sha_state" where
  "sha_blocks ws st = (if ws = [] then st else sha_blocks (drop 16 ws) (sha_block (take 16 ws) st))"
  by auto
termination by (relation "measure (\<lambda>(ws, st). length ws)") auto

declare sha_blocks.simps [simp del]

definition be_bytes4 :: "word32 \<Rightarrow> byte list" where
  "be_bytes4 w = [ucast (drop_bit 24 w), ucast (drop_bit 16 w), ucast (drop_bit 8 w), ucast w]"

definition be_bytes8 :: "64 word \<Rightarrow> byte list" where
  "be_bytes8 w = be_bytes4 (ucast (drop_bit 32 w)) @ be_bytes4 (ucast w)"

text \<open>A one bit, zeros up to the last eight bytes of a block, and the length of the message in bits.\<close>

definition sha_pad :: "byte list \<Rightarrow> byte list" where
  "sha_pad bs =
     bs @ [128] @ replicate ((119 - length bs mod 64) mod 64) 0 @ be_bytes8 (push_bit 3 (word_of_nat (length bs)))"

definition sha_words :: "sha_state \<Rightarrow> word32 list" where
  "sha_words st = (case st of (a, b, c, d, e, f, g, h) \<Rightarrow> [a, b, c, d, e, f, g, h])"

definition sum256 :: "byte list \<Rightarrow> byte list" where
  "sum256 bs = concat (map be_bytes4 (sha_words (sha_blocks (be_words (sha_pad bs)) sha_init)))"

definition hextable_digit :: "byte \<Rightarrow> char" where
  "hextable_digit n = ''0123456789abcdef'' ! unat n"

definition hex_encode :: "byte list \<Rightarrow> string" where
  "hex_encode bs = concat (map (\<lambda>b. [hextable_digit (drop_bit 4 b), hextable_digit (b AND 15)]) bs)"

definition sha256_hex :: "string \<Rightarrow> string" where
  "sha256_hex s = hex_encode (sum256 (map of_char s))"

section \<open>The form of a digest\<close>

lemma length_sum256 [simp]: "length (sum256 bs) = 32"
  by (simp add: sum256_def sha_words_def be_bytes4_def length_concat split: prod.split)

lemma length_hex_encode [simp]: "length (hex_encode bs) = 2 * length bs"
  by (induction bs) (simp_all add: hex_encode_def)

lemma length_sha256_hex [simp]: "length (sha256_hex s) = 64"
  by (simp add: sha256_hex_def)

lemma hextable_digit_mem: "unat n < 16 \<Longrightarrow> hextable_digit n \<in> set ''0123456789abcdef''"
  unfolding hextable_digit_def by (rule nth_mem) simp

lemma nibbles: "unat (drop_bit 4 (b :: byte)) < 16" "unat (and (b :: byte) 15) < 16"
proof -
  have "unat b < 256" using unsigned_less [of b] by simp
  then show "unat (drop_bit 4 b) < 16" unfolding unat_drop_bit_eq by (simp add: drop_bit_eq_div less_mult_imp_div_less)
  have "(and b 15 :: byte) \<le> 15" by (rule word_and_le1)
  then show "unat (and b 15) < 16" by (simp add: word_le_nat_alt)
qed

lemma sha256_hex_digits: "set (sha256_hex s) \<subseteq> set ''0123456789abcdef''"
proof
  fix c assume "c \<in> set (sha256_hex s)"
  then obtain b :: byte where "c = hextable_digit (drop_bit 4 b) \<or> c = hextable_digit (and b 15)"
    by (auto simp: sha256_hex_def hex_encode_def)
  then show "c \<in> set ''0123456789abcdef''" using hextable_digit_mem nibbles [of b] by metis
qed

lemma sha256_hex_graphic: "is_graphic (sha256_hex s)"
proof -
  have "\<forall>c \<in> set ''0123456789abcdef''. 32 < byte_val c \<and> byte_val c < 128" by (simp add: byte_val_def)
  then show ?thesis using sha256_hex_digits [of s] unfolding is_graphic_def list_all_iff by blast
qed

end
