(* ===== verification/Transaction_Repository.thy ===== *)
theory Transaction_Repository
  imports Wager_Transaction Store_Laws
begin

text \<open>
  \<open>internal/infrastructure/repository/transaction_repository.go\<close>: the statements on the table of
  transactions and the insertion into the ledger.
\<close>

record ledger_entry =
  ID :: string
  WalletID :: string
  TransactionID :: string
  Direction :: string
  Amount :: int64
  BalanceBefore :: int64
  BalanceAfter :: int64

section \<open>Rows and transactions\<close>

text \<open>The source stores the empty string of an optional column as NULL, and reads NULL as the empty string.\<close>

definition null_if_empty :: "string \<Rightarrow> string option" where
  "null_if_empty s = (if s = '''' then None else Some s)"

definition empty_if_null :: "string option \<Rightarrow> string" where
  "empty_if_null so = (case so of None \<Rightarrow> '''' | Some s \<Rightarrow> s)"

definition tx_row_of :: "runtime \<Rightarrow> wager \<Rightarrow> int option \<Rightarrow> tx_row" where
  "tx_row_of R t nextRetryAt =
     \<lparr>t_id = txid t, t_provider_id = providerID t, t_external_transaction_id = externalTransactionID t,
      t_idempotency_key = idempotencyKey t, t_payload_hash = payloadHash t, t_wallet_id = walletID t,
      t_player_id = wplayerID t, t_round_id = roundID t, t_game_id = gameID t, t_kind = kind t,
      t_amount = amount (wmoney t), t_currency = currency (wmoney t),
      t_reference_external_id = null_if_empty (referenceExternalID t), t_status = status t,
      t_failure_code = null_if_empty (failureCode t),
      t_next_retry_at = map_option (store_time R) nextRetryAt,
      t_created_at = store_time R (createdAt t), t_updated_at = store_time R (updatedAt t)\<rparr>"

definition scan_tx :: "runtime \<Rightarrow> tx_row \<Rightarrow> wager" where
  "scan_tx R r =
     RehydrateWagerTransaction (t_id r) (t_provider_id r) (t_external_transaction_id r)
       (t_idempotency_key r) (t_payload_hash r) (t_wallet_id r) (t_player_id r) (t_round_id r)
       (t_game_id r) (t_kind r) (NewInternalMoney R (t_amount r) (t_currency r))
       (empty_if_null (t_reference_external_id r)) (t_status r) (empty_if_null (t_failure_code r))
       (t_created_at r) (t_updated_at r)"

lemma scan_tx_simps [simp]:
  "txid (scan_tx R r) = t_id r" "providerID (scan_tx R r) = t_provider_id r"
  "externalTransactionID (scan_tx R r) = t_external_transaction_id r"
  "idempotencyKey (scan_tx R r) = t_idempotency_key r" "payloadHash (scan_tx R r) = t_payload_hash r"
  "walletID (scan_tx R r) = t_wallet_id r" "wplayerID (scan_tx R r) = t_player_id r"
  "kind (scan_tx R r) = t_kind r" "status (scan_tx R r) = t_status r"
  "amount (wmoney (scan_tx R r)) = t_amount r" "cents (wmoney (scan_tx R r)) = sint (t_amount r)"
  "referenceExternalID (scan_tx R r) = empty_if_null (t_reference_external_id r)"
  by (simp_all add: scan_tx_def RehydrateWagerTransaction_def NewInternalMoney_def cents_def)

section \<open>The operations\<close>

definition scanOne :: "runtime \<Rightarrow> string list \<Rightarrow> (database \<Rightarrow> tx_row option) \<Rightarrow> wager option action" where
  "scanOne R args query =
     wrap_err ''failed to find transaction: '' (sql_query args (\<lambda>d. map_option (scan_tx R) (query d)))"

definition tx_by_external :: "string \<Rightarrow> string \<Rightarrow> database \<Rightarrow> tx_row option" where
  "tx_by_external p e d = find (\<lambda>r. external_key r = (p, e)) (wager_transactions d)"

definition tx_by_key :: "string \<Rightarrow> database \<Rightarrow> tx_row option" where
  "tx_by_key k d = find (\<lambda>r. t_idempotency_key r = k) (wager_transactions d)"

definition tx_by_id :: "string \<Rightarrow> database \<Rightarrow> tx_row option" where
  "tx_by_id i d = find (\<lambda>r. t_id r = i) (wager_transactions d)"

definition FindByExternalIDTx :: "runtime \<Rightarrow> pgx_tx \<Rightarrow> string \<Rightarrow> string \<Rightarrow> wager option action" where
  "FindByExternalIDTx R tx provider external =
     guard_tx tx (scanOne R [provider, external] (tx_by_external provider external))"

definition FindByExternalID ::
  "runtime \<Rightarrow> pgx_pool \<Rightarrow> txenv \<Rightarrow> nat \<Rightarrow> string \<Rightarrow> string \<Rightarrow> database \<Rightarrow> wager option result" where
  "FindByExternalID R pool X n provider external d =
     (if pool = None then Inl ErrNilDatabasePool
      else case pool_query X n [provider, external] (tx_by_external provider external) d of
        Inl e \<Rightarrow> Inl (Wrapped ''failed to find transaction: '' e)
      | Inr row \<Rightarrow> Inr (map_option (scan_tx R) row))"

definition FindByIdempotencyKey :: "runtime \<Rightarrow> pgx_tx \<Rightarrow> string \<Rightarrow> wager option action" where
  "FindByIdempotencyKey R tx key = guard_tx tx (scanOne R [key] (tx_by_key key))"

definition FindByIDForUpdate :: "runtime \<Rightarrow> pgx_tx \<Rightarrow> string \<Rightarrow> wager option action" where
  "FindByIDForUpdate R tx i = guard_tx tx (scanOne R [i] (tx_by_id i))"

definition SaveWithRetryAt :: "runtime \<Rightarrow> pgx_tx \<Rightarrow> wager \<Rightarrow> int option \<Rightarrow> unit action" where
  "SaveWithRetryAt R tx wager nextRetryAt =
     guard_tx tx
       (act_try (sql_exec (insert_tx (tx_row_of R wager nextRetryAt)))
         (\<lambda>err. if is_unique_violation err then act_fail ErrDuplicateTransaction
                else act_fail (Wrapped ''failed to save transaction: '' err))
         act_return)"

definition Tx_Save :: "runtime \<Rightarrow> pgx_tx \<Rightarrow> wager \<Rightarrow> unit action" where
  "Tx_Save R tx wager = SaveWithRetryAt R tx wager None"

text \<open>\<open>UPDATE wager_transactions SET status, failure_code, next_retry_at, updated_at WHERE id = $5\<close>.\<close>

definition update_tx_status ::
  "string \<Rightarrow> string option \<Rightarrow> int option \<Rightarrow> int \<Rightarrow> string \<Rightarrow> database \<Rightarrow> goerror + database" where
  "update_tx_status st code retry updated i d =
     (let P = (\<lambda>r. t_id r = i);
          f = (\<lambda>r. r\<lparr>t_status := pg_trunc 30 st, t_failure_code := map_option (pg_trunc 50) code,
                     t_next_retry_at := retry, t_updated_at := updated\<rparr>)
      in if \<not> pg_text i \<or> \<not> pg_text st \<or> \<not> (case code of None \<Rightarrow> True | Some c \<Rightarrow> pg_text c)
         then refuse ''22021''
         else if list_ex P (wager_transactions d)
           \<and> \<not> columns_fit ((30, st) # (case code of None \<Rightarrow> [] | Some c \<Rightarrow> [(50, c)]))
         then refuse ''22001''
         else if \<not> list_all (\<lambda>r. P r \<longrightarrow> tx_check (f r)) (wager_transactions d) then refuse ''23514''
         else Inr (d\<lparr>wager_transactions := update_where P f (wager_transactions d)\<rparr>))"

lemma update_status_rows:
  "update_tx_status st code retry upd i d = Inr d' \<Longrightarrow>
     d' = d\<lparr>wager_transactions := update_where (\<lambda>r. t_id r = i)
            (\<lambda>r. r\<lparr>t_status := pg_trunc 30 st, t_failure_code := map_option (pg_trunc 50) code,
                   t_next_retry_at := retry, t_updated_at := upd\<rparr>) (wager_transactions d)\<rparr>"
  by (auto simp: update_tx_status_def Let_def refuse_def split: if_splits)

definition UpdateStatusWithRetryAt :: "runtime \<Rightarrow> pgx_tx \<Rightarrow> wager \<Rightarrow> int option \<Rightarrow> unit action" where
  "UpdateStatusWithRetryAt R tx wager nextRetryAt =
     guard_tx tx
       (wrap_err ''failed to update transaction status: ''
         (sql_exec (update_tx_status (status wager) (null_if_empty (failureCode wager))
            (map_option (store_time R) nextRetryAt) (store_time R (updatedAt wager)) (txid wager))))"

definition UpdateStatus :: "runtime \<Rightarrow> pgx_tx \<Rightarrow> wager \<Rightarrow> unit action" where
  "UpdateStatus R tx wager = UpdateStatusWithRetryAt R tx wager None"

definition ledger_row_of :: "runtime \<Rightarrow> int \<Rightarrow> ledger_entry \<Rightarrow> ledger_row" where
  "ledger_row_of R now e =
     \<lparr>l_id = ID e, l_wallet_id = WalletID e, l_transaction_id = TransactionID e,
      l_direction = Direction e, l_amount = Amount e, l_balance_before = BalanceBefore e,
      l_balance_after = BalanceAfter e, l_created_at = store_time R now\<rparr>"

definition SaveLedgerEntry :: "runtime \<Rightarrow> pgx_tx \<Rightarrow> ledger_entry \<Rightarrow> unit action" where
  "SaveLedgerEntry R tx entry =
     guard_tx tx
       (act_bind act_now (\<lambda>now.
         wrap_err ''failed to save ledger entry: '' (sql_exec (insert_ledger (ledger_row_of R now entry)))))"

text \<open>
  The rows a retry is due for, the oldest first, at most \<open>limit\<close> of them. Rows with the same
  \<open>created_at\<close> come in the order of the table.
\<close>

definition due_references :: "runtime \<Rightarrow> int \<Rightarrow> nat \<Rightarrow> database \<Rightarrow> tx_row list" where
  "due_references R now limit d =
     take limit (sort_key t_created_at
       (filter (\<lambda>r. t_status r = ''PENDING_REFERENCE''
                  \<and> (case t_next_retry_at r of None \<Rightarrow> True | Some t \<Rightarrow> t \<le> store_time R now))
         (wager_transactions d)))"

definition FindPendingReferences ::
  "runtime \<Rightarrow> pgx_pool \<Rightarrow> txenv \<Rightarrow> nat \<Rightarrow> int \<Rightarrow> nat \<Rightarrow> database \<Rightarrow> wager list result" where
  "FindPendingReferences R pool X n now limit d =
     (if pool = None then Inl ErrNilDatabasePool
      else case pool_query X n [] (due_references R now limit) d of
        Inl e \<Rightarrow> Inl (Wrapped ''failed to find pending references: '' e)
      | Inr rows \<Rightarrow> Inr (map (scan_tx R) rows))"

end
