(* ===== verification/Wager_Usecase.thy ===== *)
theory Wager_Usecase
  imports Wallet_Repository Transaction_Repository Messaging_Repository Config
begin

text \<open>
  \<open>internal/usecase/wager_usecase.go\<close>: the processing of a wager transaction, from HTTP or from the
  queue, and the resolution of a pending reference. The body of the closure that
  \<open>ProcessTransactionWithInbox\<close> gives to \<open>ExecuteInTransaction\<close> is \<open>process_body\<close>; its \<open>switch\<close> is
  \<open>process_new\<close> and the code after the \<open>switch\<close> is \<open>settle\<close>. The variables \<open>resultTx\<close>, \<open>finalWallet\<close> and
  \<open>idempotentReplay\<close> that the closure assigns are the value it returns.
\<close>

record inbox_claim =
  ConsumerName :: string
  MessageID :: string
  ClaimPayloadHash :: string

record input_dto =
  in_ProviderID :: string
  in_ExternalTransactionID :: string
  in_IdempotencyKey :: string
  in_PlayerID :: string
  in_WalletID :: string
  in_RoundID :: string
  in_GameID :: string
  in_Kind :: string
  in_Amount :: string
  in_Currency :: string
  in_ReferenceExternalID :: string

record money_dto =
  dto_Amount :: string
  dto_Currency :: string

record output_dto =
  out_TransactionID :: string
  out_Status :: string
  out_Balance :: money_dto
  out_IdempotentReplay :: bool

type_synonym outcome = "wager \<times> wallet \<times> bool"

section \<open>Helpers of the use case\<close>

definition saveOutboxEvent :: "runtime \<Rightarrow> pgx_tx \<Rightarrow> string \<Rightarrow> string \<Rightarrow> string \<Rightarrow> unit action" where
  "saveOutboxEvent R tx aggregateID eventName payloadBytes =
     act_bind act_now (\<lambda>now.
       SaveOutbox R tx
         \<lparr>oe_ID = ''evt_'' @ aggregateID @ ''_'' @ show_int now, oe_AggregateID = aggregateID,
          oe_EventType = eventName, oe_Payload = payloadBytes, oe_Status = ''PENDING'',
          oe_Attempts = 0, oe_NextSendAt = now, oe_CreatedAt = now\<rparr>)"

definition lookupExisting :: "runtime \<Rightarrow> pgx_tx \<Rightarrow> input_dto \<Rightarrow> string \<Rightarrow> wager option action" where
  "lookupExisting R tx input expectedHash =
     act_bind (FindByExternalIDTx R tx (in_ProviderID input) (in_ExternalTransactionID input))
       (\<lambda>byExternal. case byExternal of
          Some t \<Rightarrow> if payloadHash t \<noteq> expectedHash then act_fail ErrTransactionConflict
                    else act_return (Some t)
        | None \<Rightarrow>
            act_bind (FindByIdempotencyKey R tx (in_IdempotencyKey input))
              (\<lambda>byKey. case byKey of
                 Some t \<Rightarrow> if payloadHash t \<noteq> expectedHash then act_fail ErrTransactionConflict
                           else act_return (Some t)
               | None \<Rightarrow> act_return None))"

text \<open>The replay of an existing transaction: its wallet is read under the lock, nothing is written.\<close>

definition replay :: "runtime \<Rightarrow> pgx_tx \<Rightarrow> wager \<Rightarrow> outcome action" where
  "replay R tx existing =
     act_bind (FindByIDWithLock R tx (walletID existing))
       (\<lambda>wallet. act_return (MarkAsIdempotentReplay existing, wallet, True))"

definition handleSaveConflict ::
  "runtime \<Rightarrow> pgx_tx \<Rightarrow> input_dto \<Rightarrow> wager \<Rightarrow> goerror \<Rightarrow> outcome action" where
  "handleSaveConflict R tx input wagerTx saveErr =
     (if \<not> errors_is saveErr ErrDuplicateTransaction then act_fail saveErr
      else act_bind (lookupExisting R tx input (payloadHash wagerTx))
        (\<lambda>existing. case existing of
           None \<Rightarrow> act_fail ErrTransactionConflict
         | Some t \<Rightarrow> replay R tx t))"

definition ledger_entry_for :: "wager \<Rightarrow> wallet \<Rightarrow> string \<Rightarrow> int64 \<Rightarrow> ledger_entry" where
  "ledger_entry_for wagerTx wallet direction balanceBefore =
     \<lparr>ID = ''led_'' @ txid wagerTx, WalletID = wid wallet, TransactionID = txid wagerTx,
      Direction = direction, Amount = amount (wmoney wagerTx), BalanceBefore = balanceBefore,
      BalanceAfter = amount (balance wallet)\<rparr>"

definition balance_changed_payload :: "runtime \<Rightarrow> wager \<Rightarrow> wallet \<Rightarrow> string \<Rightarrow> int64 \<Rightarrow> string" where
  "balance_changed_payload R wagerTx wallet direction balanceBefore =
     marshal_map
       [(''walletId'', JString (wid wallet)),
        (''transactionId'', JString (txid wagerTx)),
        (''direction'', JString direction),
        (''amount'', JString (money_string (wmoney wagerTx))),
        (''currency'', JString (currency (wmoney wagerTx))),
        (''balanceBefore'', JString (money_string (NewInternalMoney R balanceBefore (currency (balance wallet))))),
        (''balanceAfter'', JString (money_string (balance wallet))),
        (''walletVersion'', JInt (sint (version wallet)))]"

section \<open>ProcessTransactionWithInbox\<close>

definition internal_tx_id :: "input_dto \<Rightarrow> string" where
  "internal_tx_id input = ''tx_'' @ in_ProviderID input @ ''_'' @ in_ExternalTransactionID input"

text \<open>Everything before the database transaction.\<close>

definition prepare_wager :: "runtime \<Rightarrow> config \<Rightarrow> int \<Rightarrow> input_dto \<Rightarrow> wager result" where
  "prepare_wager R cfg now input =
     (case NewMoneyFromString R (in_Amount input) (in_Currency input) of
        Inl e \<Rightarrow> Inl (Wrapped ''failed: '' e)
      | Inr money \<Rightarrow>
          if \<not> IsCurrencySupported R money (SupportedCurrencies cfg) then Inl ErrIncompatibleCurrency
          else case NewWagerTransaction now (internal_tx_id input) (in_ProviderID input)
              (in_ExternalTransactionID input) (in_IdempotencyKey input) (in_WalletID input)
              (in_PlayerID input) (in_RoundID input) (in_GameID input) (in_Kind input) money
              (in_ReferenceExternalID input) of
            Inl e \<Rightarrow> Inl (Wrapped ''failed: '' e)
          | Inr wagerTx \<Rightarrow> Inr (CalculateAndSetPayloadHash wagerTx))"

text \<open>The branch of a bet that the balance does not cover.\<close>

definition reject_bet :: "runtime \<Rightarrow> pgx_tx \<Rightarrow> input_dto \<Rightarrow> wager \<Rightarrow> wallet \<Rightarrow> outcome action" where
  "reject_bet R tx input wagerTx wallet =
     act_bind act_now (\<lambda>now.
     act_bind (act_pure (TransitionToRejected now ''INSUFFICIENT_BALANCE'' wagerTx)) (\<lambda>rejected.
     act_try (Tx_Save R tx rejected)
       (\<lambda>err. handleSaveConflict R tx input rejected err)
       (\<lambda>_. act_bind (saveOutboxEvent R tx (txid rejected) ''WagerTransactionRejected'' (marshal_opaque_struct rejected))
         (\<lambda>_. act_return (rejected, wallet, False)))))"

text \<open>The branch \<open>if pendingReference\<close>: the retry is due in five seconds.\<close>

definition park :: "runtime \<Rightarrow> pgx_tx \<Rightarrow> input_dto \<Rightarrow> wager \<Rightarrow> wallet \<Rightarrow> outcome action" where
  "park R tx input wagerTx wallet =
     act_bind act_now (\<lambda>now.
     act_bind (act_pure (TransitionToPendingReference now wagerTx)) (\<lambda>pending.
     act_bind act_now (\<lambda>now'.
     act_try (SaveWithRetryAt R tx pending (Some (now' + 5000000000)))
       (\<lambda>err. handleSaveConflict R tx input pending err)
       (\<lambda>_. act_bind (saveOutboxEvent R tx (txid pending) ''WagerTransactionPendingReference'' (marshal_opaque_struct pending))
         (\<lambda>_. act_return (pending, wallet, False))))))"

text \<open>The two statements that move money: the wallet, under its version, and the ledger entry.\<close>

definition move_funds :: "runtime \<Rightarrow> pgx_tx \<Rightarrow> wager \<Rightarrow> wallet \<Rightarrow> string \<Rightarrow> int64 \<Rightarrow> int64 \<Rightarrow> unit action" where
  "move_funds R tx t wallet direction expectedVersion balanceBefore =
     act_bind (Wallet_Update R tx wallet expectedVersion)
       (\<lambda>_. SaveLedgerEntry R tx (ledger_entry_for t wallet direction balanceBefore))"

text \<open>The code after the \<open>switch\<close>, where the transaction is processed.\<close>

definition finish ::
  "runtime \<Rightarrow> pgx_tx \<Rightarrow> wager \<Rightarrow> wallet \<Rightarrow> string \<Rightarrow> bool \<Rightarrow> int64 \<Rightarrow> int64 \<Rightarrow> outcome action" where
  "finish R tx processed wallet direction updateWallet expectedVersion balanceBefore =
     act_bind
       (if updateWallet then
          act_bind (move_funds R tx processed wallet direction expectedVersion balanceBefore) (\<lambda>_.
          saveOutboxEvent R tx (wid wallet) ''WalletBalanceChanged''
            (balance_changed_payload R processed wallet direction balanceBefore))
        else act_return ())
       (\<lambda>_. act_bind (saveOutboxEvent R tx (txid processed) ''WagerTransactionProcessed'' (marshal_opaque_struct processed))
         (\<lambda>_. act_return (processed, wallet, False)))"

definition settle ::
  "runtime \<Rightarrow> pgx_tx \<Rightarrow> input_dto \<Rightarrow> wager \<Rightarrow> wallet \<Rightarrow> string \<Rightarrow> bool \<Rightarrow> int64 \<Rightarrow> int64 \<Rightarrow> outcome action" where
  "settle R tx input wagerTx wallet direction updateWallet expectedVersion balanceBefore =
     act_bind act_now (\<lambda>now.
     act_bind (act_pure (TransitionToProcessed now wagerTx)) (\<lambda>processed.
     act_try (Tx_Save R tx processed)
       (\<lambda>err. handleSaveConflict R tx input processed err)
       (\<lambda>_. finish R tx processed wallet direction updateWallet expectedVersion balanceBefore)))"

text \<open>The \<open>switch\<close> on the kind of the transaction, with the wallet locked.\<close>

definition process_new :: "runtime \<Rightarrow> pgx_tx \<Rightarrow> input_dto \<Rightarrow> wager \<Rightarrow> wallet \<Rightarrow> outcome action" where
  "process_new R tx input wagerTx wallet =
     (let expectedVersion = version wallet; balanceBefore = amount (balance wallet) in
      if kind wagerTx = KindBet then
        act_bind act_now (\<lambda>now.
          case Debit now (wmoney wagerTx) wallet of
            Inl err \<Rightarrow> if errors_is err ErrInsufficientBalance then reject_bet R tx input wagerTx wallet
                       else act_fail err
          | Inr debited \<Rightarrow> settle R tx input wagerTx debited ''DEBIT'' True expectedVersion balanceBefore)
      else if kind wagerTx = KindWin then
        act_bind act_now (\<lambda>now.
        act_bind (act_pure (Credit now (wmoney wagerTx) wallet)) (\<lambda>credited.
          settle R tx input wagerTx credited ''CREDIT'' True expectedVersion balanceBefore))
      else if kind wagerTx = KindLoss then
        settle R tx input wagerTx wallet '''' False expectedVersion balanceBefore
      else if kind wagerTx = KindRefund \<or> kind wagerTx = KindRollback then
        act_bind (FindByExternalIDTx R tx (providerID wagerTx) (referenceExternalID wagerTx)) (\<lambda>refTx.
          case refTx of
            None \<Rightarrow> park R tx input wagerTx wallet
          | Some ref \<Rightarrow>
              if status ref \<noteq> StatusProcessed then act_fail ErrReferenceNotUsable
              else act_bind act_now (\<lambda>now.
                act_bind (act_pure (Credit now (wmoney wagerTx) wallet)) (\<lambda>credited.
                  settle R tx input wagerTx credited ''CREDIT'' True expectedVersion balanceBefore)))
      else act_fail (ErrorString (''invalid transaction kind: '' @ kind wagerTx)))"

text \<open>From the idempotency check on.\<close>

definition process_checked :: "runtime \<Rightarrow> pgx_tx \<Rightarrow> input_dto \<Rightarrow> wager \<Rightarrow> outcome action" where
  "process_checked R tx input wagerTx =
     act_bind (lookupExisting R tx input (payloadHash wagerTx)) (\<lambda>existing.
       case existing of
         Some t \<Rightarrow> replay R tx t
       | None \<Rightarrow>
           act_bind (FindByIDWithLock R tx (walletID wagerTx)) (\<lambda>wallet.
             if playerID wallet \<noteq> wplayerID wagerTx then act_fail ErrWalletOwnerMismatch
             else process_new R tx input wagerTx wallet))"

text \<open>The branch taken when the inbox already holds the message.\<close>

definition duplicate_message :: "runtime \<Rightarrow> pgx_tx \<Rightarrow> input_dto \<Rightarrow> wager \<Rightarrow> outcome action" where
  "duplicate_message R tx input wagerTx =
     act_bind (FindByExternalIDTx R tx (in_ProviderID input) (in_ExternalTransactionID input)) (\<lambda>existing.
       case existing of
         Some t \<Rightarrow> replay R tx t
       | None \<Rightarrow>
           act_bind (FindByIDWithLock R tx (in_WalletID input))
             (\<lambda>wallet. act_return (wagerTx, wallet, True)))"

definition process_body ::
  "runtime \<Rightarrow> input_dto \<Rightarrow> inbox_claim option \<Rightarrow> wager \<Rightarrow> pgx_tx \<Rightarrow> outcome action" where
  "process_body R input inbox wagerTx tx =
     (case inbox of
        None \<Rightarrow> process_checked R tx input wagerTx
      | Some claim \<Rightarrow>
          act_try (SaveInbox tx (ConsumerName claim) (MessageID claim) (ClaimPayloadHash claim))
            (\<lambda>err. if errors_is err ErrDuplicateMessage then duplicate_message R tx input wagerTx
                   else act_fail err)
            (\<lambda>_. process_checked R tx input wagerTx))"

definition output_of :: "outcome \<Rightarrow> output_dto" where
  "output_of oc = (case oc of (resultTx, finalWallet, idemReplay) \<Rightarrow>
     \<lparr>out_TransactionID = txid resultTx, out_Status = status resultTx,
      out_Balance = \<lparr>dto_Amount = money_string (balance finalWallet),
                     dto_Currency = currency (balance finalWallet)\<rparr>,
      out_IdempotentReplay = idemReplay\<rparr>)"

definition ProcessTransactionWithInbox ::
  "runtime \<Rightarrow> config \<Rightarrow> txenv \<Rightarrow> input_dto \<Rightarrow> inbox_claim option \<Rightarrow> database \<Rightarrow> output_dto result \<times> database" where
  "ProcessTransactionWithInbox R cfg X input inbox d =
     (case prepare_wager R cfg (clock X 0) input of
        Inl e \<Rightarrow> (Inl e, d)
      | Inr wagerTx \<Rightarrow>
          (case ExecuteInTransaction X 1 (process_body R input inbox wagerTx) d of
             (Inl e, d') \<Rightarrow> (Inl e, d')
           | (Inr oc, d') \<Rightarrow> (Inr (output_of oc), d')))"

definition ProcessTransaction ::
  "runtime \<Rightarrow> config \<Rightarrow> txenv \<Rightarrow> input_dto \<Rightarrow> database \<Rightarrow> output_dto result \<times> database" where
  "ProcessTransaction R cfg X input d = ProcessTransactionWithInbox R cfg X input None d"

section \<open>ResolvePendingReference\<close>

text \<open>The credit of a pending refund or rollback whose reference has been processed.\<close>

definition resolve_credit :: "runtime \<Rightarrow> pgx_tx \<Rightarrow> wager \<Rightarrow> unit action" where
  "resolve_credit R tx pending =
     act_bind (FindByIDWithLock R tx (walletID pending)) (\<lambda>wallet.
     let expectedVersion = version wallet; balanceBefore = amount (balance wallet) in
     act_bind act_now (\<lambda>now.
     act_bind (act_pure (Credit now (wmoney pending) wallet)) (\<lambda>credited.
     act_bind act_now (\<lambda>now'.
     act_bind (act_pure (TransitionToProcessed now' pending)) (\<lambda>processed.
     act_bind (UpdateStatus R tx processed) (\<lambda>_.
     act_bind (move_funds R tx processed credited ''CREDIT'' expectedVersion balanceBefore) (\<lambda>_.
     act_bind (saveOutboxEvent R tx (txid processed) ''WagerTransactionProcessed'' (marshal_opaque_struct processed)) (\<lambda>_.
     saveOutboxEvent R tx (wid credited) ''WalletBalanceChanged''
       (balance_changed_payload R processed credited ''CREDIT'' balanceBefore)))))))))"

definition resolve_body :: "runtime \<Rightarrow> string \<Rightarrow> pgx_tx \<Rightarrow> unit action" where
  "resolve_body R pendingID tx =
     act_bind (FindByIDForUpdate R tx pendingID) (\<lambda>found.
       case found of
         None \<Rightarrow> act_return ()
       | Some pending \<Rightarrow>
           if status pending \<noteq> StatusPendingReference then act_return ()
           else
             act_bind (FindByExternalIDTx R tx (providerID pending) (referenceExternalID pending)) (\<lambda>refTx.
               case refTx of
                 None \<Rightarrow>
                   act_bind act_now (\<lambda>now.
                     UpdateStatusWithRetryAt R tx pending (Some (now + 5000000000)))
               | Some ref \<Rightarrow>
                   if status ref \<noteq> StatusProcessed then
                     act_bind act_now (\<lambda>now.
                     act_bind (act_pure (TransitionToRejected now ''INVALID_REFERENCE'' pending)) (\<lambda>rejected.
                       UpdateStatus R tx rejected))
                   else resolve_credit R tx pending))"

definition ResolvePendingReference ::
  "runtime \<Rightarrow> txenv \<Rightarrow> string \<Rightarrow> database \<Rightarrow> unit result \<times> database" where
  "ResolvePendingReference R X pendingID d = ExecuteInTransaction X 0 (resolve_body R pendingID) d"

end
