(* ===== verification/Open_Wallet_Usecase.thy ===== *)
theory Open_Wallet_Usecase
  imports Wager_Usecase
begin

text \<open>
  \<open>internal/usecase/open_wallet_usecase.go\<close>: a wallet is stored together with its opening
  transaction and its first ledger entry.
\<close>

record open_wallet_input =
  ow_PlayerID :: string
  ow_InitialAmount :: string
  ow_InitialCurrency :: string

record open_wallet_output =
  owo_ID :: string
  owo_PlayerID :: string
  owo_Balance :: money_dto
  owo_Version :: int64

definition saveOutbox :: "runtime \<Rightarrow> pgx_tx \<Rightarrow> string \<Rightarrow> string \<Rightarrow> string \<Rightarrow> unit action" where
  "saveOutbox R tx aggregateID eventType payloadBytes =
     act_bind act_now (\<lambda>now.
       SaveOutbox R tx
         \<lparr>oe_ID = ''evt_'' @ aggregateID @ ''_'' @ show_int now, oe_AggregateID = aggregateID,
          oe_EventType = eventType, oe_Payload = payloadBytes, oe_Status = ''PENDING'',
          oe_Attempts = 0, oe_NextSendAt = now, oe_CreatedAt = now\<rparr>)"

definition opening_wager :: "int \<Rightarrow> int \<Rightarrow> wallet \<Rightarrow> money \<Rightarrow> wager" where
  "opening_wager now now' wallet initialMoney =
     CalculateAndSetPayloadHash
       (RehydrateWagerTransaction (''tx_opening_'' @ wid wallet) ''INTERNAL'' (''opening_'' @ wid wallet)
         (''opening:'' @ wid wallet) '''' (wid wallet) (playerID wallet) ''INTERNAL'' ''INTERNAL''
         KindOpening initialMoney '''' StatusProcessed '''' now now')"

definition opening_payload :: "wallet \<Rightarrow> money \<Rightarrow> string" where
  "opening_payload wallet initialMoney =
     marshal_map
       [(''walletId'', JString (wid wallet)),
        (''playerId'', JString (playerID wallet)),
        (''direction'', JString ''CREDIT''),
        (''amount'', JInt (sint (amount initialMoney))),
        (''currency'', JString (currency initialMoney)),
        (''balanceBefore'', JString ''0.00''),
        (''balanceAfter'', JInt (sint (amount initialMoney))),
        (''walletVersion'', JInt (sint (version wallet)))]"

definition open_body :: "runtime \<Rightarrow> wallet \<Rightarrow> money \<Rightarrow> pgx_tx \<Rightarrow> unit action" where
  "open_body R wallet initialMoney tx =
     act_bind (Wallet_Save R tx wallet) (\<lambda>_.
       if \<not> IsZero initialMoney then
         act_bind act_now (\<lambda>now. act_bind act_now (\<lambda>now'.
         let wagerTx = opening_wager now now' wallet initialMoney in
         act_bind (Tx_Save R tx wagerTx) (\<lambda>_.
         act_bind
           (SaveLedgerEntry R tx
             \<lparr>ID = ''led_'' @ txid wagerTx, WalletID = wid wallet, TransactionID = txid wagerTx,
              Direction = ''CREDIT'', Amount = amount initialMoney, BalanceBefore = 0,
              BalanceAfter = amount initialMoney\<rparr>) (\<lambda>_.
         act_bind (saveOutbox R tx (wid wallet) ''WALLET_OPENED'' (marshal_opaque_struct wallet)) (\<lambda>_.
         saveOutbox R tx (wid wallet) ''WalletBalanceChanged'' (opening_payload wallet initialMoney))))))
       else act_return ())"

definition wallet_id_for :: "runtime \<Rightarrow> open_wallet_input \<Rightarrow> string" where
  "wallet_id_for R input =
     ''wal_'' @ ow_PlayerID input @ ''_'' @ to_lower R (ow_InitialCurrency input)"

definition OpenWallet_Execute ::
  "runtime \<Rightarrow> config \<Rightarrow> txenv \<Rightarrow> open_wallet_input \<Rightarrow> database \<Rightarrow> open_wallet_output result \<times> database" where
  "OpenWallet_Execute R cfg X input d =
     (case NewMoneyFromString R (ow_InitialAmount input) (ow_InitialCurrency input) of
        Inl e \<Rightarrow> (Inl e, d)
      | Inr initialMoney \<Rightarrow>
          if \<not> IsCurrencySupported R initialMoney (SupportedCurrencies cfg)
          then (Inl ErrIncompatibleCurrency, d)
          else (case NewWallet (clock X 0) (wallet_id_for R input) (ow_PlayerID input) initialMoney of
            Inl e \<Rightarrow> (Inl e, d)
          | Inr wallet \<Rightarrow>
              (case ExecuteInTransaction X 1 (open_body R wallet initialMoney) d of
                 (Inl e, d') \<Rightarrow> (Inl e, d')
               | (Inr _, d') \<Rightarrow>
                   (Inr \<lparr>owo_ID = wid wallet, owo_PlayerID = playerID wallet,
                      owo_Balance = \<lparr>dto_Amount = money_string (balance wallet),
                                     dto_Currency = currency (balance wallet)\<rparr>,
                      owo_Version = version wallet\<rparr>, d'))))"

end
