(* ===== verification/History.thy ===== *)
theory History
  imports Open_Wallet_Usecase
begin

text \<open>
  What a transaction can and cannot do to what is already stored. A relation between the database
  before and after is a \<open>frame\<close> when it is reflexive and transitive; if every statement respects
  it, so does every use case, whether it succeeds, fails or is rolled back (locale
  \<open>statement_frame\<close>). It is interpreted for \<open>history\<close>: no row is ever deleted, ledger entries and inbox rows are
  never changed, and the identity of a transaction, with its amount, its keys and its payload hash, is
  fixed when it is stored.
\<close>

section \<open>Frames\<close>

locale frame =
  fixes Q :: "database \<Rightarrow> database \<Rightarrow> bool"
  assumes Q_refl: "Q d d"
    and Q_trans: "Q d d' \<Longrightarrow> Q d' d'' \<Longrightarrow> Q d d''"
begin

definition keeps :: "'a action \<Rightarrow> bool" where
  "keeps m \<longleftrightarrow> (\<forall>X s r s'. m X s = (r, s') \<longrightarrow> Q (db s) (db s'))"

lemma keepsI: "(\<And>X s r s'. m X s = (r, s') \<Longrightarrow> Q (db s) (db s')) \<Longrightarrow> keeps m"
  by (simp add: keeps_def)

lemma keeps_return: "keeps (act_return a)"
  by (auto simp: keeps_def act_return_def Q_refl)

lemma keeps_fail: "keeps (act_fail e)"
  by (auto simp: keeps_def act_fail_def Q_refl)

lemma keeps_pure: "keeps (act_pure r)"
  by (auto simp: keeps_def act_pure_def Q_refl)

lemma keeps_now: "keeps act_now"
  by (auto simp: keeps_def act_now_def Q_refl)

lemma keeps_try:
  assumes "keeps m" "\<And>e. keeps (h e)" "\<And>a. keeps (f a)"
  shows "keeps (act_try m h f)"
proof (rule keepsI)
  fix X s r s' assume t: "act_try m h f X s = (r, s')"
  obtain r1 s1 where m: "m X s = (r1, s1)" by (cases "m X s")
  have "Q (db s) (db s1)" using assms(1) m by (auto simp: keeps_def)
  moreover have "Q (db s1) (db s')"
    using t m assms(2,3) by (cases r1) (auto simp: keeps_def act_try_def)
  ultimately show "Q (db s) (db s')" by (rule Q_trans)
qed

lemma keeps_bind: "keeps m \<Longrightarrow> (\<And>a. keeps (f a)) \<Longrightarrow> keeps (act_bind m f)"
  by (simp add: act_bind_def keeps_try keeps_fail)

lemma keeps_wrap: "keeps m \<Longrightarrow> keeps (wrap_err msg m)"
  by (simp add: wrap_err_def keeps_try keeps_fail keeps_return)

lemma keeps_guard: "keeps m \<Longrightarrow> keeps (guard_tx tx m)"
  by (simp add: guard_tx_def keeps_fail split: option.split)

lemma keeps_stmt:
  assumes "\<And>d a d'. f d = Inr (a, d') \<Longrightarrow> Q d d'"
  shows "keeps (exec_stmt f)"
proof (rule keepsI)
  fix X s r s' assume "exec_stmt f X s = (r, s')"
  then show "Q (db s) (db s')"
    using assms by (auto simp: exec_stmt_def Let_def Q_refl split: if_splits option.splits sum.splits)
qed

lemma keeps_exec:
  assumes "\<And>d d'. f d = Inr d' \<Longrightarrow> Q d d'"
  shows "keeps (sql_exec f)"
  using assms by (auto simp: sql_exec_def intro!: keeps_stmt split: sum.splits)

lemma keeps_query: "keeps (sql_query ps q)"
  by (auto simp: sql_query_def refuse_def Q_refl intro!: keeps_stmt split: if_splits)

lemmas keeps_rules =
  keeps_return keeps_fail keeps_pure keeps_now keeps_try keeps_bind keeps_wrap keeps_guard keeps_query

lemma keeps_execute:
  assumes "keeps (body live_tx)" "ExecuteInTransaction X n body d = (r, d')"
  shows "Q d d'"
  using assms(2)
proof (rule Execute_cases)
  fix a s assume "body live_tx X (start_session d n) = (Inr a, s)" "d' = db s"
  then show ?thesis using assms(1) unfolding keeps_def by (metis start_session_simps(1))
qed (simp add: Q_refl)

end

section \<open>The statements of the use cases\<close>

locale statement_frame = frame +
  assumes Q_wallet: "insert_wallet w d = Inr d' \<Longrightarrow> Q d d'"
    and Q_balance: "update_wallet amt ver upd i v d = Inr (n, d') \<Longrightarrow> Q d d'"
    and Q_tx: "insert_tx t d = Inr d' \<Longrightarrow> Q d d'"
    and Q_entry: "insert_ledger l d = Inr d' \<Longrightarrow> Q d d'"
    and Q_inbox: "insert_inbox m d = Inr d' \<Longrightarrow> Q d d'"
    and Q_outbox: "insert_outbox e d = Inr d' \<Longrightarrow> o_status e = ''PENDING'' \<Longrightarrow> o_attempts e = 0 \<Longrightarrow> o_published_at e = None \<Longrightarrow> Q d d'"
begin

lemma keeps_repository:
  "keeps (Wallet_Save R tx w)" "keeps (Wallet_Update R tx w v)" "keeps (FindByIDWithLock R tx i)"
  "keeps (FindByExternalIDTx R tx p e)" "keeps (FindByIdempotencyKey R tx k)" "keeps (FindByIDForUpdate R tx i)"
  "keeps (SaveWithRetryAt R tx t retry)"
  "keeps (SaveLedgerEntry R tx entry)" "oe_Status event = ''PENDING'' \<Longrightarrow> keeps (SaveOutbox R tx event)"
  "keeps (SaveInbox tx c m h)"
  by (auto simp: Wallet_Save_def Wallet_Update_def FindByIDWithLock_def FindByExternalIDTx_def
      FindByIdempotencyKey_def FindByIDForUpdate_def scanOne_def SaveWithRetryAt_def
      SaveLedgerEntry_def SaveOutbox_def SaveInbox_def outbox_row_of_def
      intro!: keeps_rules keeps_exec keeps_stmt
      intro: Q_wallet Q_balance Q_tx Q_entry Q_inbox Q_outbox split: option.splits)

lemma keeps_helpers:
  "keeps (Tx_Save R tx t)" "keeps (saveOutboxEvent R tx a n p)"
  "keeps (saveOutbox R tx a n p)" "keeps (lookupExisting R tx input h)" "keeps (replay R tx t)"
  by (auto simp: Tx_Save_def saveOutboxEvent_def saveOutbox_def lookupExisting_def replay_def
      intro!: keeps_rules keeps_repository split: option.splits)

lemma keeps_conflict: "keeps (handleSaveConflict R tx input t e)"
  by (auto simp: handleSaveConflict_def intro!: keeps_rules keeps_helpers split: option.splits)

lemma keeps_settle:
  "keeps (move_funds R tx t w dir v b)" "keeps (finish R tx t w dir upd v b)" "keeps (settle R tx input t w dir upd v b)"
  "keeps (reject_bet R tx input t w)" "keeps (park R tx input t w)"
  by (auto simp: move_funds_def finish_def settle_def reject_bet_def park_def
      intro!: keeps_rules keeps_repository keeps_helpers keeps_conflict split: option.splits)

lemma keeps_process_new: "keeps (process_new R tx input t w)"
  by (auto simp: process_new_def Let_def intro!: keeps_rules keeps_repository keeps_settle
      split: option.splits sum.splits)

lemma keeps_process_body: "keeps (process_body R input inbox t tx)"
  by (auto simp: process_body_def process_checked_def duplicate_message_def
      intro!: keeps_rules keeps_repository keeps_helpers keeps_process_new split: option.splits)

lemma keeps_open_body: "keeps (open_body R w m tx)"
  by (auto simp: open_body_def Let_def intro!: keeps_rules keeps_repository keeps_helpers)

lemma process_respects:
  "ProcessTransactionWithInbox R cfg X input inbox d = (r, d') \<Longrightarrow> Q d d'"
  by (auto simp: ProcessTransactionWithInbox_def Q_refl split: sum.splits prod.splits
      dest: keeps_execute [OF keeps_process_body])

lemma open_respects: "OpenWallet_Execute R cfg X input d = (r, d') \<Longrightarrow> Q d d'"
  by (auto simp: OpenWallet_Execute_def Q_refl split: sum.splits prod.splits if_splits
      dest: keeps_execute [OF keeps_open_body])

end

text \<open>The resolution of a pending reference also updates the status of a transaction.\<close>

locale resolution_frame = statement_frame +
  assumes Q_status: "update_tx_status st code retry upd i d = Inr d' \<Longrightarrow> Q d d'"
begin

lemma keeps_status: "keeps (UpdateStatusWithRetryAt R tx t retry)" "keeps (UpdateStatus R tx t)"
  by (auto simp: UpdateStatusWithRetryAt_def UpdateStatus_def intro!: keeps_rules keeps_exec intro: Q_status)

lemma keeps_resolve_body: "keeps (resolve_body R i tx)"
  by (auto simp: resolve_body_def resolve_credit_def Let_def
      intro!: keeps_rules keeps_repository keeps_helpers keeps_settle keeps_status split: option.splits)

lemma resolve_respects: "ResolvePendingReference R X i d = (r, d') \<Longrightarrow> Q d d'"
  by (auto simp: ResolvePendingReference_def dest: keeps_execute [OF keeps_resolve_body])

end

section \<open>Nothing is forgotten\<close>

definition tx_identity :: "tx_row \<Rightarrow> (string \<times> string \<times> string \<times> string \<times> string) \<times> string \<times> int64 \<times> string" where
  "tx_identity t =
     ((t_id t, t_provider_id t, t_external_transaction_id t, t_idempotency_key t, t_payload_hash t),
      t_wallet_id t, t_amount t, t_kind t)"

definition wallet_identity :: "wallet_row \<Rightarrow> string \<times> string \<times> string" where
  "wallet_identity w = (w_id w, w_player_id w, w_currency w)"

definition event_identity :: "outbox_row \<Rightarrow> string \<times> string \<times> string \<times> string" where
  "event_identity e = (o_id e, o_aggregate_id e, o_event_type e, o_payload e)"

definition history :: "database \<Rightarrow> database \<Rightarrow> bool" where
  "history d d' \<longleftrightarrow>
     prefix (wallet_ledger_entries d) (wallet_ledger_entries d')
     \<and> prefix (inbox_messages d) (inbox_messages d')
     \<and> prefix (map tx_identity (wager_transactions d)) (map tx_identity (wager_transactions d'))
     \<and> prefix (map wallet_identity (wallets d)) (map wallet_identity (wallets d'))
     \<and> prefix (map event_identity (outbox_events d)) (map event_identity (outbox_events d'))"

lemma identity_updates:
  "map wallet_identity (update_where P (\<lambda>r. r\<lparr>w_amount := a, w_version := v, w_updated_at := u\<rparr>) ws) = map wallet_identity ws"
  "map tx_identity (update_where P' (\<lambda>r. r\<lparr>t_status := st, t_failure_code := c, t_next_retry_at := n, t_updated_at := u\<rparr>) ts)
     = map tx_identity ts"
  by (simp_all add: map_update_where wallet_identity_def tx_identity_def)

interpretation hist: resolution_frame history
proof unfold_locales
  fix d d' d'' :: database
  show "history d d' \<Longrightarrow> history d' d'' \<Longrightarrow> history d d''"
    unfolding history_def by (blast intro: prefix_order.trans)
qed (auto simp: history_def inr_dest identity_updates dest!: update_wallet_rows update_status_rows)


section \<open>Terminal transactions are final\<close>

text \<open>Processing and opening only append to the table of transactions.\<close>

definition appended :: "database \<Rightarrow> database \<Rightarrow> bool" where
  "appended d d' \<longleftrightarrow> prefix (wager_transactions d) (wager_transactions d')"

interpretation app: statement_frame appended
proof unfold_locales
  fix d d' d'' :: database
  show "appended d d' \<Longrightarrow> appended d' d'' \<Longrightarrow> appended d d''"
    unfolding appended_def by (rule prefix_order.trans)
qed (auto simp: appended_def inr_dest dest!: update_wallet_rows)

text \<open>Resolving the transaction \<open>i\<close> leaves the rows of the other transactions alone.\<close>

definition others_kept :: "string \<Rightarrow> database \<Rightarrow> database \<Rightarrow> bool" where
  "others_kept i d d' \<longleftrightarrow>
     (\<forall>t \<in> set (wager_transactions d). t_id t \<noteq> i \<longrightarrow> t \<in> set (wager_transactions d'))"

interpretation others: statement_frame "others_kept i"
  for i
  by unfold_locales (auto simp: others_kept_def inr_dest dest!: update_wallet_rows)

lemma others_status: "txid t = i \<Longrightarrow> others.keeps i (UpdateStatusWithRetryAt R tx t retry)"
  by (auto simp: UpdateStatusWithRetryAt_def others_kept_def set_update_where
      intro!: others.keeps_rules others.keeps_exec dest!: update_status_rows)

lemma others_pure_bind:
  "(\<And>a. r = Inr a \<Longrightarrow> others.keeps i (f a)) \<Longrightarrow> others.keeps i (act_bind (act_pure r) f)"
  by (cases r) (auto simp: others.keeps_def act_bind_run act_pure_def others.Q_refl)

lemma others_find_bind:
  assumes "\<And>p. txid p = i \<Longrightarrow> others.keeps i (f (Some p))" "others.keeps i (f None)"
  shows "others.keeps i (act_bind (FindByIDForUpdate R live_tx i) f)"
proof (rule others.keepsI)
  fix X s r s' assume run: "act_bind (FindByIDForUpdate R live_tx i) f X s = (r, s')"
  obtain r1 s1 where m: "FindByIDForUpdate R live_tx i X s = (r1, s1)" by (cases "FindByIDForUpdate R live_tx i X s")
  have q: "others_kept i (db s) (db s1)" using others.keeps_repository(6) m by (auto simp: others.keeps_def)
  show "others_kept i (db s) (db s')"
  proof (cases r1)
    case (Inl e)
    then show ?thesis using run m q by (simp add: act_bind_run)
  next
    case (Inr found)
    then have "found = map_option (scan_tx R) (tx_by_id i (db s))"
      using m by (auto simp: FindByIDForUpdate_def scanOne_def act_inr)
    then have "others.keeps i (f found)"
      using assms by (cases "tx_by_id i (db s)") (auto simp: tx_by_id_def dest: find_SomeD)
    then have "others_kept i (db s1) (db s')"
      using run m Inr by (auto simp: act_bind_run others.keeps_def)
    with q show ?thesis by (rule others.Q_trans)
  qed
qed

lemma others_resolve: "others.keeps i (resolve_body R i live_tx)"
  unfolding resolve_body_def
proof (rule others_find_bind)
  fix p :: wager assume p: "txid p = i"
  have "others.keeps i (resolve_credit R live_tx p)"
    using p by (auto simp: resolve_credit_def Let_def UpdateStatus_def inr_dest
        intro!: others.keeps_rules(4,6) others.keeps_repository others_pure_bind others_status
          others.keeps_helpers others.keeps_settle)
  then show "others.keeps i (case Some p of None \<Rightarrow> act_return ()
       | Some pending \<Rightarrow>
           if status pending \<noteq> StatusPendingReference then act_return ()
           else
             act_bind (FindByExternalIDTx R live_tx (providerID pending) (referenceExternalID pending)) (\<lambda>refTx.
               case refTx of
                 None \<Rightarrow>
                   act_bind act_now (\<lambda>now.
                     UpdateStatusWithRetryAt R live_tx pending (Some (now + 5000000000)))
               | Some ref \<Rightarrow>
                   if status ref \<noteq> StatusProcessed then
                     act_bind act_now (\<lambda>now.
                     act_bind (act_pure (TransitionToRejected now ''INVALID_REFERENCE'' pending)) (\<lambda>rejected.
                       UpdateStatus R live_tx rejected))
                   else resolve_credit R live_tx pending))"
    using p by (auto simp: UpdateStatus_def inr_dest
        intro!: others.keeps_rules(1,4,6) others.keeps_repository others_pure_bind others_status split: option.split)
qed (simp add: others.keeps_return)

lemma resolve_not_pending:
  assumes "tx_by_id i (db s) = Some t" "t_status t \<noteq> StatusPendingReference" "resolve_body R i live_tx X s = (Inr u, s')"
  shows "db s' = db s"
  using assms by (auto simp: resolve_body_def FindByIDForUpdate_def scanOne_def act_inr)

lemma resolve_final:
  assumes "tx_tab.unique d" "t \<in> set (wager_transactions d)" "t_status t \<noteq> StatusPendingReference"
    "ResolvePendingReference R X i d = (r, d')"
  shows "t \<in> set (wager_transactions d')"
proof (cases "t_id t = i")
  case False
  then show ?thesis
    using assms(2,4) others.keeps_execute [where body = "resolve_body R i", OF others_resolve]
    by (auto simp: ResolvePendingReference_def others_kept_def)
next
  case True
  then have found: "tx_by_id i d = Some t"
    using tx_tab.lookup_unique [OF assms(1,2)] by (simp add: tx_tab.lookup_def tx_by_id_def)
  from assms(4) show ?thesis
    unfolding ResolvePendingReference_def
  proof (rule Execute_cases)
    fix u s assume "resolve_body R i live_tx X (start_session d 0) = (Inr u, s)" "d' = db s"
    then show ?thesis using resolve_not_pending [of i "start_session d 0" t] found assms(2,3) by simp
  qed (use assms(2) in simp)
qed

end
