(* ===== verification/Reconciliation_Usecase.thy ===== *)
theory Reconciliation_Usecase
  imports Wager_Usecase
begin

text \<open>
  \<open>internal/usecase/reconciliation_usecase.go\<close>: the stored balance of a wallet against the sum of
  its ledger entries. The two reads are two statements on the connection pool, not one
  transaction, so each sees a snapshot of its own: \<open>d1\<close> for the wallet and \<open>d2\<close> for the ledger.
\<close>

record reconciliation_output =
  ro_WalletID :: string
  ro_StoredBalance :: money_dto
  ro_CalculatedBalance :: money_dto
  ro_Difference :: money_dto
  ro_Consistent :: bool
  ro_CheckedEntries :: int64

text \<open>The repository of the use case is \<open>None\<close> when it is nil, otherwise its pool.\<close>

definition Reconciliation_Execute ::
  "runtime \<Rightarrow> pgx_pool option \<Rightarrow> txenv \<Rightarrow> string \<Rightarrow> database \<Rightarrow> database \<Rightarrow> reconciliation_output result" where
  "Reconciliation_Execute R repo X i d1 d2 =
     (case repo of
        None \<Rightarrow> Inl ErrNilWalletRepository
      | Some pool \<Rightarrow>
          (case FindByID R pool X 0 i d1 of
             Inl e \<Rightarrow> Inl e
           | Inr wallet \<Rightarrow>
               (case CalculateLedgerBalance pool X 1 i d2 of
                  Inl e \<Rightarrow> Inl e
                | Inr (ledgerAmount, checkedEntries) \<Rightarrow>
                    let storedAmount = amount (balance wallet);
                        differenceAmount = storedAmount - ledgerAmount;
                        cur = currency (balance wallet);
                        dto = (\<lambda>a. \<lparr>dto_Amount = money_string (NewInternalMoney R a cur), dto_Currency = cur\<rparr>)
                    in Inr \<lparr>ro_WalletID = i, ro_StoredBalance = dto storedAmount,
                            ro_CalculatedBalance = dto ledgerAmount,
                            ro_Difference = dto differenceAmount,
                            ro_Consistent = (differenceAmount = 0),
                            ro_CheckedEntries = checkedEntries\<rparr>)))"

section \<open>What is compared\<close>

text \<open>The balance that the ledger gives to a wallet, as an integer.\<close>

definition ledger_balance :: "string \<Rightarrow> database \<Rightarrow> int" where
  "ledger_balance i d = total ''CREDIT'' (entries_of i d) - total ''DEBIT'' (entries_of i d)"

lemma pool_query_Inr [inr_dest]:
  "pool_query X n ps q d = Inr a \<longleftrightarrow> stmt_fault X n = None \<and> list_all pg_text ps \<and> a = q d"
  by (auto simp: pool_query_def refuse_def split: option.splits)

lemma FindByID_Inr [inr_dest]:
  "FindByID R pool X n i d = Inr w \<longleftrightarrow>
     pool \<noteq> None \<and> stmt_fault X n = None \<and> pg_text i
     \<and> (\<exists>r. wallet_by_id i d = Some r \<and> wallet_of_row R r = Inr w)"
  by (auto simp: FindByID_def pool_query_def refuse_def split: sum.splits option.splits)

lemma CalculateLedgerBalance_Inr [inr_dest]:
  "CalculateLedgerBalance pool X n i d = Inr (a, c) \<longleftrightarrow>
     pool \<noteq> None \<and> stmt_fault X n = None \<and> pg_text i
     \<and> in_int64 (total ''CREDIT'' (entries_of i d)) \<and> in_int64 (total ''DEBIT'' (entries_of i d))
     \<and> a = word_of_int (ledger_balance i d) \<and> c = of_nat (length (entries_of i d))"
  by (auto simp: CalculateLedgerBalance_def pool_query_def refuse_def Let_def ledger_balance_def
      split: option.splits)

lemma Reconciliation_Inr:
  "Reconciliation_Execute R repo X i d1 d2 = Inr out \<longleftrightarrow>
     (\<exists>pool w a c. repo = Some pool \<and> FindByID R pool X 0 i d1 = Inr w
        \<and> CalculateLedgerBalance pool X 1 i d2 = Inr (a, c)
        \<and> out = (let dto = (\<lambda>x. \<lparr>dto_Amount = money_string (NewInternalMoney R x (currency (balance w))),
                                 dto_Currency = currency (balance w)\<rparr>)
                 in \<lparr>ro_WalletID = i, ro_StoredBalance = dto (amount (balance w)),
                     ro_CalculatedBalance = dto a, ro_Difference = dto (amount (balance w) - a),
                     ro_Consistent = (amount (balance w) = a), ro_CheckedEntries = c\<rparr>))"
  by (auto simp: Reconciliation_Execute_def Let_def split: option.splits sum.splits)

text \<open>
  The report says \<open>consistent\<close> exactly when the two snapshots agree, and is right about it even
  though the difference is computed with the wrap-around of \<open>int64\<close>.
\<close>

lemma int64_eq_iff: "in_int64 i \<Longrightarrow> (a :: int64) = word_of_int i \<longleftrightarrow> sint a = i"
  by (auto simp: sint_of_int64 simp flip: sint_eq_int64_iff)

lemma total_nonneg: "\<forall>l \<in> set ls. 0 \<le> sint (l_amount l) \<Longrightarrow> 0 \<le> total dir ls"
  by (auto simp: total_def intro!: sum_list_nonneg)

lemma in_int64_diff: "in_int64 a \<Longrightarrow> in_int64 b \<Longrightarrow> 0 \<le> a \<Longrightarrow> 0 \<le> b \<Longrightarrow> in_int64 (a - b)"
  by (simp add: in_int64_def)

lemma Reconciliation_consistent_iff:
  assumes "Reconciliation_Execute R repo X i d1 d2 = Inr out" "\<forall>l \<in> set (entries_of i d2). 0 \<le> sint (l_amount l)"
  shows "\<exists>r. wallet_by_id i d1 = Some r \<and> (ro_Consistent out \<longleftrightarrow> sint (w_amount r) = ledger_balance i d2)"
proof -
  obtain pool w a c where w: "FindByID R pool X 0 i d1 = Inr w"
    and a: "CalculateLedgerBalance pool X 1 i d2 = Inr (a, c)"
    and c: "ro_Consistent out \<longleftrightarrow> amount (balance w) = a"
    using assms(1) by (auto simp: Reconciliation_Inr Let_def)
  have "in_int64 (ledger_balance i d2)"
    using a total_nonneg [OF assms(2)] unfolding ledger_balance_def CalculateLedgerBalance_Inr
    by (intro in_int64_diff) simp_all
  then have "x = a \<longleftrightarrow> sint x = ledger_balance i d2" for x
    using a int64_eq_iff [of "ledger_balance i d2" x] unfolding CalculateLedgerBalance_Inr by blast
  moreover obtain r where "wallet_by_id i d1 = Some r" "amount (balance w) = w_amount r"
    using w by (auto simp: inr_dest wallet_of_row_def NewInternalMoney_def)
  ultimately show ?thesis using c by auto
qed

end
