(* ===== verification/Ledger_Invariant.thy ===== *)
theory Ledger_Invariant
  imports Open_Wallet_Usecase Reconciliation_Usecase
begin

text \<open>
  The invariant of the ledger, across the tables of wallets, transactions and ledger entries, and
  its preservation by every statement that writes to them. Between the statements of a transaction the books
  are not balanced: a transaction may be stored whose entry is still to be written (the set \<open>E\<close> of
  \<open>books\<close>), and the balance of a wallet may differ from the sum of its entries by the amount in
  suspense (the function \<open>S\<close>). The statements move \<open>E\<close> and \<open>S\<close>; the books are closed, which is the invariant
  \<open>ledger_inv\<close>, when nothing is missing and nothing is in suspense.
\<close>

section \<open>The books\<close>

definition keys_inv :: "database \<Rightarrow> bool" where
  "keys_inv d \<longleftrightarrow>
     wallet_tab.unique d \<and> owner_tab.unique d \<and> tx_tab.unique d \<and> ext_tab.unique d \<and> idem_tab.unique d
     \<and> entry_tab.unique d \<and> movement_tab.unique d
     \<and> (\<forall>r \<in> set (wallets d). pg_trunc 64 (w_id r) = w_id r)
     \<and> (\<forall>t \<in> set (wager_transactions d). pg_trunc 64 (t_id t) = t_id t)"

definition balance_inv :: "(string \<Rightarrow> int) \<Rightarrow> database \<Rightarrow> bool" where
  "balance_inv S d \<longleftrightarrow>
     (\<forall>r \<in> set (wallets d). 0 \<le> sint (w_amount r) \<and> sint (w_amount r) = ledger_balance (w_id r) d + S (w_id r))"

text \<open>An entry and the transaction it records.\<close>

definition records :: "ledger_row \<Rightarrow> tx_row \<Rightarrow> bool" where
  "records l t \<longleftrightarrow>
     l_transaction_id l = t_id t \<and> l_wallet_id l = t_wallet_id t \<and> l_amount l = t_amount t
     \<and> t_status t = StatusProcessed \<and> t_kind t \<noteq> KindLoss
     \<and> (l_direction l = ''DEBIT'' \<longleftrightarrow> t_kind t = KindBet)"

definition entries_inv :: "database \<Rightarrow> bool" where
  "entries_inv d \<longleftrightarrow>
     (\<forall>l \<in> set (wallet_ledger_entries d).
        ledger_check l \<and> l_wallet_id l \<in> w_id ` set (wallets d)
        \<and> (\<exists>t \<in> set (wager_transactions d). records l t))"

definition moves_money :: "tx_row \<Rightarrow> bool" where
  "moves_money t \<longleftrightarrow> t_status t = StatusProcessed \<and> t_kind t \<noteq> KindLoss"

definition txs_inv :: "string set \<Rightarrow> database \<Rightarrow> bool" where
  "txs_inv E d \<longleftrightarrow>
     (\<forall>t \<in> set (wager_transactions d).
        t_wallet_id t \<in> w_id ` set (wallets d)
        \<and> (moves_money t \<and> t_id t \<notin> E \<longrightarrow> (\<exists>l \<in> set (wallet_ledger_entries d). l_transaction_id l = t_id t))
        \<and> (t_status t = StatusPendingReference \<longrightarrow> t_kind t \<in> {KindRefund, KindRollback}))"

definition books :: "string set \<Rightarrow> (string \<Rightarrow> int) \<Rightarrow> database \<Rightarrow> bool" where
  "books E S d \<longleftrightarrow> keys_inv d \<and> balance_inv S d \<and> entries_inv d \<and> txs_inv E d"

definition ledger_inv :: "database \<Rightarrow> bool" where
  "ledger_inv d \<longleftrightarrow> books {} (\<lambda>i. 0) d"

lemmas books_defs = books_def keys_inv_def balance_inv_def entries_inv_def txs_inv_def

lemma ledger_inv_empty: "ledger_inv empty_database"
  by (simp add: ledger_inv_def books_defs empty_database_def wallet_tab.unique_def owner_tab.unique_def
      tx_tab.unique_def ext_tab.unique_def idem_tab.unique_def entry_tab.unique_def movement_tab.unique_def)

lemmas unique_defs =
  wallet_tab.unique_def owner_tab.unique_def tx_tab.unique_def ext_tab.unique_def idem_tab.unique_def
  entry_tab.unique_def movement_tab.unique_def

lemma ledger_balance_frame:
  "wallet_ledger_entries d' = wallet_ledger_entries d \<Longrightarrow> ledger_balance i d' = ledger_balance i d"
  by (simp add: ledger_balance_def entries_of_def)

lemma balance_frame:
  "wallets d' = wallets d \<Longrightarrow> wallet_ledger_entries d' = wallet_ledger_entries d \<Longrightarrow>
   balance_inv S d' = balance_inv S d"
  by (simp add: balance_inv_def ledger_balance_frame [of d' d])

text \<open>The books depend on three tables only.\<close>

lemma books_frame:
  assumes "books E S d" "wallets d' = wallets d" "wager_transactions d' = wager_transactions d"
    "wallet_ledger_entries d' = wallet_ledger_entries d"
  shows "books E S d'"
  using assms balance_frame [of d' d S]
  by (simp add: books_def keys_inv_def entries_inv_def txs_inv_def unique_defs)

lemma books_inbox: "books E S d \<Longrightarrow> insert_inbox r d = Inr d' \<Longrightarrow> books E S d'"
  by (rule books_frame) (auto simp: inr_dest)

lemma books_outbox: "books E S d \<Longrightarrow> insert_outbox r d = Inr d' \<Longrightarrow> books E S d'"
  by (rule books_frame) (auto simp: inr_dest)

section \<open>Sums over the ledger\<close>

definition signed_amount :: "ledger_row \<Rightarrow> int" where
  "signed_amount l =
     (if l_direction l = ''CREDIT'' then sint (l_amount l)
      else if l_direction l = ''DEBIT'' then - sint (l_amount l) else 0)"

lemma total_append [simp]: "total dir (ls @ ls') = total dir ls + total dir ls'"
  by (simp add: total_def)

lemma total_Nil [simp]: "total dir [] = 0"
  by (simp add: total_def)

lemma ledger_balance_append:
  "wallet_ledger_entries d' = wallet_ledger_entries d @ [l] \<Longrightarrow>
   ledger_balance i d' = ledger_balance i d + (if l_wallet_id l = i then signed_amount l else 0)"
  by (simp add: ledger_balance_def entries_of_def) (simp add: total_def signed_amount_def)

lemma ledger_balance_none:
  assumes "\<forall>l \<in> set (wallet_ledger_entries d). l_wallet_id l \<noteq> i"
  shows "ledger_balance i d = 0"
proof -
  have "entries_of i d = []" using assms by (auto simp: entries_of_def filter_empty_conv)
  then show ?thesis by (simp add: ledger_balance_def)
qed

lemma ledger_check_signed:
  "ledger_check l \<Longrightarrow> signed_amount l = sint (l_balance_after l) - sint (l_balance_before l)"
  by (auto simp: ledger_check_def signed_amount_def)

section \<open>Statements on the books\<close>

lemma columns_fit_stable: "columns_fit ((n, s) # cs) \<Longrightarrow> pg_trunc n (pg_trunc n s) = pg_trunc n s"
  by (simp add: columns_fit_def pg_trunc_stable)

lemma stored_ids [simp]:
  "w_id (stored_wallet w) = pg_trunc 64 (w_id w)" "w_amount (stored_wallet w) = w_amount w"
  "t_id (stored_tx t) = pg_trunc 64 (t_id t)" "t_wallet_id (stored_tx t) = pg_trunc 64 (t_wallet_id t)"
  "t_amount (stored_tx t) = t_amount t" "t_status (stored_tx t) = pg_trunc 30 (t_status t)"
  "t_kind (stored_tx t) = pg_trunc 20 (t_kind t)"
  "l_id (stored_ledger l) = pg_trunc 64 (l_id l)" "l_wallet_id (stored_ledger l) = pg_trunc 64 (l_wallet_id l)"
  "l_transaction_id (stored_ledger l) = pg_trunc 64 (l_transaction_id l)"
  "l_direction (stored_ledger l) = pg_trunc 6 (l_direction l)" "l_amount (stored_ledger l) = l_amount l"
  "l_balance_before (stored_ledger l) = l_balance_before l"
  "l_balance_after (stored_ledger l) = l_balance_after l"
  by (simp_all add: stored_wallet_def stored_tx_def stored_ledger_def)

lemma books_insert_tx:
  assumes "books {} S d" "insert_tx r d = Inr d'"
    "t_status (stored_tx r) = StatusPendingReference \<Longrightarrow> t_kind (stored_tx r) \<in> {KindRefund, KindRollback}"
  shows "books (if moves_money (stored_tx r) then {t_id (stored_tx r)} else {}) S d'"
proof -
  have d': "wallets d' = wallets d" "wallet_ledger_entries d' = wallet_ledger_entries d"
    "wager_transactions d' = wager_transactions d @ [stored_tx r]"
    and wal: "t_wallet_id (stored_tx r) \<in> w_id ` set (wallets d)"
    and fit: "columns_fit (tx_columns r)"
    using assms(2) unfolding insert_tx_Inr by simp_all
  have "pg_trunc 64 (t_id (stored_tx r)) = t_id (stored_tx r)"
    using columns_fit_stable [of 64 "t_id r"] fit by (simp add: tx_columns_def)
  moreover have "tx_tab.unique d'" "ext_tab.unique d'" "idem_tab.unique d'"
    using assms(1) tx_tab.insert_unique [OF _ assms(2)] ext_tab.insert_unique [OF _ assms(2)]
      idem_tab.insert_unique [OF _ assms(2)]
    unfolding books_def keys_inv_def by blast+
  ultimately have "keys_inv d'"
    using assms(1) d'
    by (simp add: books_def keys_inv_def wallet_tab.unique_def owner_tab.unique_def entry_tab.unique_def
        movement_tab.unique_def del: stored_ids)
  moreover have "entries_inv d'"
    using assms(1) d' by (auto simp: books_def entries_inv_def)
  moreover have "txs_inv (if moves_money (stored_tx r) then {t_id (stored_tx r)} else {}) d'"
    using assms(1,3) d' wal by (auto simp: books_def txs_inv_def simp del: stored_ids)
  ultimately show ?thesis using assms(1) balance_frame [OF d'(1,2)] by (simp add: books_def)
qed

lemma books_insert_wallet:
  assumes "books E S d" "insert_wallet r d = Inr d'" "S (w_id (stored_wallet r)) = 0"
  shows "books E (S (w_id (stored_wallet r) := sint (w_amount r))) d'"
proof -
  let ?r = "stored_wallet r"
  have d': "wallets d' = wallets d @ [?r]" "wallet_ledger_entries d' = wallet_ledger_entries d"
    "wager_transactions d' = wager_transactions d" and fresh: "w_id ?r \<notin> w_id ` set (wallets d)"
    and pos: "0 \<le> sint (w_amount ?r)" and fit: "columns_fit [(64, w_id r), (64, w_player_id r), (3, w_currency r)]"
    using assms(2) unfolding insert_wallet_Inr wallet_check_def by simp_all
  have "pg_trunc 64 (w_id ?r) = w_id ?r"
    using columns_fit_stable [OF fit] by simp
  moreover have "wallet_tab.unique d'" "owner_tab.unique d'"
    using assms(1) wallet_tab.insert_unique [OF _ assms(2)] owner_tab.insert_unique [OF _ assms(2)]
    unfolding books_def keys_inv_def by blast+
  ultimately have keys: "keys_inv d'"
    using assms(1) d'
    by (simp add: books_def keys_inv_def tx_tab.unique_def ext_tab.unique_def idem_tab.unique_def
        entry_tab.unique_def movement_tab.unique_def del: stored_ids)
  have "\<forall>l \<in> set (wallet_ledger_entries d). l_wallet_id l \<in> w_id ` set (wallets d)"
    using assms(1) by (simp add: books_def entries_inv_def)
  then have "ledger_balance (w_id ?r) d = 0"
    using fresh by (intro ledger_balance_none) metis
  moreover have "\<forall>q \<in> set (wallets d). w_id q \<noteq> w_id ?r"
    using fresh by (metis image_eqI)
  ultimately have "balance_inv (S (w_id ?r := sint (w_amount r))) d'"
    using assms(1) d' pos
    by (auto simp: books_def balance_inv_def ledger_balance_frame [of d' d])
  moreover have "entries_inv d'" "txs_inv E d'"
    using assms(1) d' by (auto simp: books_def entries_inv_def txs_inv_def simp del: stored_ids)
  ultimately show ?thesis using keys by (simp add: books_def)
qed

lemma update_wallet_frame:
  "update_wallet amt ver upd i v d = Inr (n, d') \<Longrightarrow>
     wager_transactions d' = wager_transactions d \<and> wallet_ledger_entries d' = wallet_ledger_entries d
     \<and> inbox_messages d' = inbox_messages d \<and> outbox_events d' = outbox_events d"
  by (drule update_wallet_rows) simp

lemma books_update_wallet:
  assumes "books E S d" "update_wallet amt ver upd (w_id q) (w_version q) d = Inr (n, d')" "q \<in> set (wallets d)"
  shows "books E (S (w_id q := S (w_id q) + sint amt - sint (w_amount q))) d'"
proof -
  let ?P = "\<lambda>r. w_id r = w_id q \<and> w_version r = w_version q"
  let ?f = "\<lambda>r. r\<lparr>w_amount := amt, w_version := ver, w_updated_at := upd\<rparr>"
  have "q \<in> set (filter ?P (wallets d))" using assms(3) by simp
  then have "filter ?P (wallets d) \<noteq> []" by fastforce
  then have d': "wallets d' = update_where ?P ?f (wallets d)" "wager_transactions d' = wager_transactions d"
    "wallet_ledger_entries d' = wallet_ledger_entries d" and amt: "0 \<le> sint amt"
    using assms(2) by (auto simp: update_wallet_def Let_def refuse_def split: if_splits)
  have ids: "map w_id (wallets d') = map w_id (wallets d)" "map owner_key (wallets d') = map owner_key (wallets d)"
    by (simp_all add: d' map_update_where owner_key_def)
  then have "w_id ` set (wallets d') = w_id ` set (wallets d)" by (metis list.set_map)
  moreover have "wallet_tab.unique d'" "owner_tab.unique d'"
    using assms(1) ids by (simp_all add: books_def keys_inv_def wallet_tab.unique_def owner_tab.unique_def)
  moreover have eq: "r = q" if "r \<in> set (wallets d)" "w_id r = w_id q" for r
    using assms(1,3) that wallet_tab.unique_eq by (auto simp: books_def keys_inv_def)
  have "balance_inv (S (w_id q := S (w_id q) + sint amt - sint (w_amount q))) d'"
    unfolding balance_inv_def
  proof
    fix r' assume "r' \<in> set (wallets d')"
    then obtain r where r: "r \<in> set (wallets d)" "r' = (if ?P r then ?f r else r)"
      by (auto simp: d' set_update_where)
    then have b: "0 \<le> sint (w_amount r)" "sint (w_amount r) = ledger_balance (w_id r) d + S (w_id r)"
      using assms(1) unfolding books_def balance_inv_def by blast+
    show "0 \<le> sint (w_amount r') \<and> sint (w_amount r') = ledger_balance (w_id r') d'
        + (S (w_id q := S (w_id q) + sint amt - sint (w_amount q))) (w_id r')"
    proof (cases "w_id r = w_id q")
      case True
      then have "r = q" using eq r(1) by blast
      then show ?thesis using b(2) r(2) amt d'(3) by (simp add: ledger_balance_frame [of d' d])
    next
      case False
      then have "r' = r" using r(2) by auto
      then show ?thesis using b False d'(3) by (auto simp: ledger_balance_frame [of d' d])
    qed
  qed
  ultimately show ?thesis
    using assms(1) d'
    by (auto simp: books_def keys_inv_def entries_inv_def txs_inv_def tx_tab.unique_def ext_tab.unique_def
        idem_tab.unique_def entry_tab.unique_def movement_tab.unique_def set_update_where)
qed

lemma update_tx_status_ok:
  assumes "update_tx_status st code retry upd i d = Inr d'"
  shows "wager_transactions d' = update_where (\<lambda>r. t_id r = i)
      (\<lambda>r. r\<lparr>t_status := pg_trunc 30 st, t_failure_code := map_option (pg_trunc 50) code,
             t_next_retry_at := retry, t_updated_at := upd\<rparr>) (wager_transactions d)"
    "wallets d' = wallets d" "wallet_ledger_entries d' = wallet_ledger_entries d"
    "inbox_messages d' = inbox_messages d" "outbox_events d' = outbox_events d"
  using update_status_rows [OF assms] by simp_all

text \<open>Only a transaction that waits for its reference is updated, so no entry records it yet.\<close>

lemma books_update_tx_status:
  assumes "books {} S d" "update_tx_status st code retry upd (t_id p) d = Inr d'"
    "p \<in> set (wager_transactions d)" "t_status p = StatusPendingReference"
  shows "books (if pg_trunc 30 st = StatusProcessed then {t_id p} else {}) S d'"
proof -
  let ?P = "\<lambda>r. t_id r = t_id p"
  let ?f = "\<lambda>r. r\<lparr>t_status := pg_trunc 30 st, t_failure_code := map_option (pg_trunc 50) code,
                  t_next_retry_at := retry, t_updated_at := upd\<rparr>"
  have d': "wager_transactions d' = update_where ?P ?f (wager_transactions d)" "wallets d' = wallets d"
    "wallet_ledger_entries d' = wallet_ledger_entries d"
    using update_tx_status_ok [OF assms(2)] by simp_all
  have ids: "map t_id (wager_transactions d') = map t_id (wager_transactions d)"
    "map external_key (wager_transactions d') = map external_key (wager_transactions d)"
    "map t_idempotency_key (wager_transactions d') = map t_idempotency_key (wager_transactions d)"
    by (simp_all add: d' map_update_where external_key_def)
  have eq: "r = p" if "r \<in> set (wager_transactions d)" "t_id r = t_id p" for r
    using assms(1,3) that tx_tab.unique_eq by (auto simp: books_def keys_inv_def)
  have "keys_inv d'"
    using assms(1) ids d'(2,3)
    by (auto simp: books_def keys_inv_def unique_defs d'(1) set_update_where)
  moreover have "balance_inv S d'"
    using assms(1) balance_frame [OF d'(2,3)] by (simp add: books_def)
  moreover have "entries_inv d'"
    unfolding entries_inv_def
  proof
    fix l assume "l \<in> set (wallet_ledger_entries d')"
    then obtain t where l: "ledger_check l" "l_wallet_id l \<in> w_id ` set (wallets d)"
      and t: "t \<in> set (wager_transactions d)" "records l t"
      using assms(1) d'(3) by (auto simp: books_def entries_inv_def)
    have "t \<noteq> p" using t(2) assms(4) by (auto simp: records_def)
    then have "t_id t \<noteq> t_id p" using eq t(1) by blast
    then have "t \<in> set (wager_transactions d')" using t(1) by (auto simp: d' set_update_where)
    then show "ledger_check l \<and> l_wallet_id l \<in> w_id ` set (wallets d')
        \<and> (\<exists>t \<in> set (wager_transactions d'). records l t)"
      using l t(2) d'(2) by auto
  qed
  moreover have "txs_inv (if pg_trunc 30 st = StatusProcessed then {t_id p} else {}) d'"
    using assms eq d'
    by (fastforce simp: books_def txs_inv_def set_update_where moves_money_def)
  ultimately show ?thesis by (simp add: books_def)
qed

text \<open>The entry that closes the books of a transaction and of its wallet.\<close>

lemma books_insert_ledger:
  assumes "books {t_id t} S d" "insert_ledger l d = Inr d'" "t \<in> set (wager_transactions d)"
    "records (stored_ledger l) t"
  shows "books {} (S (t_wallet_id t := S (t_wallet_id t) - (sint (l_balance_after l) - sint (l_balance_before l)))) d'"
proof -
  let ?l = "stored_ledger l"
  have d': "wallets d' = wallets d" "wager_transactions d' = wager_transactions d"
    "wallet_ledger_entries d' = wallet_ledger_entries d @ [?l]"
    and chk: "ledger_check ?l" and wal: "l_wallet_id ?l \<in> w_id ` set (wallets d)"
    using assms(2) by (simp_all add: insert_ledger_Inr)
  have sgn: "signed_amount ?l = sint (l_balance_after l) - sint (l_balance_before l)"
    using ledger_check_signed [OF chk] by simp
  have rec: "l_wallet_id ?l = t_wallet_id t" "l_transaction_id ?l = t_id t"
    using assms(4) by (simp_all only: records_def)
  have "entry_tab.unique d'" "movement_tab.unique d'"
    using assms(1,2) entry_tab.insert_unique movement_tab.insert_unique by (auto simp: books_def keys_inv_def)
  then have "keys_inv d'"
    using assms(1) d' by (simp add: books_def keys_inv_def wallet_tab.unique_def owner_tab.unique_def
        tx_tab.unique_def ext_tab.unique_def idem_tab.unique_def)
  moreover have "entries_inv d'"
    using assms(1,3,4) d' chk wal by (auto simp: books_def entries_inv_def)
  moreover have "balance_inv (S (t_wallet_id t := S (t_wallet_id t)
      - (sint (l_balance_after l) - sint (l_balance_before l)))) d'"
    using assms(1) d' rec(1) by (auto simp: books_def balance_inv_def ledger_balance_append [OF d'(3)] sgn)
  moreover have "txs_inv {} d'"
    using assms(1) d' rec(2) by (auto simp: books_def txs_inv_def)
  ultimately show ?thesis by (simp add: books_def)
qed

end
