(* ===== verification/Outbox_Worker.thy ===== *)
theory Outbox_Worker
  imports Messaging_Repository Config History Ledger_Invariant
begin

text \<open>
  \<open>internal/infrastructure/transport/outbox_worker.go\<close> and the counters of \<open>metrics.go\<close>: a batch of
  pending events is read under a row lock, each is sent to the queue, and its row is marked as published
  or scheduled again, all in one database transaction. The queue is the argument \<open>refuses\<close>: whether its \<open>n\<close>-th
  call of \<open>SendMessage\<close> returns an error. What was sent stays sent when the transaction is rolled back,
  so the messages and the counters are a state of their own, \<open>publisher\<close>, which the errors of the batch do not
  undo. \<open>processPendingEvents\<close> is one tick; \<open>Start\<close> and \<open>Stop\<close> are in \<open>Worker_Loop\<close> and \<open>Service_System\<close>.
\<close>

record metrics =
  MetricsWagersProcessed :: int64
  MetricsSQSErrors :: int64
  MetricsOutboxPublished :: int64
  MetricsOutboxErrors :: int64

record send_message_input =
  QueueUrl :: string
  MessageBody :: string
  MessageGroupId :: "string option"
  MessageDeduplicationId :: "string option"

record publisher =
  send_calls :: nat
  messages_sent :: "send_message_input list"
  counters :: metrics

section \<open>The operations\<close>

definition send_input :: "config \<Rightarrow> outbox_event \<Rightarrow> send_message_input" where
  "send_input cfg event =
     (let fifo = suffix ''.fifo'' (EventsQueueURL cfg) in
      \<lparr>QueueUrl = EventsQueueURL cfg, MessageBody = oe_Payload event,
       MessageGroupId = (if fifo then Some (oe_AggregateID event) else None),
       MessageDeduplicationId = (if fifo then Some (oe_ID event) else None)\<rparr>)"

definition add_outbox_error :: "publisher \<Rightarrow> publisher" where
  "add_outbox_error io = io\<lparr>counters := (counters io)\<lparr>MetricsOutboxErrors := MetricsOutboxErrors (counters io) + 1\<rparr>\<rparr>"

definition add_outbox_published :: "publisher \<Rightarrow> publisher" where
  "add_outbox_published io =
     io\<lparr>counters := (counters io)\<lparr>MetricsOutboxPublished := MetricsOutboxPublished (counters io) + 1\<rparr>\<rparr>"

text \<open>\<open>time.Duration(1<<min(event.Attempts, 6)) * time.Second\<close>, in nanoseconds.\<close>

definition backoff :: "int \<Rightarrow> int" where
  "backoff attempts = 2 ^ nat (min attempts 6) * 1000000000"

text \<open>
  The loop of the closure. Its result is the error with which it returns, if any, and the
  publisher. A shift by a negative count is a run-time panic; the loop ends there.
\<close>

fun publish_events ::
  "runtime \<Rightarrow> config \<Rightarrow> (nat \<Rightarrow> send_message_input \<Rightarrow> bool) \<Rightarrow> pgx_tx \<Rightarrow> outbox_event list \<Rightarrow> publisher
   \<Rightarrow> (goerror option \<times> publisher) action" where
  "publish_events R cfg refuses tx [] io = act_return (None, io)"
| "publish_events R cfg refuses tx (event # events) io =
     (let input = send_input cfg event;
          io1 = io\<lparr>send_calls := Suc (send_calls io)\<rparr>
      in if refuses (send_calls io) input then
           (let io2 = add_outbox_error io1 in
            if oe_Attempts event < 0 then act_return (Some (Panic ''negative shift amount''), io2)
            else act_bind act_now (\<lambda>now.
              act_try (UpdateOutboxRetry R tx (oe_ID event) (now + backoff (oe_Attempts event)) (OutboxMaxAttempts cfg))
                (\<lambda>err. act_return (Some err, io2))
                (\<lambda>_. publish_events R cfg refuses tx events io2)))
         else
           (let io2 = io1\<lparr>messages_sent := messages_sent io1 @ [input]\<rparr> in
            act_try (MarkOutboxAsPublished R tx (oe_ID event))
              (\<lambda>err. act_return (Some err, io2))
              (\<lambda>_. publish_events R cfg refuses tx events (add_outbox_published io2))))"

definition publish_batch ::
  "runtime \<Rightarrow> config \<Rightarrow> (nat \<Rightarrow> send_message_input \<Rightarrow> bool) \<Rightarrow> (string \<Rightarrow> bool) \<Rightarrow> publisher \<Rightarrow> pgx_tx
   \<Rightarrow> (goerror option \<times> publisher) action" where
  "publish_batch R cfg refuses locked io tx =
     act_try (FindPendingOutboxEvents R locked tx 10)
       (\<lambda>err. act_return (Some err, io))
       (\<lambda>events. publish_events R cfg refuses tx events io)"

definition publish_closure ::
  "runtime \<Rightarrow> config \<Rightarrow> (nat \<Rightarrow> send_message_input \<Rightarrow> bool) \<Rightarrow> (string \<Rightarrow> bool) \<Rightarrow> publisher \<Rightarrow> pgx_tx \<Rightarrow> unit action" where
  "publish_closure R cfg refuses locked io tx =
     act_bind (publish_batch R cfg refuses locked io tx)
       (\<lambda>(err, _). case err of Some e \<Rightarrow> act_fail e | None \<Rightarrow> act_return ())"

text \<open>What the closure did outside the database.\<close>

definition publisher_after ::
  "runtime \<Rightarrow> config \<Rightarrow> (nat \<Rightarrow> send_message_input \<Rightarrow> bool) \<Rightarrow> (string \<Rightarrow> bool) \<Rightarrow> txenv \<Rightarrow> publisher \<Rightarrow> database \<Rightarrow> publisher" where
  "publisher_after R cfg refuses locked X io d =
     (if begin_fault X \<noteq> None then io
      else case fst (publish_batch R cfg refuses locked io live_tx X
          \<lparr>db = d, aborted = False, stmts = 0, ticks = 0\<rparr>) of
        Inr (_, io') \<Rightarrow> io'
      | Inl _ \<Rightarrow> io)"

definition processPendingEvents ::
  "runtime \<Rightarrow> config \<Rightarrow> (nat \<Rightarrow> send_message_input \<Rightarrow> bool) \<Rightarrow> (string \<Rightarrow> bool) \<Rightarrow> txenv \<Rightarrow> publisher \<Rightarrow> database
   \<Rightarrow> publisher \<times> database" where
  "processPendingEvents R cfg refuses locked X io d =
     (let io' = publisher_after R cfg refuses locked X io d in
      case ExecuteInTransaction X 0 (publish_closure R cfg refuses locked io) d of
        (Inl err, d') \<Rightarrow> (add_outbox_error io', d')
      | (Inr _, d') \<Rightarrow> (io', d'))"

section \<open>The backoff\<close>

lemma backoff_bounds:
  assumes "0 \<le> a"
  shows "1000000000 \<le> backoff a" "backoff a \<le> 64000000000"
proof -
  have "nat (min a 6) \<le> 6" by linarith
  then have "(2::int) ^ nat (min a 6) \<le> 2 ^ 6" by (intro power_increasing) simp_all
  then show "1000000000 \<le> backoff a" "backoff a \<le> 64000000000" by (simp_all add: backoff_def)
qed

lemma backoff_mono: "a \<le> b \<Longrightarrow> backoff a \<le> backoff b"
  by (simp add: backoff_def power_increasing nat_mono min.coboundedI1 min_le_iff_disj)

section \<open>What a batch does to the database\<close>

definition only_outbox :: "database \<Rightarrow> database \<Rightarrow> bool" where
  "only_outbox d d' \<longleftrightarrow>
     wallets d' = wallets d \<and> wager_transactions d' = wager_transactions d
     \<and> wallet_ledger_entries d' = wallet_ledger_entries d \<and> inbox_messages d' = inbox_messages d
     \<and> map event_identity (outbox_events d') = map event_identity (outbox_events d)"

interpretation outb: frame only_outbox
  by unfold_locales (auto simp: only_outbox_def)

lemma outbox_operations:
  "outb.keeps (FindPendingOutboxEvents R locked tx n)" "outb.keeps (MarkOutboxAsPublished R tx i)"
  "outb.keeps (UpdateOutboxRetry R tx i t m)"
  by (auto simp: FindPendingOutboxEvents_def MarkOutboxAsPublished_def UpdateOutboxRetry_def only_outbox_def
      map_update_where event_identity_def publish_row_def retry_row_def refuse_def
      intro!: outb.keeps_rules outb.keeps_exec split: if_splits)

lemma publish_events_frame: "outb.keeps (publish_events R cfg refuses tx es io)"
  by (induction es arbitrary: io)
    (auto simp: Let_def intro!: outb.keeps_rules outbox_operations)

lemma publish_closure_frame: "outb.keeps (publish_closure R cfg refuses locked io tx)"
  by (auto simp: publish_closure_def publish_batch_def
      intro!: outb.keeps_rules outbox_operations publish_events_frame split: option.splits)

lemma processPendingEvents_frame:
  assumes "processPendingEvents R cfg refuses locked X io d = (io', d')"
  shows "only_outbox d d'"
proof -
  obtain r where "ExecuteInTransaction X 0 (publish_closure R cfg refuses locked io) d = (r, d')"
    using assms by (auto simp: processPendingEvents_def Let_def split: prod.splits sum.splits)
  then show ?thesis by (rule outb.keeps_execute [OF publish_closure_frame])
qed

lemma only_outbox_history: "only_outbox d d' \<Longrightarrow> history d d'"
  by (simp add: only_outbox_def history_def)

lemma only_outbox_ledger: "only_outbox d d' \<Longrightarrow> ledger_inv d \<Longrightarrow> ledger_inv d'"
  unfolding ledger_inv_def by (rule books_frame) (simp_all add: only_outbox_def)

section \<open>What a batch does to the rows\<close>

text \<open>
  A row of the batch after a committed batch: published, and then its message was sent; or scheduled again
  after the backoff for its attempts so far, and given up after the last attempt.
\<close>

definition touched :: "runtime \<Rightarrow> config \<Rightarrow> publisher \<Rightarrow> outbox_row \<Rightarrow> outbox_row \<Rightarrow> bool" where
  "touched R cfg io r r' \<longleftrightarrow>
     (\<exists>now. r' = publish_row (store_time R now) r) \<and> send_input cfg (event_of_row r) \<in> set (messages_sent io)
     \<or> (\<exists>now. r' = retry_row (store_time R (now + backoff (o_attempts r))) (OutboxMaxAttempts cfg) r)"

definition batch_effect :: "runtime \<Rightarrow> config \<Rightarrow> string set \<Rightarrow> publisher \<Rightarrow> outbox_row list \<Rightarrow> outbox_row list \<Rightarrow> bool" where
  "batch_effect R cfg ids io = list_all2 (\<lambda>r r'. if o_id r \<in> ids then touched R cfg io r r' else r' = r)"

lemma touched_mono: "touched R cfg io r r' \<Longrightarrow> set (messages_sent io) \<subseteq> set (messages_sent io') \<Longrightarrow> touched R cfg io' r r'"
  by (auto simp: touched_def)

lemma touched_id: "touched R cfg io r r' \<Longrightarrow> o_id r' = o_id r"
  by (auto simp: touched_def publish_row_def retry_row_def)

lemma batch_effect_none: "batch_effect R cfg {} io rs rs"
  by (simp add: batch_effect_def list_all2_refl)

lemma batch_effect_step:
  assumes "batch_effect R cfg ids io rs' rs''" "i \<notin> ids"
    "rs' = update_where (\<lambda>r. o_id r = i) f rs" "\<And>r. r \<in> set rs \<Longrightarrow> o_id r = i \<Longrightarrow> touched R cfg io r (f r)"
  shows "batch_effect R cfg (insert i ids) io rs rs''"
  using assms
  by (auto simp: batch_effect_def update_where_def list_all2_conv_all_nth touched_id split: if_splits)
    (metis nth_mem touched_id)+

lemma mark_row:
  "MarkOutboxAsPublished R live_tx i X s = (Inr u, s') \<Longrightarrow>
     \<exists>now. db s' = (db s)\<lparr>outbox_events := update_where (\<lambda>r. o_id r = i) (publish_row (store_time R now)) (outbox_events (db s))\<rparr>"
  by (auto simp: MarkOutboxAsPublished_def act_inr refuse_def split: if_splits)

lemma retry_rows:
  "UpdateOutboxRetry R live_tx i t m X s = (Inr u, s') \<Longrightarrow>
     db s' = (db s)\<lparr>outbox_events := update_where (\<lambda>r. o_id r = i) (retry_row (store_time R t) m) (outbox_events (db s))\<rparr>"
  by (auto simp: UpdateOutboxRetry_def act_inr refuse_def split: if_splits)

lemma publish_event_cases:
  assumes "publish_events R cfg refuses live_tx (e # es) io X s = (Inr (None, io'), s')"
  obtains io1 s1 f where "publish_events R cfg refuses live_tx es io1 X s1 = (Inr (None, io'), s')"
    "outbox_events (db s1) = update_where (\<lambda>r. o_id r = oe_ID e) f (outbox_events (db s))"
    "set (messages_sent io) \<subseteq> set (messages_sent io1)"
    "(\<exists>now. f = publish_row (store_time R now)) \<and> send_input cfg e \<in> set (messages_sent io1)
      \<or> (\<exists>now. f = retry_row (store_time R (now + backoff (oe_Attempts e))) (OutboxMaxAttempts cfg))"
proof (cases "refuses (send_calls io) (send_input cfg e)")
  case True
  let ?io = "add_outbox_error (io\<lparr>send_calls := Suc (send_calls io)\<rparr>)"
  let ?now = "clock X (ticks s)"
  obtain s1 where u: "UpdateOutboxRetry R live_tx (oe_ID e) (?now + backoff (oe_Attempts e)) (OutboxMaxAttempts cfg) X
      (s\<lparr>ticks := Suc (ticks s)\<rparr>) = (Inr (), s1)"
    and rest: "publish_events R cfg refuses live_tx es ?io X s1 = (Inr (None, io'), s')"
    using assms True by (auto simp: Let_def act_bind_Inr act_now_Inr act_try_Inr act_return_Inr split: if_splits)
  show ?thesis
    by (rule that [OF rest]) (use retry_rows [OF u] in \<open>auto simp: add_outbox_error_def\<close>)
next
  case False
  let ?io = "io\<lparr>send_calls := Suc (send_calls io), messages_sent := messages_sent io @ [send_input cfg e]\<rparr>"
  obtain s1 where m: "MarkOutboxAsPublished R live_tx (oe_ID e) X s = (Inr (), s1)"
    and rest: "publish_events R cfg refuses live_tx es (add_outbox_published ?io) X s1 = (Inr (None, io'), s')"
    using assms False by (auto simp: Let_def act_try_Inr act_return_Inr)
  obtain now where now: "db s1 = (db s)\<lparr>outbox_events := update_where (\<lambda>r. o_id r = oe_ID e) (publish_row (store_time R now))
      (outbox_events (db s))\<rparr>" using mark_row [OF m] by blast
  show ?thesis
    by (rule that [OF rest, of "publish_row (store_time R now)"]) (use now in \<open>auto simp: add_outbox_published_def\<close>)
qed

lemma publish_events_effect:
  assumes "publish_events R cfg refuses live_tx es io X s = (Inr (None, io'), s')"
    "distinct (map oe_ID es)"
    "\<And>e r. e \<in> set es \<Longrightarrow> r \<in> set (outbox_events (db s)) \<Longrightarrow> o_id r = oe_ID e \<Longrightarrow> event_of_row r = e"
  shows "batch_effect R cfg (oe_ID ` set es) io' (outbox_events (db s)) (outbox_events (db s'))
     \<and> set (messages_sent io) \<subseteq> set (messages_sent io')"
  using assms
proof (induction es arbitrary: io s)
  case Nil
  then show ?case by (simp add: act_return_Inr batch_effect_none)
next
  case (Cons e es)
  obtain io1 s1 f where rest: "publish_events R cfg refuses live_tx es io1 X s1 = (Inr (None, io'), s')"
    and rows: "outbox_events (db s1) = update_where (\<lambda>r. o_id r = oe_ID e) f (outbox_events (db s))"
    and msgs: "set (messages_sent io) \<subseteq> set (messages_sent io1)"
    and f: "(\<exists>now. f = publish_row (store_time R now)) \<and> send_input cfg e \<in> set (messages_sent io1)
      \<or> (\<exists>now. f = retry_row (store_time R (now + backoff (oe_Attempts e))) (OutboxMaxAttempts cfg))"
    using Cons.prems(1) by (rule publish_event_cases)
  have new: "oe_ID e \<notin> oe_ID ` set es" using Cons.prems(2) by simp
  have "event_of_row r = e'" if e': "e' \<in> set es" "r \<in> set (outbox_events (db s1))" "o_id r = oe_ID e'" for e' r
  proof -
    obtain r0 where r0: "r0 \<in> set (outbox_events (db s))" "r = (if o_id r0 = oe_ID e then f r0 else r0)"
      using e'(2) by (auto simp: rows set_update_where)
    have "o_id r \<noteq> oe_ID e" using e' new by (metis image_eqI)
    then have "r = r0" using r0(2) f by (auto simp: publish_row_def retry_row_def split: if_splits)
    then show ?thesis using Cons.prems(3) e' r0(1) by simp
  qed
  then have ih: "batch_effect R cfg (oe_ID ` set es) io' (outbox_events (db s1)) (outbox_events (db s'))"
    "set (messages_sent io1) \<subseteq> set (messages_sent io')"
    using Cons.IH [OF rest] Cons.prems(2) by auto
  have "touched R cfg io' r (f r)" if "r \<in> set (outbox_events (db s))" "o_id r = oe_ID e" for r
  proof -
    have "event_of_row r = e" using Cons.prems(3) that by simp
    moreover from this have "oe_Attempts e = o_attempts r" by (auto simp: event_of_row_def)
    ultimately show ?thesis using f ih(2) by (auto simp: touched_def)
  qed
  then show ?case
    using batch_effect_step [OF ih(1) new rows] ih(2) msgs by auto
qed

lemma find_events_ok:
  assumes "FindPendingOutboxEvents R locked live_tx n X s = (Inr es, s')"
  shows "db s' = db s \<and> (\<exists>now. es = map event_of_row (due_events R locked now n (db s)))"
  using assms by (auto simp: FindPendingOutboxEvents_def act_inr)

lemma due_events_mem: "r \<in> set (due_events R locked now n d) \<Longrightarrow>
    r \<in> set (outbox_events d) \<and> o_status r = ''PENDING'' \<and> o_next_send_at r \<le> store_time R now \<and> \<not> locked (o_id r)"
  by (auto simp: due_events_def dest!: in_set_takeD)

lemma distinct_due_events:
  assumes "outbox_tab.unique d"
  shows "distinct (map o_id (due_events R locked now n d))"
proof -
  let ?due = "filter (\<lambda>r. o_status r = ''PENDING'' \<and> o_next_send_at r \<le> store_time R now \<and> \<not> locked (o_id r)) (outbox_events d)"
  have "distinct (map o_id ?due)" using assms by (simp add: outbox_tab.unique_def distinct_map_filter)
  then have "distinct (map o_id (sort_key o_next_send_at ?due))" by (simp add: distinct_map)
  then show ?thesis by (simp add: due_events_def flip: take_map)
qed

lemma length_due_events: "length (due_events R locked now n d) \<le> n"
  by (simp add: due_events_def)

lemma processPendingEvents_effect:
  assumes run: "processPendingEvents R cfg refuses locked X io d = (io', d')" and u: "outbox_tab.unique d"
  shows "d' = d \<or> (\<exists>now io1. batch_effect R cfg (o_id ` set (due_events R locked now 10 d)) io1
     (outbox_events d) (outbox_events d') \<and> set (messages_sent io1) \<subseteq> set (messages_sent io'))"
proof -
  let ?s = "start_session d 0"
  obtain r where x: "ExecuteInTransaction X 0 (publish_closure R cfg refuses locked io) d = (r, d')"
    and io': "messages_sent io' = messages_sent (publisher_after R cfg refuses locked X io d)"
    using run by (auto simp: processPendingEvents_def Let_def add_outbox_error_def split: prod.splits sum.splits)
  from x show ?thesis
  proof (rule Execute_cases)
    fix a s assume "publish_closure R cfg refuses locked io live_tx X ?s = (Inr a, s)" and d': "d' = db s"
    then obtain io1 where b: "publish_batch R cfg refuses locked io live_tx X ?s = (Inr (None, io1), s)"
      by (auto simp: publish_closure_def act_bind_Inr act_return_Inr act_fail_Inr split: option.splits)
    have io1: "d' = d \<or> messages_sent io' = messages_sent io1"
    proof (cases "begin_fault X")
      case None
      then show ?thesis using io' b by (simp add: publisher_after_def start_session_def)
    next
      case (Some c)
      then show ?thesis using x by (simp add: ExecuteInTransaction_def)
    qed
    obtain es s1 where es: "FindPendingOutboxEvents R locked live_tx 10 X ?s = (Inr es, s1)"
      and p: "publish_events R cfg refuses live_tx es io X s1 = (Inr (None, io1), s)"
      using b by (auto simp: publish_batch_def act_try_Inr act_return_Inr)
    obtain now where now: "db s1 = d" "es = map event_of_row (due_events R locked now 10 d)"
      using find_events_ok [OF es] by auto
    have ids: "oe_ID (event_of_row r) = o_id r" for r by (simp add: event_of_row_def)
    have "event_of_row r = e" if e: "e \<in> set es" "r \<in> set (outbox_events d)" "o_id r = oe_ID e" for e r
    proof -
      obtain r0 where r0: "r0 \<in> set (due_events R locked now 10 d)" "e = event_of_row r0" using e(1) now(2) by auto
      then have "r0 = r" using outbox_tab.unique_eq [OF u] due_events_mem [OF r0(1)] e(2,3) ids by simp
      then show ?thesis using r0(2) by simp
    qed
    moreover have "distinct (map oe_ID es)"
      using distinct_due_events [OF u] by (simp add: now(2) ids comp_def)
    ultimately have "batch_effect R cfg (oe_ID ` set es) io1 (outbox_events d) (outbox_events d')"
      using publish_events_effect [OF p] now(1) d' by auto
    moreover have "oe_ID ` set es = o_id ` set (due_events R locked now 10 d)"
      by (simp add: now(2) image_image ids)
    ultimately show ?thesis using io1 by (metis order_refl)
  qed simp
qed

end
