(* ===== verification/Ledger_Safety.thy ===== *)
theory Ledger_Safety
  imports Ledger_Invariant
begin

text \<open>
  The use cases keep the books. First what a successful call of a repository operation did to the
  working copy (collection \<open>op_ok\<close>), then the parts of the use cases one by one, then the bodies of the three
  database transactions that write to the ledger, as interpretations of \<open>invariant_body\<close>.
\<close>

section \<open>Successful repository operations\<close>

named_theorems op_ok \<open>what a successful operation did to the working copy of its session\<close>

lemma live_cases: "tx = live_tx \<or> tx = None" for tx :: pgx_tx
  by (cases tx) auto

lemma Tx_Save_ok [op_ok]:
  "SaveWithRetryAt R live_tx w retry X s = (Inr u, s') \<Longrightarrow> insert_tx (tx_row_of R w retry) (db s) = Inr (db s')"
  by (auto simp: SaveWithRetryAt_def act_try_Inr act_inr split: if_splits)

lemma Tx_Save_fails:
  "SaveWithRetryAt R live_tx w retry X s = (Inl e, s') \<Longrightarrow> aborted s' \<and> db s' = db s"
  by (auto simp: SaveWithRetryAt_def act_try_def act_fail_def act_return_def
      split: prod.splits sum.splits if_splits dest!: sql_exec_Inl)

lemma UpdateStatus_ok [op_ok]:
  "UpdateStatusWithRetryAt R live_tx w retry X s = (Inr u, s') \<Longrightarrow>
     update_tx_status (status w) (null_if_empty (failureCode w)) (map_option (store_time R) retry)
       (store_time R (updatedAt w)) (txid w) (db s) = Inr (db s')"
  by (auto simp: UpdateStatusWithRetryAt_def act_inr)

lemma Wallet_Update_ok [op_ok]:
  "Wallet_Update R live_tx w v X s = (Inr u, s') \<Longrightarrow>
     \<exists>n. 0 < n \<and> update_wallet (amount (balance w)) (version w) (store_time R (wupdatedAt w)) (wid w) v (db s)
            = Inr (n, db s')"
  by (auto simp: Wallet_Update_def act_inr split: if_splits)

lemma SaveLedgerEntry_ok [op_ok]:
  "SaveLedgerEntry R live_tx e X s = (Inr u, s') \<Longrightarrow>
     \<exists>now. insert_ledger (ledger_row_of R now e) (db s) = Inr (db s')"
  by (auto simp: SaveLedgerEntry_def act_inr)

lemma Wallet_Save_ok [op_ok]:
  "Wallet_Save R live_tx w X s = (Inr u, s') \<Longrightarrow> insert_wallet (wallet_row_of R w) (db s) = Inr (db s')"
  by (auto simp: Wallet_Save_def act_inr)

lemma SaveOutbox_ok [op_ok]:
  "SaveOutbox R live_tx e X s = (Inr u, s') \<Longrightarrow> insert_outbox (outbox_row_of R e) (db s) = Inr (db s')"
  by (auto simp: SaveOutbox_def act_inr)

lemma SaveInbox_ok [op_ok]:
  "SaveInbox live_tx c m h X s = (Inr u, s') \<Longrightarrow>
     insert_inbox \<lparr>i_message_id = m, i_consumer_name = c, i_payload_hash = h\<rparr> (db s) = Inr (db s')"
  by (auto simp: SaveInbox_def act_try_Inr act_inr split: if_splits)

lemma SaveInbox_fails: "SaveInbox live_tx c m h X s = (Inl e, s') \<Longrightarrow> aborted s' \<and> db s' = db s"
  by (auto simp: SaveInbox_def act_try_def act_fail_def act_return_def
      split: prod.splits sum.splits if_splits dest!: sql_exec_Inl)

text \<open>The wallet that is read back, and the row it comes from.\<close>

lemma FindByIDWithLock_ok:
  assumes "FindByIDWithLock R live_tx i X s = (Inr w, s')"
  obtains q where "db s' = db s" "q \<in> set (wallets (db s))" "w_id q = i" "wid w = i"
    "amount (balance w) = w_amount q" "version w = w_version q" "wallet_of_row R q = Inr w"
    "wallet_by_id i (db s) = Some q"
proof -
  obtain q where "db s' = db s" "wallet_by_id i (db s) = Some q" "wallet_of_row R q = Inr w"
    using assms by (auto simp: FindByIDWithLock_def act_inr split: option.splits)
  moreover from this(2) have "q \<in> set (wallets (db s))" "w_id q = i"
    by (auto simp: wallet_by_id_def dest: find_SomeD)
  ultimately show ?thesis
    using that by (auto simp: wallet_of_row_def inr_dest NewInternalMoney_def)
qed

lemma find_tx_ok [op_ok]:
  "FindByExternalIDTx R live_tx p e X s = (Inr t, s') \<Longrightarrow> db s' = db s \<and> t = map_option (scan_tx R) (tx_by_external p e (db s))"
  "FindByIdempotencyKey R live_tx k X s = (Inr t, s') \<Longrightarrow> db s' = db s \<and> t = map_option (scan_tx R) (tx_by_key k (db s))"
  "FindByIDForUpdate R live_tx i X s = (Inr t, s') \<Longrightarrow> db s' = db s \<and> t = map_option (scan_tx R) (tx_by_id i (db s))"
  by (auto simp: FindByExternalIDTx_def FindByIdempotencyKey_def FindByIDForUpdate_def scanOne_def act_inr)

text \<open>Reading takes no reading of the clock.\<close>

lemma find_ticks:
  "FindByExternalIDTx R live_tx p e X s = (Inr t, s') \<Longrightarrow> ticks s' = ticks s"
  "FindByIDForUpdate R live_tx i X s = (Inr t, s') \<Longrightarrow> ticks s' = ticks s"
  "FindByIDWithLock R live_tx i X s = (Inr w, s') \<Longrightarrow> ticks s' = ticks s"
  by (auto simp: FindByExternalIDTx_def FindByIDForUpdate_def FindByIDWithLock_def scanOne_def act_inr split: option.splits)

lemma lookupExisting_ok [op_ok]:
  "lookupExisting R live_tx input h X s = (Inr t, s') \<Longrightarrow> db s' = db s"
  by (auto simp: lookupExisting_def act_inr split: option.splits if_splits dest!: find_tx_ok)

lemma replay_ok [op_ok]: "replay R live_tx t X s = (Inr oc, s') \<Longrightarrow> db s' = db s"
  by (auto simp: replay_def act_inr elim!: FindByIDWithLock_ok)

lemma handleSaveConflict_ok [op_ok]:
  "handleSaveConflict R live_tx input t e X s = (Inr oc, s') \<Longrightarrow> db s' = db s"
  by (auto simp: handleSaveConflict_def act_inr split: if_splits option.splits dest!: op_ok)

lemma duplicate_message_ok [op_ok]:
  "duplicate_message R live_tx input t X s = (Inr oc, s') \<Longrightarrow> db s' = db s"
  by (auto simp: duplicate_message_def act_inr split: option.splits elim!: FindByIDWithLock_ok dest!: op_ok)

lemma saveOutboxEvent_ok [op_ok]:
  "saveOutboxEvent R live_tx a n p X s = (Inr u, s') \<Longrightarrow> \<exists>r. insert_outbox r (db s) = Inr (db s')"
  by (auto simp: saveOutboxEvent_def act_inr dest!: SaveOutbox_ok)

lemma saveOutbox_ok [op_ok]:
  "saveOutbox R live_tx a n p X s = (Inr u, s') \<Longrightarrow> \<exists>r. insert_outbox r (db s) = Inr (db s')"
  by (auto simp: saveOutbox_def act_inr dest!: SaveOutbox_ok)

lemma books_event:
  assumes "saveOutboxEvent R live_tx a n p X s = (Inr u, s')" "books E S (db s)"
  shows "books E S (db s')"
  using saveOutboxEvent_ok [OF assms(1)] books_outbox [OF assms(2)] by blast

section \<open>The rows of a transaction and its entry\<close>

lemma ascii_trunc: "is_ascii s \<Longrightarrow> length s \<le> n \<Longrightarrow> pg_trunc n s = s"
  by (simp add: char_count_ascii)

lemma trunc_status [simp]:
  "pg_trunc 30 StatusProcessed = StatusProcessed" "pg_trunc 30 StatusRejected = StatusRejected"
  "pg_trunc 30 StatusPendingReference = StatusPendingReference"
  by (rule ascii_trunc, simp_all add: status_defs is_ascii_def byte_val_def)+

lemma trunc_kind [simp]:
  "pg_trunc 20 KindBet = KindBet" "pg_trunc 20 KindWin = KindWin" "pg_trunc 20 KindLoss = KindLoss"
  "pg_trunc 20 KindRefund = KindRefund" "pg_trunc 20 KindRollback = KindRollback"
  "pg_trunc 20 KindOpening = KindOpening"
  by (rule ascii_trunc, simp_all add: kind_defs is_ascii_def byte_val_def)+

lemma trunc_direction [simp]: "pg_trunc 6 ''DEBIT'' = ''DEBIT''" "pg_trunc 6 ''CREDIT'' = ''CREDIT''"
  by (rule ascii_trunc, simp_all add: is_ascii_def byte_val_def)+

lemma stored_tx_row:
  "t_id (stored_tx (tx_row_of R t retry)) = pg_trunc 64 (txid t)"
  "t_wallet_id (stored_tx (tx_row_of R t retry)) = pg_trunc 64 (walletID t)"
  "t_amount (stored_tx (tx_row_of R t retry)) = amount (wmoney t)"
  "t_status (stored_tx (tx_row_of R t retry)) = pg_trunc 30 (status t)"
  "t_kind (stored_tx (tx_row_of R t retry)) = pg_trunc 20 (kind t)"
  by (simp_all add: tx_row_of_def)

lemma stored_entry_row:
  "l_transaction_id (stored_ledger (ledger_row_of R now (ledger_entry_for t w dir b))) = pg_trunc 64 (txid t)"
  "l_wallet_id (stored_ledger (ledger_row_of R now (ledger_entry_for t w dir b))) = pg_trunc 64 (wid w)"
  "l_amount (stored_ledger (ledger_row_of R now (ledger_entry_for t w dir b))) = amount (wmoney t)"
  "l_direction (stored_ledger (ledger_row_of R now (ledger_entry_for t w dir b))) = pg_trunc 6 dir"
  "l_balance_before (ledger_row_of R now (ledger_entry_for t w dir b)) = b"
  "l_balance_after (ledger_row_of R now (ledger_entry_for t w dir b)) = amount (balance w)"
  by (simp_all add: ledger_row_of_def ledger_entry_for_def)

section \<open>The movement of money\<close>

text \<open>The update of the wallet followed by the entry, on books where the transaction is stored.\<close>

lemma books_movement:
  assumes "books {t_id t} (\<lambda>i. 0) (db s)" "q \<in> set (wallets (db s))" "t \<in> set (wager_transactions (db s))"
    and wal: "wid w = w_id q" "pg_trunc 64 (w_id q) = t_wallet_id t" "t_wallet_id t = w_id q"
    and tx: "pg_trunc 64 (txid p) = t_id t" "amount (wmoney p) = t_amount t"
      "t_status t = StatusProcessed" "t_kind t \<noteq> KindLoss"
    and dir: "dir = (if t_kind t = KindBet then ''DEBIT'' else ''CREDIT'')"
    and mv: "move_funds R live_tx p w dir (w_version q) (w_amount q) X s = (Inr u, s2)"
  shows "ledger_inv (db s2)"
proof -
  obtain s1 where upd: "Wallet_Update R live_tx w (w_version q) X s = (Inr (), s1)"
    and ent: "SaveLedgerEntry R live_tx (ledger_entry_for p w dir (w_amount q)) X s1 = (Inr u, s2)"
    using mv by (auto simp: move_funds_def act_bind_Inr)
  let ?S = "(\<lambda>i. 0 :: int)(w_id q := sint (amount (balance w)) - sint (w_amount q))"
  obtain n where n: "update_wallet (amount (balance w)) (version w) (store_time R (wupdatedAt w)) (w_id q)
      (w_version q) (db s) = Inr (n, db s1)"
    using Wallet_Update_ok [OF upd] wal(1) by auto
  have b1: "books {t_id t} ?S (db s1)"
    using books_update_wallet [OF assms(1) n assms(2)] by simp
  obtain now where l: "insert_ledger (ledger_row_of R now (ledger_entry_for p w dir (w_amount q))) (db s1) = Inr (db s2)"
    using SaveLedgerEntry_ok [OF ent] by auto
  have t1: "t \<in> set (wager_transactions (db s1))"
    using update_wallet_frame [OF n] assms(3) by simp
  have rec: "records (stored_ledger (ledger_row_of R now (ledger_entry_for p w dir (w_amount q)))) t"
    using tx wal dir by (simp add: records_def stored_entry_row del: stored_ids)
  show ?thesis
    using books_insert_ledger [OF b1 l t1 rec] wal
    by (simp add: ledger_inv_def stored_entry_row fun_upd_idem)
qed


text \<open>Storing the transaction first.\<close>

lemma books_save:
  assumes "SaveWithRetryAt R live_tx t retry X s = (Inr u, s')" "ledger_inv (db s)"
    "status t = StatusPendingReference \<Longrightarrow> kind t \<in> {KindRefund, KindRollback}"
    "status t \<in> {StatusProcessed, StatusRejected, StatusPendingReference}"
    "kind t \<in> {KindOpening, KindBet, KindWin, KindLoss, KindRefund, KindRollback}"
  shows "books (if status t = StatusProcessed \<and> kind t \<noteq> KindLoss then {pg_trunc 64 (txid t)} else {}) (\<lambda>i. 0) (db s')"
    "stored_tx (tx_row_of R t retry) \<in> set (wager_transactions (db s'))"
    "t_wallet_id (stored_tx (tx_row_of R t retry)) = pg_trunc 64 (walletID t)"
    "wallets (db s') = wallets (db s)"
proof -
  have ins: "insert_tx (tx_row_of R t retry) (db s) = Inr (db s')" using assms(1) by (rule Tx_Save_ok)
  have st: "t_status (stored_tx (tx_row_of R t retry)) = status t" "t_kind (stored_tx (tx_row_of R t retry)) = kind t"
    using assms(4,5) unfolding stored_tx_row by auto
  show "books (if status t = StatusProcessed \<and> kind t \<noteq> KindLoss then {pg_trunc 64 (txid t)} else {}) (\<lambda>i. 0) (db s')"
    using books_insert_tx [OF _ ins, of "\<lambda>i. 0"] assms(2,3) st
    by (auto simp: ledger_inv_def moves_money_def stored_tx_row(1) simp del: stored_ids split: if_splits)
  show "stored_tx (tx_row_of R t retry) \<in> set (wager_transactions (db s'))" "wallets (db s') = wallets (db s)"
    using ins unfolding insert_tx_Inr by auto
qed (rule stored_tx_row)

text \<open>A failed insertion that is resolved as a conflict writes nothing.\<close>

lemma save_or_conflict:
  assumes "act_try (SaveWithRetryAt R live_tx t retry) (handleSaveConflict R live_tx input t') f X s = (Inr oc, s')"
  obtains "db s' = db s"
  | s1 where "SaveWithRetryAt R live_tx t retry X s = (Inr (), s1)" "f () X s1 = (Inr oc, s')"
proof (cases "SaveWithRetryAt R live_tx t retry X s")
  case (Pair r s1)
  show ?thesis
  proof (cases r)
    case (Inl e)
    then have "handleSaveConflict R live_tx input t' e X s1 = (Inr oc, s')"
      using assms Pair by (simp add: act_try_def)
    then have "db s' = db s1" by (rule handleSaveConflict_ok)
    moreover have "db s1 = db s" using Pair Inl by (auto dest: Tx_Save_fails)
    ultimately show ?thesis using that(1) by simp
  next
    case (Inr u)
    then show ?thesis using that(2) assms Pair by (simp add: act_try_def)
  qed
qed

lemma event_keeps: "saveOutboxEvent R live_tx a n p X s = (Inr u, s') \<Longrightarrow> ledger_inv (db s) \<Longrightarrow> ledger_inv (db s')"
  unfolding ledger_inv_def by (rule books_event)

lemma finish_keeps:
  assumes "ledger_inv (db s)" "SaveWithRetryAt R live_tx p None X s = (Inr u, s1)"
    and q: "q \<in> set (wallets (db s))" "wid w = w_id q" "walletID p = w_id q"
    and p: "status p = StatusProcessed" "kind p \<in> {KindOpening, KindBet, KindWin, KindLoss, KindRefund, KindRollback}"
    and upd: "updateWallet \<longleftrightarrow> kind p \<noteq> KindLoss"
    and dir: "updateWallet \<Longrightarrow> dir = (if kind p = KindBet then ''DEBIT'' else ''CREDIT'')"
    and fin: "finish R live_tx p w dir updateWallet (w_version q) (w_amount q) X s1 = (Inr oc, s')"
  shows "ledger_inv (db s')"
proof -
  let ?t = "stored_tx (tx_row_of R p None)"
  have b1: "books (if kind p \<noteq> KindLoss then {t_id ?t} else {}) (\<lambda>i. 0) (db s1)"
    and t1: "?t \<in> set (wager_transactions (db s1))" "wallets (db s1) = wallets (db s)"
    using books_save [OF assms(2,1)] p unfolding stored_tx_row by auto
  have st: "pg_trunc 64 (w_id q) = w_id q"
    using assms(1) q(1) by (simp add: ledger_inv_def books_def keys_inv_def)
  have k: "t_kind ?t = kind p" using p(2) unfolding stored_tx_row by auto
  obtain s2 where s2: "(if updateWallet then
          act_bind (move_funds R live_tx p w dir (w_version q) (w_amount q)) (\<lambda>_.
          saveOutboxEvent R live_tx (wid w) ''WalletBalanceChanged'' (balance_changed_payload R p w dir (w_amount q)))
        else act_return ()) X s1 = (Inr (), s2)"
    and s3: "saveOutboxEvent R live_tx (txid p) ''WagerTransactionProcessed'' (marshal_opaque_struct p) X s2 = (Inr (), s')"
    using fin by (auto simp: finish_def act_bind_Inr act_return_Inr)
  have "ledger_inv (db s2)"
  proof (cases updateWallet)
    case False
    then show ?thesis using s2 b1 upd by (simp add: act_return_Inr ledger_inv_def)
  next
    case True
    then obtain s3 where mv: "move_funds R live_tx p w dir (w_version q) (w_amount q) X s1 = (Inr (), s3)"
      and ev: "saveOutboxEvent R live_tx (wid w) ''WalletBalanceChanged''
          (balance_changed_payload R p w dir (w_amount q)) X s3 = (Inr (), s2)"
      using s2 by (auto simp: act_bind_Inr)
    have "books {t_id ?t} (\<lambda>i. 0) (db s1)" using b1 True upd by simp
    then have "ledger_inv (db s3)"
      by (rule books_movement [where w = w and p = p and dir = dir and q = q, OF _ _ t1(1) q(2)])
        (use mv q t1 st p(1) k True upd dir in \<open>simp_all add: stored_tx_row(1-4) del: stored_ids\<close>)
    then show ?thesis by (rule event_keeps [OF ev])
  qed
  then show ?thesis by (rule event_keeps [OF s3])
qed

lemma settle_keeps:
  assumes inv: "ledger_inv (db s)" and q: "q \<in> set (wallets (db s))" "wid w = w_id q" "walletID t = w_id q"
    and upd: "updateWallet \<longleftrightarrow> kind t \<noteq> KindLoss"
    and kind: "kind t \<in> {KindOpening, KindBet, KindWin, KindLoss, KindRefund, KindRollback}"
    and dir: "updateWallet \<Longrightarrow> dir = (if kind t = KindBet then ''DEBIT'' else ''CREDIT'')"
    and ok: "settle R live_tx input t w dir updateWallet (w_version q) (w_amount q) X s = (Inr oc, s')"
  shows "ledger_inv (db s')"
proof -
  obtain now p where tr: "TransitionToProcessed now t = Inr p"
    and tried: "act_try (SaveWithRetryAt R live_tx p None) (handleSaveConflict R live_tx input p)
       (\<lambda>_. finish R live_tx p w dir updateWallet (w_version q) (w_amount q)) X (s\<lparr>ticks := Suc (ticks s)\<rparr>) = (Inr oc, s')"
    using ok by (auto simp: settle_def Tx_Save_def act_bind_Inr act_now_Inr act_pure_Inr)
  have p: "status p = StatusProcessed" "kind p = kind t" "walletID p = walletID t"
    using tr by (simp_all add: inr_dest)
  from tried show ?thesis
  proof (rule save_or_conflict)
    assume "db s' = db (s\<lparr>ticks := Suc (ticks s)\<rparr>)"
    then show ?thesis using inv by simp
  next
    fix s1 assume sv: "SaveWithRetryAt R live_tx p None X (s\<lparr>ticks := Suc (ticks s)\<rparr>) = (Inr (), s1)"
      and fin: "finish R live_tx p w dir updateWallet (w_version q) (w_amount q) X s1 = (Inr oc, s')"
    show ?thesis
      by (rule finish_keeps [OF _ sv _ q(2) _ p(1) _ _ _ fin]) (use inv q p kind upd dir in simp_all)
  qed
qed

lemma reject_keeps:
  assumes inv: "ledger_inv (db s)" and kind: "kind t \<in> {KindBet, KindWin, KindLoss, KindRefund, KindRollback}"
    and ok: "reject_bet R live_tx input t w X s = (Inr oc, s')"
  shows "ledger_inv (db s')"
proof -
  obtain now p where tr: "TransitionToRejected now ''INSUFFICIENT_BALANCE'' t = Inr p"
    and tried: "act_try (SaveWithRetryAt R live_tx p None) (handleSaveConflict R live_tx input p)
       (\<lambda>_. act_bind (saveOutboxEvent R live_tx (txid p) ''WagerTransactionRejected'' (marshal_opaque_struct p))
         (\<lambda>_. act_return (p, w, False))) X (s\<lparr>ticks := Suc (ticks s)\<rparr>) = (Inr oc, s')"
    using ok by (auto simp: reject_bet_def Tx_Save_def act_bind_Inr act_now_Inr act_pure_Inr)
  have p: "status p = StatusRejected" "kind p = kind t"
    using tr by (simp_all add: inr_dest)
  from tried show ?thesis
  proof (rule save_or_conflict)
    assume "db s' = db (s\<lparr>ticks := Suc (ticks s)\<rparr>)"
    then show ?thesis using inv by simp
  next
    fix s1 assume "SaveWithRetryAt R live_tx p None X (s\<lparr>ticks := Suc (ticks s)\<rparr>) = (Inr (), s1)"
    from books_save(1) [OF this] have "ledger_inv (db s1)" using inv p kind by (auto simp: ledger_inv_def)
    moreover assume "act_bind (saveOutboxEvent R live_tx (txid p) ''WagerTransactionRejected'' (marshal_opaque_struct p))
         (\<lambda>_. act_return (p, w, False)) X s1 = (Inr oc, s')"
    ultimately show ?thesis by (auto simp: act_bind_Inr act_return_Inr dest: event_keeps)
  qed
qed

lemma park_keeps:
  assumes inv: "ledger_inv (db s)" and kind: "kind t \<in> {KindRefund, KindRollback}"
    and ok: "park R live_tx input t w X s = (Inr oc, s')"
  shows "ledger_inv (db s')"
proof -
  let ?s = "s\<lparr>ticks := Suc (Suc (ticks s))\<rparr>" and ?retry = "Some (clock X (Suc (ticks s)) + 5000000000)"
  obtain now p where tr: "TransitionToPendingReference now t = Inr p"
    and tried: "act_try (SaveWithRetryAt R live_tx p ?retry) (handleSaveConflict R live_tx input p)
       (\<lambda>_. act_bind (saveOutboxEvent R live_tx (txid p) ''WagerTransactionPendingReference'' (marshal_opaque_struct p))
         (\<lambda>_. act_return (p, w, False))) X ?s = (Inr oc, s')"
    using ok by (auto simp: park_def act_bind_Inr act_now_Inr act_pure_Inr)
  have p: "status p = StatusPendingReference" "kind p = kind t"
    using tr by (simp_all add: inr_dest)
  from tried show ?thesis
  proof (rule save_or_conflict)
    assume "db s' = db ?s"
    then show ?thesis using inv by simp
  next
    fix s1 assume "SaveWithRetryAt R live_tx p ?retry X ?s = (Inr (), s1)"
    from books_save(1) [OF this] have "ledger_inv (db s1)" using inv p kind by (auto simp: ledger_inv_def)
    moreover assume "act_bind (saveOutboxEvent R live_tx (txid p) ''WagerTransactionPendingReference'' (marshal_opaque_struct p))
         (\<lambda>_. act_return (p, w, False)) X s1 = (Inr oc, s')"
    ultimately show ?thesis by (auto simp: act_bind_Inr act_return_Inr dest: event_keeps)
  qed
qed

lemma process_new_kind:
  assumes "process_new R tx input t w X s = (Inr oc, s')"
  shows "kind t \<in> {KindBet, KindWin, KindLoss, KindRefund, KindRollback}"
proof (rule ccontr)
  assume "kind t \<notin> {KindBet, KindWin, KindLoss, KindRefund, KindRollback}"
  then have "process_new R tx input t w = act_fail (ErrorString (''invalid transaction kind: '' @ kind t))"
    by (simp add: process_new_def)
  then show False using assms by (simp add: act_fail_Inr)
qed

lemma process_reference_cases:
  assumes ok: "process_new R live_tx input t w X s = (Inr oc, s')" and ref: "kind t = KindRefund \<or> kind t = KindRollback"
  obtains (waits) s1 where "db s1 = db s" "tx_by_external (providerID t) (referenceExternalID t) (db s) = None"
      "park R live_tx input t w X s1 = (Inr oc, s')"
  | (credits) y now w' s1 where "db s1 = db s" "tx_by_external (providerID t) (referenceExternalID t) (db s) = Some y"
      "t_status y = StatusProcessed" "Credit now (wmoney t) w = Inr w'"
      "settle R live_tx input t w' ''CREDIT'' True (version w) (amount (balance w)) X s1 = (Inr oc, s')"
proof -
  have k: "kind t \<noteq> KindBet" "kind t \<noteq> KindWin" "kind t \<noteq> KindLoss" using ref by auto
  obtain x s1 where x: "FindByExternalIDTx R live_tx (providerID t) (referenceExternalID t) X s = (Inr x, s1)"
    and rest: "(case x of
          None \<Rightarrow> park R live_tx input t w
        | Some ref \<Rightarrow>
            if status ref \<noteq> StatusProcessed then act_fail ErrReferenceNotUsable
            else act_bind act_now (\<lambda>now.
              act_bind (act_pure (Credit now (wmoney t) w)) (\<lambda>credited.
                settle R live_tx input t credited ''CREDIT'' True (version w) (amount (balance w))))) X s1 = (Inr oc, s')"
    using ok ref k by (auto simp: process_new_def Let_def act_bind_Inr)
  have s1: "db s1 = db s" "x = map_option (scan_tx R) (tx_by_external (providerID t) (referenceExternalID t) (db s))"
    using find_tx_ok(1) [OF x] by simp_all
  show ?thesis
  proof (cases "tx_by_external (providerID t) (referenceExternalID t) (db s)")
    case None
    then show ?thesis using waits rest s1 by simp
  next
    case (Some y)
    then obtain now w' where y: "t_status y = StatusProcessed" "Credit now (wmoney t) w = Inr w'"
      "settle R live_tx input t w' ''CREDIT'' True (version w) (amount (balance w)) X (s1\<lparr>ticks := Suc (ticks s1)\<rparr>) = (Inr oc, s')"
      using rest s1 by (auto simp: act_bind_Inr act_now_Inr act_pure_Inr act_fail_Inr split: if_splits)
    show ?thesis by (rule credits [OF _ Some y]) (simp add: s1(1))
  qed
qed

lemma process_new_keeps:
  assumes inv: "ledger_inv (db s)" and q: "q \<in> set (wallets (db s))" "wid w = w_id q" "walletID t = w_id q"
    "version w = w_version q" "amount (balance w) = w_amount q"
    and ok: "process_new R live_tx input t w X s = (Inr oc, s')"
  shows "ledger_inv (db s')"
proof -
  have moved: "wid w' = w_id q" if "Debit now m w = Inr w' \<or> Credit now m w = Inr w'" for now m w'
    using that q(2) by (auto simp: inr_dest)
  have settle: "ledger_inv (db s')"
    if "settle R live_tx input t w' dir upd (w_version q) (w_amount q) X s1 = (Inr oc, s')" "db s1 = db s"
      "wid w' = w_id q" "upd \<longleftrightarrow> kind t \<noteq> KindLoss" "upd \<Longrightarrow> dir = (if kind t = KindBet then ''DEBIT'' else ''CREDIT'')"
      "kind t \<in> {KindBet, KindWin, KindLoss, KindRefund, KindRollback}" for s1 w' dir upd
    using that inv q by (intro settle_keeps [OF _ _ _ _ _ _ _ that(1)]) auto
  consider "kind t = KindBet" | "kind t = KindWin" | "kind t = KindLoss" | "kind t = KindRefund \<or> kind t = KindRollback"
    using process_new_kind [OF ok] by blast
  then show ?thesis
  proof cases
    case 1
    have rej: "ledger_inv (db s')" if "reject_bet R live_tx input t w X s1 = (Inr oc, s')" "db s1 = db s" for s1
      using that inv 1 by (intro reject_keeps [OF _ _ that(1)]) simp_all
    from 1 show ?thesis
      using ok q(4,5)
      by (auto simp: process_new_def Let_def act_bind_Inr act_now_Inr act_fail_Inr split: sum.splits if_splits
          intro: settle rej moved)
  next
    case 2
    then show ?thesis
      using ok q(4,5)
      by (auto simp: process_new_def Let_def act_bind_Inr act_now_Inr act_pure_Inr intro: settle moved)
  next
    case 3
    then show ?thesis
      using ok q(2,4,5) by (auto simp: process_new_def Let_def intro: settle)
  next
    case ref: 4
    then have k: "kind t \<noteq> KindBet" "kind t \<noteq> KindWin" "kind t \<noteq> KindLoss" by auto
    from ok ref show ?thesis
    proof (cases rule: process_reference_cases)
      case (waits s1)
      show ?thesis by (rule park_keeps [OF _ _ waits(3)]) (use inv waits(1) ref in simp_all)
    next
      case (credits y now w' s1)
      show ?thesis
        by (rule settle [OF credits(5) [unfolded q(4,5)]]) (use credits(1,4) ref k moved in auto)
    qed
  qed
qed


lemma process_checked_keeps:
  assumes inv: "ledger_inv (db s)" and ok: "process_checked R live_tx input t X s = (Inr oc, s')"
  shows "ledger_inv (db s')"
proof -
  obtain ex s1 where ex: "lookupExisting R live_tx input (payloadHash t) X s = (Inr ex, s1)"
    and rest: "(case ex of Some t' \<Rightarrow> replay R live_tx t'
       | None \<Rightarrow> act_bind (FindByIDWithLock R live_tx (walletID t)) (\<lambda>wallet.
             if playerID wallet \<noteq> wplayerID t then act_fail ErrWalletOwnerMismatch
             else process_new R live_tx input t wallet)) X s1 = (Inr oc, s')"
    using ok by (auto simp: process_checked_def act_bind_Inr)
  have s1: "db s1 = db s" using lookupExisting_ok [OF ex] by simp
  show ?thesis
  proof (cases ex)
    case (Some t')
    then show ?thesis using rest s1 inv by (auto dest: replay_ok)
  next
    case None
    then obtain w s2 where w: "FindByIDWithLock R live_tx (walletID t) X s1 = (Inr w, s2)"
      and new: "process_new R live_tx input t w X s2 = (Inr oc, s')"
      using rest by (auto simp: act_bind_Inr act_fail_Inr split: if_splits)
    from w show ?thesis
      by (rule FindByIDWithLock_ok) (rule process_new_keeps [OF _ _ _ _ _ _ new], use inv s1 in simp_all)
  qed
qed

text \<open>A message of the inbox first, if there is one.\<close>

lemma process_body_keeps:
  assumes inv: "ledger_inv (db s)" and ok: "process_body R input inbox t live_tx X s = (Inr oc, s')"
  shows "ledger_inv (db s')"
proof (cases inbox)
  case None
  then show ?thesis using ok inv by (auto simp: process_body_def intro: process_checked_keeps)
next
  case (Some c)
  show ?thesis
  proof (cases "SaveInbox live_tx (ConsumerName c) (MessageID c) (ClaimPayloadHash c) X s")
    case (Pair r s1)
    show ?thesis
    proof (cases r)
      case (Inl e)
      then have "duplicate_message R live_tx input t X s1 = (Inr oc, s')"
        using ok Pair Some by (auto simp: process_body_def act_try_def act_fail_Inr split: if_splits)
      then have "db s' = db s1" by (rule duplicate_message_ok)
      moreover have "db s1 = db s" using Pair Inl SaveInbox_fails by blast
      ultimately show ?thesis using inv by simp
    next
      case (Inr u)
      then have "insert_inbox \<lparr>i_message_id = MessageID c, i_consumer_name = ConsumerName c,
          i_payload_hash = ClaimPayloadHash c\<rparr> (db s) = Inr (db s1)"
        using Pair SaveInbox_ok by simp
      then have "ledger_inv (db s1)" using inv books_inbox unfolding ledger_inv_def by blast
      moreover have "process_checked R live_tx input t X s1 = (Inr oc, s')"
        using ok Pair Some Inr by (simp add: process_body_def act_try_def)
      ultimately show ?thesis by (rule process_checked_keeps)
    qed
  qed
qed


section \<open>Pending references and opening\<close>

lemma find_key_row: "tx_by_id i d = Some p \<Longrightarrow> p \<in> set (wager_transactions d) \<and> t_id p = i"
  by (auto simp: tx_by_id_def dest: find_SomeD)

text \<open>A run of \<open>resolve_credit\<close> that succeeds, statement by statement.\<close>

lemma resolve_credit_run:
  assumes ok: "resolve_credit R live_tx (scan_tx R p) X s = (Inr u, s')"
  obtains q w w' t s2 s3 s4 s5 where
    "db s2 = db s" "wallet_by_id (t_wallet_id p) (db s) = Some q" "q \<in> set (wallets (db s))" "w_id q = t_wallet_id p" "wid w = t_wallet_id p"
    "wallet_of_row R q = Inr w" "Credit (clock X (ticks s)) (wmoney (scan_tx R p)) w = Inr w'"
    "TransitionToProcessed (clock X (Suc (ticks s))) (scan_tx R p) = Inr t"
    "UpdateStatusWithRetryAt R live_tx t None X s2 = (Inr (), s3)"
    "move_funds R live_tx t w' ''CREDIT'' (w_version q) (w_amount q) X s3 = (Inr (), s4)"
    "saveOutboxEvent R live_tx (txid t) ''WagerTransactionProcessed'' (marshal_opaque_struct t) X s4 = (Inr (), s5)"
    "saveOutboxEvent R live_tx (wid w') ''WalletBalanceChanged'' (balance_changed_payload R t w' ''CREDIT'' (w_amount q)) X s5 = (Inr u, s')"
proof -
  obtain w s1 where w: "FindByIDWithLock R live_tx (t_wallet_id p) X s = (Inr w, s1)"
    and rest: "act_bind act_now (\<lambda>now.
       act_bind (act_pure (Credit now (wmoney (scan_tx R p)) w)) (\<lambda>credited.
       act_bind act_now (\<lambda>now'.
       act_bind (act_pure (TransitionToProcessed now' (scan_tx R p))) (\<lambda>processed.
       act_bind (UpdateStatus R live_tx processed) (\<lambda>_.
       act_bind (move_funds R live_tx processed credited ''CREDIT'' (version w) (amount (balance w))) (\<lambda>_.
       act_bind (saveOutboxEvent R live_tx (txid processed) ''WagerTransactionProcessed'' (marshal_opaque_struct processed)) (\<lambda>_.
       saveOutboxEvent R live_tx (wid credited) ''WalletBalanceChanged''
         (balance_changed_payload R processed credited ''CREDIT'' (amount (balance w)))))))))) X s1 = (Inr u, s')"
    using ok by (auto simp: resolve_credit_def act_bind_Inr Let_def)
  obtain q where s1: "db s1 = db s" and q: "q \<in> set (wallets (db s))" "w_id q = t_wallet_id p" "wid w = t_wallet_id p"
    "amount (balance w) = w_amount q" "version w = w_version q" "wallet_of_row R q = Inr w" "wallet_by_id (t_wallet_id p) (db s) = Some q"
    using w by (rule FindByIDWithLock_ok)
  let ?s2 = "s1\<lparr>ticks := Suc (Suc (ticks s1))\<rparr>"
  obtain w' t s3 s4 s5 where run: "Credit (clock X (ticks s)) (wmoney (scan_tx R p)) w = Inr w'"
    "TransitionToProcessed (clock X (Suc (ticks s))) (scan_tx R p) = Inr t"
    "UpdateStatusWithRetryAt R live_tx t None X ?s2 = (Inr (), s3)"
    "move_funds R live_tx t w' ''CREDIT'' (w_version q) (w_amount q) X s3 = (Inr (), s4)"
    "saveOutboxEvent R live_tx (txid t) ''WagerTransactionProcessed'' (marshal_opaque_struct t) X s4 = (Inr (), s5)"
    "saveOutboxEvent R live_tx (wid w') ''WalletBalanceChanged'' (balance_changed_payload R t w' ''CREDIT'' (w_amount q)) X s5 = (Inr u, s')"
    using rest q(4,5) find_ticks(3) [OF w] by (auto simp: act_bind_Inr act_now_Inr act_pure_Inr UpdateStatus_def)
  show ?thesis by (rule that [OF _ q(7,1,2,3,6) run]) (simp add: s1)
qed

lemma resolve_credit_keeps:
  assumes inv: "ledger_inv (db s)" and p: "p \<in> set (wager_transactions (db s))" "t_status p = StatusPendingReference"
    and ok: "resolve_credit R live_tx (scan_tx R p) X s = (Inr u, s')"
  shows "ledger_inv (db s')"
  using ok
proof (rule resolve_credit_run)
  fix q w w' t s2 s3 s4 s5
  assume s2: "db s2 = db s" and q: "q \<in> set (wallets (db s))" "w_id q = t_wallet_id p" "wid w = t_wallet_id p"
    and cr: "Credit (clock X (ticks s)) (wmoney (scan_tx R p)) w = Inr w'"
    and tr: "TransitionToProcessed (clock X (Suc (ticks s))) (scan_tx R p) = Inr t"
    and us: "UpdateStatusWithRetryAt R live_tx t None X s2 = (Inr (), s3)"
    and mv: "move_funds R live_tx t w' ''CREDIT'' (w_version q) (w_amount q) X s3 = (Inr (), s4)"
    and e1: "saveOutboxEvent R live_tx (txid t) ''WagerTransactionProcessed'' (marshal_opaque_struct t) X s4 = (Inr (), s5)"
    and e2: "saveOutboxEvent R live_tx (wid w') ''WalletBalanceChanged'' (balance_changed_payload R t w' ''CREDIT'' (w_amount q)) X s5 = (Inr u, s')"
  have t: "status t = StatusProcessed" "txid t = t_id p" "amount (wmoney t) = t_amount p" "kind t = t_kind p"
    using tr by (simp_all add: inr_dest)
  have w': "wid w' = w_id q" using cr q by (simp add: inr_dest)
  obtain code retry upd where upd: "update_tx_status (status t) code retry upd (t_id p) (db s) = Inr (db s3)"
    using UpdateStatus_ok [OF us] t(2) s2 by auto
  have b3: "books {t_id p} (\<lambda>i. 0) (db s3)"
    using books_update_tx_status [OF _ upd p] inv t(1) by (simp add: ledger_inv_def)
  have k: "t_kind p \<in> {KindRefund, KindRollback}" "pg_trunc 64 (w_id q) = w_id q" "pg_trunc 64 (t_id p) = t_id p"
    using inv p q by (auto simp: ledger_inv_def books_def txs_inv_def keys_inv_def)
  let ?p = "p\<lparr>t_status := StatusProcessed, t_failure_code := map_option (pg_trunc 50) code,
              t_next_retry_at := retry, t_updated_at := upd\<rparr>"
  have p3: "?p \<in> set (wager_transactions (db s3))" "wallets (db s3) = wallets (db s)"
    using update_tx_status_ok(1,2) [OF upd] p(1) t(1) by (force simp: set_update_where, simp)
  have "ledger_inv (db s4)"
    by (rule books_movement [where t = ?p, OF _ _ p3(1) w' _ _ _ _ _ _ _ mv])
      (use b3 q p3(2) t k in auto)
  then show ?thesis using event_keeps [OF e1] event_keeps [OF e2] by blast
qed

lemma resolve_update_keeps:
  assumes inv: "ledger_inv (db s)" and p: "p \<in> set (wager_transactions (db s))" "t_status p = StatusPendingReference"
    and t: "txid t = t_id p" "status t \<in> {StatusPendingReference, StatusRejected}"
    and ok: "UpdateStatusWithRetryAt R live_tx t retry X s = (Inr u, s')"
  shows "ledger_inv (db s')"
proof -
  have "pg_trunc 30 (status t) \<noteq> StatusProcessed" using t(2) by auto
  then show ?thesis
    using books_update_tx_status [OF _ _ p] UpdateStatus_ok [OF ok] inv t(1)
    by (fastforce simp: ledger_inv_def)
qed

text \<open>What a successful body has found, and what is left to do then.\<close>

abbreviation reference_of :: "tx_row \<Rightarrow> database \<Rightarrow> tx_row option" where
  "reference_of p \<equiv> tx_by_external (t_provider_id p) (empty_if_null (t_reference_external_id p))"

lemma resolve_body_cases:
  assumes ok: "resolve_body R i live_tx X s = (Inr u, s')"
  obtains (settled) "db s' = db s" "\<And>p. tx_by_id i (db s) = Some p \<Longrightarrow> t_status p \<noteq> StatusPendingReference"
  | (waits) p s3 where "tx_by_id i (db s) = Some p" "t_status p = StatusPendingReference" "reference_of p (db s) = None"
      "UpdateStatusWithRetryAt R live_tx (scan_tx R p) (Some (clock X (ticks s) + 5000000000)) X s3 = (Inr u, s')" "db s3 = db s"
  | (rejects) p ref t s3 where "tx_by_id i (db s) = Some p" "t_status p = StatusPendingReference" "reference_of p (db s) = Some ref"
      "t_status ref \<noteq> StatusProcessed" "TransitionToRejected (clock X (ticks s)) ''INVALID_REFERENCE'' (scan_tx R p) = Inr t"
      "UpdateStatusWithRetryAt R live_tx t None X s3 = (Inr u, s')" "db s3 = db s"
  | (credits) p ref s3 where "tx_by_id i (db s) = Some p" "t_status p = StatusPendingReference" "reference_of p (db s) = Some ref"
      "t_status ref = StatusProcessed" "resolve_credit R live_tx (scan_tx R p) X s3 = (Inr u, s')" "db s3 = db s"
      "ticks s3 = ticks s"
proof -
  obtain found s1 where found: "FindByIDForUpdate R live_tx i X s = (Inr found, s1)"
    and rest: "(case found of
         None \<Rightarrow> act_return ()
       | Some pending \<Rightarrow>
           if status pending \<noteq> StatusPendingReference then act_return ()
           else
             act_bind (FindByExternalIDTx R live_tx (providerID pending) (referenceExternalID pending)) (\<lambda>refTx.
               case refTx of
                 None \<Rightarrow> act_bind act_now (\<lambda>now. UpdateStatusWithRetryAt R live_tx pending (Some (now + 5000000000)))
               | Some ref \<Rightarrow>
                   if status ref \<noteq> StatusProcessed then
                     act_bind act_now (\<lambda>now.
                     act_bind (act_pure (TransitionToRejected now ''INVALID_REFERENCE'' pending)) (\<lambda>rejected.
                       UpdateStatus R live_tx rejected))
                   else resolve_credit R live_tx pending)) X s1 = (Inr u, s')"
    using ok by (auto simp: resolve_body_def act_bind_Inr)
  have s1: "db s1 = db s" "found = map_option (scan_tx R) (tx_by_id i (db s))"
    using find_tx_ok(3) [OF found] by simp_all
  show ?thesis
  proof (cases "\<exists>p. tx_by_id i (db s) = Some p \<and> t_status p = StatusPendingReference")
    case False
    then have "db s' = db s" using rest s1 by (auto simp: act_return_Inr split: option.splits if_splits)
    then show ?thesis using settled False by blast
  next
    case True
    then obtain p where p: "tx_by_id i (db s) = Some p" "t_status p = StatusPendingReference" by blast
    obtain x s2 where x: "FindByExternalIDTx R live_tx (t_provider_id p) (empty_if_null (t_reference_external_id p)) X s1 = (Inr x, s2)"
      and act: "(case x of
           None \<Rightarrow> act_bind act_now (\<lambda>now. UpdateStatusWithRetryAt R live_tx (scan_tx R p) (Some (now + 5000000000)))
         | Some ref \<Rightarrow>
             if status ref \<noteq> StatusProcessed then
               act_bind act_now (\<lambda>now.
               act_bind (act_pure (TransitionToRejected now ''INVALID_REFERENCE'' (scan_tx R p))) (\<lambda>rejected.
                 UpdateStatus R live_tx rejected))
             else resolve_credit R live_tx (scan_tx R p)) X s2 = (Inr u, s')"
      using rest s1 p by (auto simp: act_bind_Inr)
    have s2: "db s2 = db s" "x = map_option (scan_tx R) (reference_of p (db s))" using find_tx_ok(1) [OF x] s1 by simp_all
    have ticks: "ticks s2 = ticks s" using find_ticks(1) [OF x] find_ticks(2) [OF found] by simp
    consider "reference_of p (db s) = None" | ref where "reference_of p (db s) = Some ref" "t_status ref = StatusProcessed"
      | ref where "reference_of p (db s) = Some ref" "t_status ref \<noteq> StatusProcessed" by (cases "reference_of p (db s)") auto
    then show ?thesis
    proof cases
      case 1
      then show ?thesis using act s2 ticks waits [OF p 1] by (auto simp: act_bind_Inr act_now_Inr)
    next
      case (2 ref)
      then show ?thesis using act s2 ticks credits [OF p 2] by simp
    next
      case (3 ref)
      then show ?thesis
        using act s2 ticks rejects [OF p 3] by (auto simp: act_bind_Inr act_now_Inr act_pure_Inr UpdateStatus_def)
    qed
  qed
qed

lemma resolve_body_keeps:
  assumes inv: "ledger_inv (db s)" and ok: "resolve_body R i live_tx X s = (Inr u, s')"
  shows "ledger_inv (db s')"
  using ok
proof (cases rule: resolve_body_cases)
  case settled
  then show ?thesis using inv by simp
next
  case (waits p s3)
  then show ?thesis using inv find_key_row by (intro resolve_update_keeps [OF _ _ _ _ _ waits(4)]) auto
next
  case (rejects p ref t s3)
  then show ?thesis using inv find_key_row by (intro resolve_update_keeps [OF _ _ _ _ _ rejects(6)]) (auto simp: inr_dest)
next
  case (credits p ref s3)
  then show ?thesis using inv find_key_row by (intro resolve_credit_keeps [OF _ _ _ credits(5)]) auto
qed

text \<open>A new wallet holds its opening balance in suspense until the opening entry is written.\<close>

lemma stored_opening_row:
  "l_transaction_id (stored_ledger (ledger_row_of R now e)) = pg_trunc 64 (TransactionID e)"
  "l_wallet_id (stored_ledger (ledger_row_of R now e)) = pg_trunc 64 (WalletID e)"
  "l_amount (stored_ledger (ledger_row_of R now e)) = Amount e"
  "l_direction (stored_ledger (ledger_row_of R now e)) = pg_trunc 6 (Direction e)"
  "l_balance_before (ledger_row_of R now e) = BalanceBefore e"
  "l_balance_after (ledger_row_of R now e) = BalanceAfter e"
  by (simp_all add: ledger_row_of_def)

lemma opening_wager_simps:
  "walletID (opening_wager now now' w m) = wid w" "wmoney (opening_wager now now' w m) = m"
  "status (opening_wager now now' w m) = StatusProcessed" "kind (opening_wager now now' w m) = KindOpening"
  "failureCode (opening_wager now now' w m) = []"
  by (simp_all add: opening_wager_def CalculateAndSetPayloadHash_def RehydrateWagerTransaction_def)

text \<open>The opening entry, and a run of the body that succeeds.\<close>

definition opening_entry :: "wager \<Rightarrow> wallet \<Rightarrow> ledger_entry" where
  "opening_entry t w = \<lparr>ID = ''led_'' @ txid t, WalletID = wid w, TransactionID = txid t, Direction = ''CREDIT'',
     Amount = amount (balance w), BalanceBefore = 0, BalanceAfter = amount (balance w)\<rparr>"

lemma open_body_run:
  assumes ok: "open_body R w (balance w) live_tx X s = (Inr u, s')"
  obtains (zero) "IsZero (balance w)" "insert_wallet (wallet_row_of R w) (db s) = Inr (db s')"
  | (funded) t now s1 s2 s3 s4 where "\<not> IsZero (balance w)" "insert_wallet (wallet_row_of R w) (db s) = Inr (db s1)"
      "walletID t = wid w" "wmoney t = balance w" "status t = StatusProcessed" "kind t = KindOpening" "failureCode t = []"
      "SaveWithRetryAt R live_tx t None X s1 = (Inr (), s2)" "insert_ledger (ledger_row_of R now (opening_entry t w)) (db s2) = Inr (db s3)"
      "saveOutbox R live_tx (wid w) ''WALLET_OPENED'' (marshal_opaque_struct w) X s3 = (Inr (), s4)"
      "saveOutbox R live_tx (wid w) ''WalletBalanceChanged'' (opening_payload w (balance w)) X s4 = (Inr u, s')"
proof -
  let ?m = "balance w"
  obtain s1 where sv: "Wallet_Save R live_tx w X s = (Inr (), s1)"
    and rest: "(if \<not> IsZero ?m then
         act_bind act_now (\<lambda>now. act_bind act_now (\<lambda>now'.
         let wagerTx = opening_wager now now' w ?m in
         act_bind (Tx_Save R live_tx wagerTx) (\<lambda>_.
         act_bind (SaveLedgerEntry R live_tx (opening_entry wagerTx w)) (\<lambda>_.
         act_bind (saveOutbox R live_tx (wid w) ''WALLET_OPENED'' (marshal_opaque_struct w)) (\<lambda>_.
         saveOutbox R live_tx (wid w) ''WalletBalanceChanged'' (opening_payload w ?m))))))
       else act_return ()) X s1 = (Inr u, s')"
    using ok unfolding opening_entry_def by (auto simp: open_body_def act_bind_Inr)
  note ins = Wallet_Save_ok [OF sv]
  show ?thesis
  proof (cases "IsZero ?m")
    case True
    then show ?thesis using zero ins rest by (simp add: act_return_Inr)
  next
    case False
    let ?s1 = "s1\<lparr>ticks := Suc (Suc (ticks s1))\<rparr>"
    define t where "t = opening_wager (clock X (ticks s1)) (clock X (Suc (ticks s1))) w ?m"
    have t: "walletID t = wid w" "wmoney t = ?m" "status t = StatusProcessed" "kind t = KindOpening" "failureCode t = []"
      by (simp_all add: t_def opening_wager_simps)
    obtain s2 s3 s4 where run: "SaveWithRetryAt R live_tx t None X ?s1 = (Inr (), s2)" "SaveLedgerEntry R live_tx (opening_entry t w) X s2 = (Inr (), s3)"
      "saveOutbox R live_tx (wid w) ''WALLET_OPENED'' (marshal_opaque_struct w) X s3 = (Inr (), s4)"
      "saveOutbox R live_tx (wid w) ''WalletBalanceChanged'' (opening_payload w ?m) X s4 = (Inr u, s')"
      using rest False by (auto simp: Let_def act_bind_Inr act_now_Inr Tx_Save_def simp flip: t_def)
    obtain now where "insert_ledger (ledger_row_of R now (opening_entry t w)) (db s2) = Inr (db s3)"
      using SaveLedgerEntry_ok [OF run(2)] by blast
    from funded [OF False _ t run(1) this run(3,4)] ins show ?thesis by simp
  qed
qed

lemma open_body_keeps:
  assumes inv: "ledger_inv (db s)" and m: "balance w = m" and ok: "open_body R w m live_tx X s = (Inr u, s')"
  shows "ledger_inv (db s')"
proof -
  let ?S = "(\<lambda>i. 0 :: int)(pg_trunc 64 (wid w) := sint (amount m))"
  have b1: "books {} ?S d" if "insert_wallet (wallet_row_of R w) (db s) = Inr d" for d
    using books_insert_wallet [OF _ that, of "{}" "\<lambda>i. 0"] inv m by (simp add: ledger_inv_def wallet_row_of_def)
  from ok [folded m] show ?thesis
  proof (cases rule: open_body_run)
    case zero
    then have "?S = (\<lambda>i. 0)" using m by (auto simp: IsZero_def)
    then show ?thesis using b1 [OF zero(2)] by (simp add: ledger_inv_def)
  next
    case (funded t now s1 s2 s3 s4)
    let ?t = "stored_tx (tx_row_of R t None)"
    have row: "moves_money ?t" "t_status ?t \<noteq> StatusPendingReference"
      using funded(5,6) unfolding moves_money_def stored_tx_row by simp_all
    have b2: "books {t_id ?t} ?S (db s2)" and t2: "?t \<in> set (wager_transactions (db s2))"
      using books_insert_tx [OF b1 [OF funded(2)] Tx_Save_ok [OF funded(8)]] row Tx_Save_ok [OF funded(8)]
      by (simp_all add: insert_tx_Inr del: stored_ids)
    have "ledger_inv (db s3)"
      using books_insert_ledger [OF b2 funded(9) t2] funded(3-6) m
      by (simp add: ledger_inv_def records_def stored_opening_row stored_tx_row opening_entry_def fun_upd_idem del: stored_ids)
    then show ?thesis
      using saveOutbox_ok [OF funded(10)] saveOutbox_ok [OF funded(11)] books_outbox unfolding ledger_inv_def by blast
  qed
qed

section \<open>The transactions keep the invariant\<close>

interpretation processing: invariant_body ledger_inv "process_body R input inbox t"
  for R input inbox t
  by unfold_locales (rule process_body_keeps)

interpretation resolution: invariant_body ledger_inv "resolve_body R i"
  for R i
  by unfold_locales (rule resolve_body_keeps)

text \<open>The wallet that is opened is the one its constructor made for the input.\<close>

definition open_new_wallet :: "runtime \<Rightarrow> int \<Rightarrow> string \<Rightarrow> string \<Rightarrow> money \<Rightarrow> pgx_tx \<Rightarrow> unit action" where
  "open_new_wallet R now i p m tx =
     (case NewWallet now i p m of Inl e \<Rightarrow> act_fail e | Inr w \<Rightarrow> open_body R w m tx)"

interpretation opening_tx: invariant_body ledger_inv "open_new_wallet R now i p m"
  for R now i p m
proof unfold_locales
  fix s s' X and a :: unit
  assume "ledger_inv (db s)" "open_new_wallet R now i p m live_tx X s = (Inr a, s')"
  then obtain w where "NewWallet now i p m = Inr w" "open_body R w m live_tx X s = (Inr a, s')" "ledger_inv (db s)"
    by (cases "NewWallet now i p m") (simp_all add: open_new_wallet_def act_fail_Inr)
  then show "ledger_inv (db s')" using open_body_keeps [of s w m] by (simp add: NewWallet_Inr)
qed

lemma ProcessTransactionWithInbox_keeps:
  assumes "ledger_inv d" "ProcessTransactionWithInbox R cfg X input inbox d = (r, d')"
  shows "ledger_inv d'"
  using assms by (auto simp: ProcessTransactionWithInbox_def split: sum.splits prod.splits dest: processing.execute_keeps)

lemma ResolvePendingReference_keeps:
  assumes "ledger_inv d" "ResolvePendingReference R X i d = (r, d')"
  shows "ledger_inv d'"
  using assms by (auto simp: ResolvePendingReference_def dest: resolution.execute_keeps)

lemma OpenWallet_keeps:
  assumes "ledger_inv d" "OpenWallet_Execute R cfg X input d = (r, d')"
  shows "ledger_inv d'"
proof -
  have "ledger_inv d''"
    if "NewWallet now i p m = Inr w" "ExecuteInTransaction X n (open_body R w m) d = (r', d'')" for now i p m w n r' d''
  proof -
    have "open_new_wallet R now i p m = open_body R w m" using that(1) by (auto simp: open_new_wallet_def)
    then show ?thesis using opening_tx.execute_keeps [OF assms(1), of X n R now i p m r' d''] that(2) by simp
  qed
  then show ?thesis
    using assms by (fastforce simp: OpenWallet_Execute_def split: sum.splits prod.splits if_splits)
qed

end
