(* ===== verification/Wager_Effects.thy ===== *)
theory Wager_Effects
  imports Ledger_Safety History
begin

text \<open>
  The effect of a processed transaction on the database. \<open>wager_effect\<close> is the specification of the
  business rule, one row and one movement at a time, without sessions, statements or errors;
  \<open>process_new_effect\<close> shows that a successful run of the code implements it. The theory also shows that the
  two recovery paths of the source that query after a failed insertion never succeed: PostgreSQL refuses every
  statement of a transaction block in which one has failed.
\<close>

section \<open>Recovery in a failed transaction block\<close>

lemma scanOne_aborted: "aborted s \<Longrightarrow> scanOne R args q X s \<noteq> (Inr a, s')"
  by (simp add: scanOne_def act_inr)

lemma lookup_aborted:
  "aborted s \<Longrightarrow> FindByExternalIDTx R live_tx p e X s \<noteq> (Inr a, s')"
  "aborted s \<Longrightarrow> lookupExisting R live_tx input h X s \<noteq> (Inr a', s')"
  by (auto simp: lookupExisting_def FindByExternalIDTx_def act_inr scanOne_aborted)

lemma handleSaveConflict_aborted:
  "aborted s \<Longrightarrow> handleSaveConflict R live_tx input t e X s \<noteq> (Inr oc, s')"
  by (auto simp: handleSaveConflict_def act_inr lookup_aborted)

lemma duplicate_message_aborted:
  "aborted s \<Longrightarrow> duplicate_message R live_tx input t X s \<noteq> (Inr oc, s')"
  by (auto simp: duplicate_message_def act_inr lookup_aborted)

text \<open>So an insertion that fails makes the whole transaction fail.\<close>

lemma save_or_fail:
  "act_try (SaveWithRetryAt R live_tx t retry) (handleSaveConflict R live_tx input t') f X s = (Inr oc, s') \<longleftrightarrow>
     (\<exists>s1. SaveWithRetryAt R live_tx t retry X s = (Inr (), s1) \<and> f () X s1 = (Inr oc, s'))"
proof -
  have "\<not> handleSaveConflict R live_tx input t' e X s1 = (Inr oc, s')"
    if "SaveWithRetryAt R live_tx t retry X s = (Inl e, s1)" for e s1
    using Tx_Save_fails [OF that] handleSaveConflict_aborted by blast
  then show ?thesis by (auto simp: act_try_Inr)
qed

section \<open>Rows that are written\<close>

definition announces :: "outbox_row \<Rightarrow> string \<Rightarrow> string \<Rightarrow> string \<Rightarrow> bool" where
  "announces e aggregate name payload \<longleftrightarrow>
     o_aggregate_id e = pg_trunc 64 aggregate \<and> o_event_type e = name \<and> o_payload e = payload
     \<and> o_status e = ''PENDING'' \<and> o_attempts e = 0 \<and> o_published_at e = None"

lemma trunc_event [simp]:
  "pg_trunc 100 ''WalletBalanceChanged'' = ''WalletBalanceChanged''"
  "pg_trunc 100 ''WagerTransactionProcessed'' = ''WagerTransactionProcessed''"
  "pg_trunc 100 ''WagerTransactionRejected'' = ''WagerTransactionRejected''"
  "pg_trunc 100 ''WagerTransactionPendingReference'' = ''WagerTransactionPendingReference''"
  "pg_trunc 20 ''PENDING'' = ''PENDING''"
  by (rule ascii_trunc, simp_all add: is_ascii_def byte_val_def)+

lemma saveOutboxEvent_row:
  assumes "saveOutboxEvent R live_tx a n p X s = (Inr u, s')" "pg_trunc 100 n = n"
  shows "\<exists>e. announces e a n p \<and> db s' = (db s)\<lparr>outbox_events := outbox_events (db s) @ [e]\<rparr>"
proof -
  obtain i now where "insert_outbox (outbox_row_of R \<lparr>oe_ID = i, oe_AggregateID = a, oe_EventType = n,
      oe_Payload = p, oe_Status = ''PENDING'', oe_Attempts = 0, oe_NextSendAt = now, oe_CreatedAt = now\<rparr>) (db s)
      = Inr (db s')" (is "insert_outbox ?r _ = _")
    using assms(1) by (auto simp: saveOutboxEvent_def act_bind_Inr act_now_Inr dest!: SaveOutbox_ok)
  then have "db s' = (db s)\<lparr>outbox_events := outbox_events (db s) @ [stored_outbox ?r]\<rparr>"
    by (simp add: insert_outbox_Inr)
  moreover have "announces (stored_outbox ?r) a n p"
    using assms(2) by (simp add: announces_def outbox_row_of_def stored_outbox_def)
  ultimately show ?thesis by blast
qed

definition entry_for :: "ledger_row \<Rightarrow> wager \<Rightarrow> wallet_row \<Rightarrow> string \<Rightarrow> int64 \<Rightarrow> bool" where
  "entry_for l p q dir newAmount \<longleftrightarrow>
     l_wallet_id l = pg_trunc 64 (w_id q) \<and> l_transaction_id l = pg_trunc 64 (txid p) \<and> l_direction l = dir
     \<and> l_amount l = amount (wmoney p) \<and> l_balance_before l = w_amount q \<and> l_balance_after l = newAmount"

definition set_balance :: "wallet_row \<Rightarrow> int64 \<Rightarrow> int \<Rightarrow> wallet_row list \<Rightarrow> wallet_row list" where
  "set_balance q newAmount upd =
     update_where (\<lambda>r. w_id r = w_id q \<and> w_version r = w_version q)
       (\<lambda>r. r\<lparr>w_amount := newAmount, w_version := w_version q + 1, w_updated_at := upd\<rparr>)"

lemma move_funds_row:
  assumes "move_funds R live_tx p w dir (w_version q) (w_amount q) X s = (Inr u, s')"
    "wid w = w_id q" "version w = w_version q + 1" "pg_trunc 6 dir = dir"
  shows "\<exists>l. entry_for l p q dir (amount (balance w))
     \<and> db s' = (db s)\<lparr>wallets := set_balance q (amount (balance w)) (store_time R (wupdatedAt w)) (wallets (db s)),
                      wallet_ledger_entries := wallet_ledger_entries (db s) @ [l]\<rparr>"
proof -
  obtain s1 where u: "Wallet_Update R live_tx w (w_version q) X s = (Inr (), s1)"
    and e: "SaveLedgerEntry R live_tx (ledger_entry_for p w dir (w_amount q)) X s1 = (Inr u, s')"
    using assms(1) by (auto simp: move_funds_def act_bind_Inr)
  have "db s1 = (db s)\<lparr>wallets := set_balance q (amount (balance w)) (store_time R (wupdatedAt w)) (wallets (db s))\<rparr>"
    using Wallet_Update_ok [OF u] assms(2,3) by (auto simp: set_balance_def dest!: update_wallet_rows)
  moreover obtain now where "db s' = (db s1)\<lparr>wallet_ledger_entries := wallet_ledger_entries (db s1)
      @ [stored_ledger (ledger_row_of R now (ledger_entry_for p w dir (w_amount q)))]\<rparr>"
    using SaveLedgerEntry_ok [OF e] by (auto simp: insert_ledger_Inr)
  ultimately show ?thesis
    using assms(2,4)
    by (intro exI [of _ "stored_ledger (ledger_row_of R now (ledger_entry_for p w dir (w_amount q)))"])
      (simp add: entry_for_def stored_entry_row del: stored_ids, simp add: ledger_row_of_def ledger_entry_for_def)
qed

section \<open>The specification\<close>

definition add_tx :: "runtime \<Rightarrow> wager \<Rightarrow> int option \<Rightarrow> database \<Rightarrow> database" where
  "add_tx R p retry d = d\<lparr>wager_transactions := wager_transactions d @ [stored_tx (tx_row_of R p retry)]\<rparr>"

definition add_events :: "outbox_row list \<Rightarrow> database \<Rightarrow> database" where
  "add_events es d = d\<lparr>outbox_events := outbox_events d @ es\<rparr>"

text \<open>The payload of \<open>WalletBalanceChanged\<close>, from the row of the wallet before the movement.\<close>

definition movement_payload :: "runtime \<Rightarrow> wager \<Rightarrow> wallet_row \<Rightarrow> string \<Rightarrow> int64 \<Rightarrow> string" where
  "movement_payload R p q dir newAmount =
     marshal_map
       [(''walletId'', JString (w_id q)),
        (''transactionId'', JString (txid p)),
        (''direction'', JString dir),
        (''amount'', JString (money_string (wmoney p))),
        (''currency'', JString (currency (wmoney p))),
        (''balanceBefore'', JString (money_string (NewInternalMoney R (w_amount q) (w_currency q)))),
        (''balanceAfter'', JString (money_string (NewInternalMoney R newAmount (w_currency q)))),
        (''walletVersion'', JInt (sint (w_version q + 1)))]"

lemma payload_of_movement:
  assumes "wid w = w_id q" "version w = w_version q + 1" "balance w = NewInternalMoney R newAmount (w_currency q)"
  shows "balance_changed_payload R p w dir (w_amount q) = movement_payload R p q dir newAmount"
  by (simp add: balance_changed_payload_def movement_payload_def assms NewInternalMoney_def money_string_def)

text \<open>The transaction is processed and \<open>newAmount\<close> is the balance of its wallet.\<close>

definition money_moved ::
  "runtime \<Rightarrow> wager \<Rightarrow> wallet_row \<Rightarrow> string \<Rightarrow> int64 \<Rightarrow> database \<Rightarrow> database \<Rightarrow> bool" where
  "money_moved R p q dir newAmount d d' \<longleftrightarrow>
     (\<exists>upd l e1 e2.
        entry_for l p q dir newAmount
        \<and> announces e1 (w_id q) ''WalletBalanceChanged'' (movement_payload R p q dir newAmount)
        \<and> announces e2 (txid p) ''WagerTransactionProcessed'' ''{}''
        \<and> d' = add_events [e1, e2]
                 ((add_tx R p None d)
                   \<lparr>wallets := set_balance q newAmount upd (wallets d),
                    wallet_ledger_entries := wallet_ledger_entries d @ [l]\<rparr>))"

definition only_stored :: "runtime \<Rightarrow> wager \<Rightarrow> int option \<Rightarrow> string \<Rightarrow> database \<Rightarrow> database \<Rightarrow> bool" where
  "only_stored R p retry event d d' \<longleftrightarrow>
     (\<exists>e. announces e (txid p) event ''{}'' \<and> d' = add_events [e] (add_tx R p retry d))"

definition processed :: "wager \<Rightarrow> wager \<Rightarrow> bool" where
  "processed t p \<longleftrightarrow> (\<exists>now. p = t\<lparr>status := StatusProcessed, updatedAt := now\<rparr>)"

text \<open>A parked transaction is to be tried again five seconds after a reading of the clock in the same call.\<close>

definition wager_effect :: "runtime \<Rightarrow> txenv \<Rightarrow> wager \<Rightarrow> wallet_row \<Rightarrow> database \<Rightarrow> wager \<Rightarrow> database \<Rightarrow> bool" where
  "wager_effect R X t q d p d' \<longleftrightarrow>
     (let m = amount (wmoney t) in
      if kind t = KindBet then
        (if sint (w_amount q) < sint m then
           (\<exists>now. p = t\<lparr>status := StatusRejected, failureCode := ''INSUFFICIENT_BALANCE'', updatedAt := now\<rparr>)
           \<and> only_stored R p None ''WagerTransactionRejected'' d d'
         else processed t p \<and> money_moved R p q ''DEBIT'' (w_amount q - m) d d')
      else if kind t = KindLoss then
        processed t p \<and> only_stored R p None ''WagerTransactionProcessed'' d d'
      else
        case (if kind t = KindWin then None else Some (tx_by_external (providerID t) (referenceExternalID t) d)) of
          Some None \<Rightarrow>
            (\<exists>now. p = t\<lparr>status := StatusPendingReference, updatedAt := now\<rparr>)
            \<and> (\<exists>k. only_stored R p (Some (clock X k + 5000000000)) ''WagerTransactionPendingReference'' d d')
        | other \<Rightarrow>
            (\<forall>r. other = Some (Some r) \<longrightarrow> t_status r = StatusProcessed)
            \<and> in_int64 (sint (w_amount q) + sint m)
            \<and> processed t p \<and> money_moved R p q ''CREDIT'' (w_amount q + m) d d')"

section \<open>The code implements the specification\<close>

lemma add_tx_saved:
  "SaveWithRetryAt R live_tx p retry X s = (Inr u, s') \<Longrightarrow> db s' = add_tx R p retry (db s)"
  by (auto simp: add_tx_def insert_tx_Inr dest!: Tx_Save_ok)

lemma event_added:
  assumes "saveOutboxEvent R live_tx a n p X s = (Inr u, s')" "pg_trunc 100 n = n"
  shows "\<exists>e. announces e a n p \<and> db s' = add_events [e] (db s)"
  using saveOutboxEvent_row [OF assms] by (simp add: add_events_def)

lemma settle_moves:
  assumes ok: "settle R live_tx input t w dir True (w_version q) (w_amount q) X s = (Inr (p, fw, b), s')"
    and w: "wid w = w_id q" "version w = w_version q + 1" "pg_trunc 6 dir = dir"
    and new: "balance w = NewInternalMoney R (amount (balance w)) (w_currency q)"
  shows "processed t p \<and> fw = w \<and> \<not> b \<and> money_moved R p q dir (amount (balance w)) (db s) (db s')"
proof -
  let ?s0 = "s\<lparr>ticks := Suc (ticks s)\<rparr>"
  obtain p' where tr: "TransitionToProcessed (clock X (ticks s)) t = Inr p'"
    and tried: "act_try (SaveWithRetryAt R live_tx p' None) (handleSaveConflict R live_tx input p')
       (\<lambda>_. finish R live_tx p' w dir True (w_version q) (w_amount q)) X ?s0 = (Inr (p, fw, b), s')"
    using ok by (auto simp: settle_def Tx_Save_def act_bind_Inr act_now_Inr act_pure_Inr)
  obtain s1 where sv: "SaveWithRetryAt R live_tx p' None X ?s0 = (Inr (), s1)"
    and fin: "finish R live_tx p' w dir True (w_version q) (w_amount q) X s1 = (Inr (p, fw, b), s')"
    using tried unfolding save_or_fail by blast
  have fw: "fw = w" "\<not> b" "p' = p" using fin by (auto simp: finish_def act_bind_Inr act_return_Inr)
  obtain s2 s3 where mv: "move_funds R live_tx p w dir (w_version q) (w_amount q) X s1 = (Inr (), s2)"
    and e1: "saveOutboxEvent R live_tx (wid w) ''WalletBalanceChanged''
            (balance_changed_payload R p w dir (w_amount q)) X s2 = (Inr (), s3)"
    and e2: "saveOutboxEvent R live_tx (txid p) ''WagerTransactionProcessed'' (marshal_opaque_struct p) X s3 = (Inr (), s')"
    using fin fw(3) by (auto simp: finish_def act_bind_Inr act_return_Inr)
  have p: "p = t\<lparr>status := StatusProcessed, updatedAt := clock X (ticks s)\<rparr>"
    using tr fw(3) by (simp add: TransitionToProcessed_Inr)
  have d1: "db s1 = add_tx R p None (db s)" using add_tx_saved [OF sv] fw(3) by simp
  obtain upd l where l: "entry_for l p q dir (amount (balance w))"
    and d2: "db s2 = (db s1)\<lparr>wallets := set_balance q (amount (balance w)) upd (wallets (db s1)),
                      wallet_ledger_entries := wallet_ledger_entries (db s1) @ [l]\<rparr>"
    using move_funds_row [OF mv w] by blast
  obtain x1 where x1: "announces x1 (w_id q) ''WalletBalanceChanged'' (movement_payload R p q dir (amount (balance w)))"
    "db s3 = add_events [x1] (db s2)"
    using event_added [OF e1] w(1) payload_of_movement [OF w(1,2) new] by auto
  obtain x2 where x2: "announces x2 (txid p) ''WagerTransactionProcessed'' ''{}''" "db s' = add_events [x2] (db s3)"
    using event_added [OF e2] by (auto simp: marshal_opaque_struct_def)
  have "db s' = add_events [x1, x2] ((add_tx R p None (db s))
         \<lparr>wallets := set_balance q (amount (balance w)) upd (wallets (db s)),
          wallet_ledger_entries := wallet_ledger_entries (db s) @ [l]\<rparr>)"
    using d1 d2 x1(2) x2(2) by (simp add: add_events_def add_tx_def)
  then have "money_moved R p q dir (amount (balance w)) (db s) (db s')"
    unfolding money_moved_def using l x1(1) x2(1) by blast
  then show ?thesis using p fw by (auto simp: processed_def)
qed


text \<open>The wallet a call returns is the one that is stored.\<close>

definition stored_as :: "runtime \<Rightarrow> string \<Rightarrow> wallet \<Rightarrow> database \<Rightarrow> bool" where
  "stored_as R i w d \<longleftrightarrow>
     (\<exists>q. wallet_by_id i d = Some q \<and> balance w = NewInternalMoney R (w_amount q) (w_currency q))"

lemma wallet_by_id_frame: "wallets d' = wallets d \<Longrightarrow> wallet_by_id i d' = wallet_by_id i d"
  by (simp add: wallet_by_id_def)

lemma wallet_by_id_set_balance:
  assumes "wallet_by_id i d = Some q" "wallets d' = set_balance q amt upd (wallets d)"
  shows "\<exists>q'. wallet_by_id i d' = Some q' \<and> w_amount q' = amt \<and> w_currency q' = w_currency q
     \<and> w_version q' = w_version q + 1 \<and> w_player_id q' = w_player_id q \<and> w_id q' = w_id q"
  using assms by (simp add: wallet_by_id_def set_balance_def find_update_where)

lemma money_moved_stored:
  assumes "money_moved R p q dir amt d d'" "wallet_by_id i d = Some q" "balance w = NewInternalMoney R amt (w_currency q)"
  shows "stored_as R i w d'"
proof -
  obtain upd where "wallets d' = set_balance q amt upd (wallets d)"
    using assms(1) by (auto simp: money_moved_def add_events_def add_tx_def)
  from wallet_by_id_set_balance [OF assms(2) this] show ?thesis
    using assms(3) by (auto simp: stored_as_def)
qed

lemma only_stored_wallets: "only_stored R p retry ev d d' \<Longrightarrow> wallets d' = wallets d \<and> wallet_ledger_entries d' = wallet_ledger_entries d"
  by (auto simp: only_stored_def add_events_def add_tx_def)

lemma settle_loss:
  assumes "settle R live_tx input t w dir False v b X s = (Inr (p, fw, r), s')"
  shows "processed t p \<and> fw = w \<and> \<not> r \<and> only_stored R p None ''WagerTransactionProcessed'' (db s) (db s')"
proof -
  let ?s0 = "s\<lparr>ticks := Suc (ticks s)\<rparr>"
  obtain p' where tr: "TransitionToProcessed (clock X (ticks s)) t = Inr p'"
    and tried: "act_try (SaveWithRetryAt R live_tx p' None) (handleSaveConflict R live_tx input p')
       (\<lambda>_. finish R live_tx p' w dir False v b) X ?s0 = (Inr (p, fw, r), s')"
    using assms by (auto simp: settle_def Tx_Save_def act_bind_Inr act_now_Inr act_pure_Inr)
  obtain s1 where sv: "SaveWithRetryAt R live_tx p' None X ?s0 = (Inr (), s1)"
    and fin: "finish R live_tx p' w dir False v b X s1 = (Inr (p, fw, r), s')"
    using tried unfolding save_or_fail by blast
  have e: "saveOutboxEvent R live_tx (txid p') ''WagerTransactionProcessed'' (marshal_opaque_struct p') X s1 = (Inr (), s')"
    and fw: "fw = w" "\<not> r" "p' = p"
    using fin by (auto simp: finish_def act_bind_Inr act_return_Inr)
  obtain x where "announces x (txid p) ''WagerTransactionProcessed'' ''{}''" "db s' = add_events [x] (db s1)"
    using event_added [OF e] fw(3) by (auto simp: marshal_opaque_struct_def)
  moreover have "db s1 = add_tx R p None (db s)" using add_tx_saved [OF sv] fw(3) by simp
  ultimately have "only_stored R p None ''WagerTransactionProcessed'' (db s) (db s')"
    by (auto simp: only_stored_def)
  then show ?thesis using fw tr by (auto simp: processed_def TransitionToProcessed_Inr)
qed

lemma reject_effect:
  assumes "reject_bet R live_tx input t w X s = (Inr (p, fw, r), s')"
  shows "(\<exists>now. p = t\<lparr>status := StatusRejected, failureCode := ''INSUFFICIENT_BALANCE'', updatedAt := now\<rparr>)
     \<and> fw = w \<and> \<not> r \<and> only_stored R p None ''WagerTransactionRejected'' (db s) (db s')"
proof -
  let ?s0 = "s\<lparr>ticks := Suc (ticks s)\<rparr>"
  obtain p' where tr: "TransitionToRejected (clock X (ticks s)) ''INSUFFICIENT_BALANCE'' t = Inr p'"
    and tried: "act_try (SaveWithRetryAt R live_tx p' None) (handleSaveConflict R live_tx input p')
       (\<lambda>_. act_bind (saveOutboxEvent R live_tx (txid p') ''WagerTransactionRejected'' (marshal_opaque_struct p'))
         (\<lambda>_. act_return (p', w, False))) X ?s0 = (Inr (p, fw, r), s')"
    using assms by (auto simp: reject_bet_def Tx_Save_def act_bind_Inr act_now_Inr act_pure_Inr)
  obtain s1 where sv: "SaveWithRetryAt R live_tx p' None X ?s0 = (Inr (), s1)"
    and e: "saveOutboxEvent R live_tx (txid p') ''WagerTransactionRejected'' (marshal_opaque_struct p') X s1 = (Inr (), s')"
    and fw: "fw = w" "\<not> r" "p' = p"
    using tried unfolding save_or_fail by (auto simp: act_bind_Inr act_return_Inr)
  obtain x where "announces x (txid p) ''WagerTransactionRejected'' ''{}''" "db s' = add_events [x] (db s1)"
    using event_added [OF e] fw(3) by (auto simp: marshal_opaque_struct_def)
  moreover have "db s1 = add_tx R p None (db s)" using add_tx_saved [OF sv] fw(3) by simp
  ultimately show ?thesis using fw tr by (auto simp: only_stored_def TransitionToRejected_Inr)
qed

lemma park_effect:
  assumes "park R live_tx input t w X s = (Inr (p, fw, r), s')"
  shows "(\<exists>now. p = t\<lparr>status := StatusPendingReference, updatedAt := now\<rparr>)
     \<and> fw = w \<and> \<not> r \<and> (\<exists>k. only_stored R p (Some (clock X k + 5000000000)) ''WagerTransactionPendingReference'' (db s) (db s'))"
proof -
  let ?s = "s\<lparr>ticks := Suc (Suc (ticks s))\<rparr>" and ?retry = "clock X (Suc (ticks s)) + 5000000000"
  obtain p' where tr: "TransitionToPendingReference (clock X (ticks s)) t = Inr p'"
    and tried: "act_try (SaveWithRetryAt R live_tx p' (Some ?retry)) (handleSaveConflict R live_tx input p')
       (\<lambda>_. act_bind (saveOutboxEvent R live_tx (txid p') ''WagerTransactionPendingReference'' (marshal_opaque_struct p'))
         (\<lambda>_. act_return (p', w, False))) X ?s = (Inr (p, fw, r), s')"
    using assms by (auto simp: park_def act_bind_Inr act_now_Inr act_pure_Inr)
  obtain s1 where sv: "SaveWithRetryAt R live_tx p' (Some ?retry) X ?s = (Inr (), s1)"
    and e: "saveOutboxEvent R live_tx (txid p') ''WagerTransactionPendingReference'' (marshal_opaque_struct p') X s1 = (Inr (), s')"
    and fw: "fw = w" "\<not> r" "p' = p"
    using tried unfolding save_or_fail by (auto simp: act_bind_Inr act_return_Inr)
  obtain x where "announces x (txid p) ''WagerTransactionPendingReference'' ''{}''" "db s' = add_events [x] (db s1)"
    using event_added [OF e] fw(3) by (auto simp: marshal_opaque_struct_def)
  moreover have "db s1 = add_tx R p (Some ?retry) (db s)" using add_tx_saved [OF sv] fw(3) by simp
  ultimately show ?thesis using fw tr by (auto simp: only_stored_def TransitionToPendingReference_Inr)
qed

text \<open>A movement on the wallet of a row.\<close>

lemma moved_row:
  assumes "wallet_of_row R q = Inr w" "w' = moved now (funds w + i) w" "in_int64 (funds w + i)"
  shows "wid w' = w_id q" "version w' = w_version q + 1" "amount (balance w') = w_amount q + word_of_int i"
    "balance w' = NewInternalMoney R (w_amount q + word_of_int i) (w_currency q)"
proof -
  have w: "w = \<lparr>wid = w_id q, playerID = w_player_id q, balance = NewInternalMoney R (w_amount q) (w_currency q),
      version = w_version q, wcreatedAt = w_created_at q, wupdatedAt = w_updated_at q\<rparr>"
    using assms(1) by (simp add: wallet_of_row_def RehydrateWallet_Inr)
  have "word_of_int (funds w + i) = w_amount q + word_of_int i"
    by (simp add: w funds_def cents_def NewInternalMoney_def)
  then show "wid w' = w_id q" "version w' = w_version q + 1" "amount (balance w') = w_amount q + word_of_int i"
    "balance w' = NewInternalMoney R (w_amount q + word_of_int i) (w_currency q)"
    using assms(2) by (simp_all add: w moved_def NewInternalMoney_def)
qed

lemma debit_row:
  assumes "wallet_of_row R q = Inr w" "Debit now m w = Inr w'"
  shows "wid w' = w_id q" "version w' = w_version q + 1" "amount (balance w') = w_amount q - amount m"
    "balance w' = NewInternalMoney R (w_amount q - amount m) (w_currency q)" "sint (amount m) \<le> sint (w_amount q)"
proof -
  have d: "0 < cents m" "cents m \<le> funds w" "w' = moved now (funds w + - cents m) w"
    using assms(2) by (simp_all add: Debit_Inr)
  have i: "in_int64 (funds w + - cents m)"
    using d(1,2) cents_range [of "balance w"] unfolding in_int64_def funds_def by linarith
  have c: "w_amount q + word_of_int (- cents m) = w_amount q - amount m" by (simp add: cents_def)
  show "wid w' = w_id q" "version w' = w_version q + 1" "amount (balance w') = w_amount q - amount m"
    "balance w' = NewInternalMoney R (w_amount q - amount m) (w_currency q)"
    using moved_row [OF assms(1) d(3) i] unfolding c by simp_all
  show "sint (amount m) \<le> sint (w_amount q)"
    using d(2) assms(1) by (simp add: wallet_of_row_def RehydrateWallet_Inr funds_def cents_def NewInternalMoney_def)
qed

lemma credit_row:
  assumes "wallet_of_row R q = Inr w" "Credit now m w = Inr w'"
  shows "wid w' = w_id q" "version w' = w_version q + 1" "amount (balance w') = w_amount q + amount m"
    "balance w' = NewInternalMoney R (w_amount q + amount m) (w_currency q)"
    "in_int64 (sint (w_amount q) + sint (amount m))" "wupdatedAt w' = now"
proof -
  have d: "in_int64 (funds w + cents m)" "w' = moved now (funds w + cents m) w"
    using assms(2) by (simp_all add: Credit_Inr)
  have c: "w_amount q + word_of_int (cents m) = w_amount q + amount m" by (simp add: cents_def)
  show "wid w' = w_id q" "version w' = w_version q + 1" "amount (balance w') = w_amount q + amount m"
    "balance w' = NewInternalMoney R (w_amount q + amount m) (w_currency q)"
    using moved_row [OF assms(1) d(2,1)] unfolding c by simp_all
  show "in_int64 (sint (w_amount q) + sint (amount m))"
    using d(1) assms(1) by (simp add: wallet_of_row_def RehydrateWallet_Inr funds_def cents_def NewInternalMoney_def)
  show "wupdatedAt w' = now" using d(2) by (simp add: moved_def)
qed

lemma wager_effect_simps:
  "kind t = KindBet \<Longrightarrow> wager_effect R X t q d p d' \<longleftrightarrow>
     (if sint (w_amount q) < sint (amount (wmoney t)) then
        (\<exists>now. p = t\<lparr>status := StatusRejected, failureCode := ''INSUFFICIENT_BALANCE'', updatedAt := now\<rparr>)
        \<and> only_stored R p None ''WagerTransactionRejected'' d d'
      else processed t p \<and> money_moved R p q ''DEBIT'' (w_amount q - amount (wmoney t)) d d')"
  "kind t = KindLoss \<Longrightarrow> wager_effect R X t q d p d' \<longleftrightarrow>
     processed t p \<and> only_stored R p None ''WagerTransactionProcessed'' d d'"
  "kind t = KindWin \<Longrightarrow> wager_effect R X t q d p d' \<longleftrightarrow>
     in_int64 (sint (w_amount q) + sint (amount (wmoney t)))
     \<and> processed t p \<and> money_moved R p q ''CREDIT'' (w_amount q + amount (wmoney t)) d d'"
  "kind t = KindRefund \<or> kind t = KindRollback \<Longrightarrow> wager_effect R X t q d p d' \<longleftrightarrow>
     (case tx_by_external (providerID t) (referenceExternalID t) d of
        None \<Rightarrow> (\<exists>now. p = t\<lparr>status := StatusPendingReference, updatedAt := now\<rparr>)
               \<and> (\<exists>k. only_stored R p (Some (clock X k + 5000000000)) ''WagerTransactionPendingReference'' d d')
      | Some r \<Rightarrow> t_status r = StatusProcessed \<and> in_int64 (sint (w_amount q) + sint (amount (wmoney t)))
               \<and> processed t p \<and> money_moved R p q ''CREDIT'' (w_amount q + amount (wmoney t)) d d')"
  subgoal by (simp add: wager_effect_def Let_def)
  subgoal by (simp add: wager_effect_def Let_def)
  subgoal by (simp add: wager_effect_def Let_def)
  subgoal by (cases "tx_by_external (providerID t) (referenceExternalID t) d")
      (elim disjE; simp add: wager_effect_def Let_def)+
  done

lemma credit_effect:
  assumes "wallet_by_id (walletID t) (db s) = Some q" "wallet_of_row R q = Inr w"
    "Credit now (wmoney t) w = Inr w'" "db s1 = db s"
    "settle R live_tx input t w' ''CREDIT'' True (version w) (amount (balance w)) X s1 = (Inr (p, fw, r), s')"
  shows "\<not> r \<and> stored_as R (walletID t) fw (db s') \<and> in_int64 (sint (w_amount q) + sint (amount (wmoney t)))
     \<and> processed t p \<and> money_moved R p q ''CREDIT'' (w_amount q + amount (wmoney t)) (db s) (db s')"
proof -
  note c = credit_row [OF assms(2,3)]
  have "version w = w_version q" "amount (balance w) = w_amount q"
    using assms(2) by (simp_all add: wallet_of_row_def RehydrateWallet_Inr NewInternalMoney_def)
  then have "processed t p \<and> fw = w' \<and> \<not> r \<and> money_moved R p q ''CREDIT'' (w_amount q + amount (wmoney t)) (db s) (db s')"
    using settle_moves [of R input t w' "''CREDIT''" q X s1 p fw r s'] assms(4,5) c(1-4) by simp
  then show ?thesis using c(4,5) money_moved_stored assms(1) by blast
qed

lemma stored_keeps_wallet:
  assumes "only_stored R p retry ev d d'" "wallet_by_id i d = Some q" "wallet_of_row R q = Inr w"
  shows "stored_as R i w d'"
  using only_stored_wallets [OF assms(1)] assms(2,3) wallet_by_id_frame [of d' d]
  by (auto simp: stored_as_def wallet_of_row_def RehydrateWallet_Inr)

lemma process_bet_effect:
  assumes q: "wallet_by_id (walletID t) (db s) = Some q" "wallet_of_row R q = Inr w"
    and ok: "process_new R live_tx input t w X s = (Inr (p, fw, r), s')" and bet: "kind t = KindBet" and pos: "0 < cents (wmoney t)"
  shows "\<not> r \<and> stored_as R (walletID t) fw (db s') \<and> wager_effect R X t q (db s) p (db s')"
proof -
  have w: "version w = w_version q" "amount (balance w) = w_amount q" "funds w = sint (w_amount q)"
    using q(2) by (simp_all add: wallet_of_row_def RehydrateWallet_Inr NewInternalMoney_def funds_def cents_def)
  let ?s = "s\<lparr>ticks := Suc (ticks s)\<rparr>" and ?now = "clock X (ticks s)"
  show ?thesis
  proof (cases "Debit ?now (wmoney t) w")
    case (Inl e)
    then have e: "errors_is e ErrInsufficientBalance" and rej: "reject_bet R live_tx input t w X ?s = (Inr (p, fw, r), s')"
      using ok bet by (auto simp: process_new_def Let_def act_bind_Inr act_now_Inr act_fail_Inr split: if_splits)
    have "sint (w_amount q) < sint (amount (wmoney t))"
      using Inl e pos w(3) by (auto simp: Debit_cases cents_def split: if_splits)
    then show ?thesis
      using reject_effect [OF rej] stored_keeps_wallet [OF _ q] by (auto simp: wager_effect_simps(1) [OF bet])
  next
    case (Inr w')
    note b = debit_row [OF q(2) Inr]
    have "settle R live_tx input t w' ''DEBIT'' True (w_version q) (w_amount q) X ?s = (Inr (p, fw, r), s')"
      using ok bet Inr w by (simp add: process_new_def Let_def act_bind_Inr act_now_Inr)
    then have "processed t p \<and> fw = w' \<and> \<not> r \<and> money_moved R p q ''DEBIT'' (w_amount q - amount (wmoney t)) (db s) (db s')"
      using settle_moves [of R input t w' "''DEBIT''" q X ?s p fw r s'] b(1-4) by simp
    then show ?thesis
      using b(4,5) money_moved_stored q(1) by (auto simp: wager_effect_simps(1) [OF bet])
  qed
qed

lemma process_reference_effect:
  assumes q: "wallet_by_id (walletID t) (db s) = Some q" "wallet_of_row R q = Inr w"
    and ok: "process_new R live_tx input t w X s = (Inr (p, fw, r), s')" and ref: "kind t = KindRefund \<or> kind t = KindRollback"
  shows "\<not> r \<and> stored_as R (walletID t) fw (db s') \<and> wager_effect R X t q (db s) p (db s')"
  using ok ref
proof (cases rule: process_reference_cases)
  case (waits s1)
  show ?thesis
    using park_effect [OF waits(3)] waits(1,2) stored_keeps_wallet [OF _ q] by (auto simp: wager_effect_simps(4) [OF ref])
next
  case (credits y now w' s1)
  show ?thesis
    using credit_effect [OF q credits(4,1,5)] credits(2,3) by (simp add: wager_effect_simps(4) [OF ref])
qed

lemma process_new_effect:
  assumes q: "wallet_by_id (walletID t) (db s) = Some q" "wallet_of_row R q = Inr w"
    and ok: "process_new R live_tx input t w X s = (Inr (p, fw, r), s')"
    and pos: "kind t = KindBet \<Longrightarrow> 0 < cents (wmoney t)"
  shows "\<not> r \<and> stored_as R (walletID t) fw (db s') \<and> wager_effect R X t q (db s) p (db s')"
proof -
  let ?s = "s\<lparr>ticks := Suc (ticks s)\<rparr>" and ?now = "clock X (ticks s)"
  consider "kind t = KindBet" | "kind t = KindWin" | "kind t = KindLoss" | "kind t = KindRefund \<or> kind t = KindRollback"
    using process_new_kind [OF ok] by blast
  then show ?thesis
  proof cases
    case 1
    then show ?thesis using process_bet_effect [OF q ok] pos by blast
  next
    case win: 2
    then obtain w' where "Credit ?now (wmoney t) w = Inr w'"
      "settle R live_tx input t w' ''CREDIT'' True (version w) (amount (balance w)) X ?s = (Inr (p, fw, r), s')"
      using ok by (auto simp: process_new_def Let_def act_bind_Inr act_now_Inr act_pure_Inr)
    then show ?thesis
      using credit_effect [OF q, of ?now w' ?s input X p fw r s'] by (simp add: wager_effect_simps(3) [OF win])
  next
    case loss: 3
    then have "settle R live_tx input t w '''' False (version w) (amount (balance w)) X s = (Inr (p, fw, r), s')"
      using ok by (simp add: process_new_def Let_def)
    then show ?thesis using settle_loss stored_keeps_wallet [OF _ q] by (fastforce simp: wager_effect_simps(2) [OF loss])
  next
    case 4
    then show ?thesis using process_reference_effect [OF q ok] by blast
  qed
qed

section \<open>The whole call\<close>

definition existing_for :: "input_dto \<Rightarrow> database \<Rightarrow> tx_row option" where
  "existing_for input d =
     (case tx_by_external (in_ProviderID input) (in_ExternalTransactionID input) d of
        Some r \<Rightarrow> Some r
      | None \<Rightarrow> tx_by_key (in_IdempotencyKey input) d)"

lemma lookupExisting_Inr:
  assumes "lookupExisting R live_tx input h X s = (Inr x, s')"
  shows "db s' = db s" "x = map_option (scan_tx R) (existing_for input (db s))"
    "\<And>r. existing_for input (db s) = Some r \<Longrightarrow> t_payload_hash r = h"
proof -
  let ?ext = "tx_by_external (in_ProviderID input) (in_ExternalTransactionID input) (db s)"
  obtain e s1 where e: "FindByExternalIDTx R live_tx (in_ProviderID input) (in_ExternalTransactionID input) X s = (Inr e, s1)"
    and rest: "(case e of
          Some t \<Rightarrow> if payloadHash t \<noteq> h then act_fail ErrTransactionConflict else act_return (Some t)
        | None \<Rightarrow>
            act_bind (FindByIdempotencyKey R live_tx (in_IdempotencyKey input))
              (\<lambda>byKey. case byKey of
                 Some t \<Rightarrow> if payloadHash t \<noteq> h then act_fail ErrTransactionConflict else act_return (Some t)
               | None \<Rightarrow> act_return None)) X s1 = (Inr x, s')"
    using assms by (auto simp: lookupExisting_def act_bind_Inr)
  have s1: "db s1 = db s" "e = map_option (scan_tx R) ?ext" using find_tx_ok(1) [OF e] by simp_all
  have "db s' = db s \<and> x = map_option (scan_tx R) (existing_for input (db s))
      \<and> (\<forall>r. existing_for input (db s) = Some r \<longrightarrow> t_payload_hash r = h)"
  proof (cases ?ext)
    case (Some r)
    then show ?thesis
      using rest s1 by (auto simp: existing_for_def act_return_Inr act_fail_Inr split: if_splits)
  next
    case None
    then obtain k s2 where k: "FindByIdempotencyKey R live_tx (in_IdempotencyKey input) X s1 = (Inr k, s2)"
      and rest': "(case k of
           Some t \<Rightarrow> if payloadHash t \<noteq> h then act_fail ErrTransactionConflict else act_return (Some t)
         | None \<Rightarrow> act_return None) X s2 = (Inr x, s')"
      using rest s1 by (auto simp: act_bind_Inr)
    have "db s2 = db s" "k = map_option (scan_tx R) (tx_by_key (in_IdempotencyKey input) (db s))"
      using find_tx_ok(2) [OF k] s1 by simp_all
    then show ?thesis
      using rest' None
      by (cases "tx_by_key (in_IdempotencyKey input) (db s)")
        (auto simp: existing_for_def act_return_Inr act_fail_Inr split: if_splits)
  qed
  then show "db s' = db s" "x = map_option (scan_tx R) (existing_for input (db s))"
    "\<And>r. existing_for input (db s) = Some r \<Longrightarrow> t_payload_hash r = h" by blast+
qed

lemma prepare_wager_Inr:
  "prepare_wager R cfg now input = Inr t \<longleftrightarrow>
     (\<exists>m. NewMoneyFromString R (in_Amount input) (in_Currency input) = Inr m
        \<and> IsCurrencySupported R m (SupportedCurrencies cfg)
        \<and> in_ProviderID input \<noteq> '''' \<and> in_ExternalTransactionID input \<noteq> '''' \<and> in_IdempotencyKey input \<noteq> ''''
        \<and> in_WalletID input \<noteq> '''' \<and> in_PlayerID input \<noteq> ''''
        \<and> valid_wager_fields (in_Kind input) m (in_ReferenceExternalID input)
        \<and> t = CalculateAndSetPayloadHash
               (new_wager now (internal_tx_id input) (in_ProviderID input) (in_ExternalTransactionID input)
                 (in_IdempotencyKey input) (in_WalletID input) (in_PlayerID input) (in_RoundID input)
                 (in_GameID input) (in_Kind input) m (in_ReferenceExternalID input)))"
proof -
  have "prepare_wager R cfg now input = Inr t \<longleftrightarrow>
     (\<exists>m t0. NewMoneyFromString R (in_Amount input) (in_Currency input) = Inr m
        \<and> IsCurrencySupported R m (SupportedCurrencies cfg)
        \<and> NewWagerTransaction now (internal_tx_id input) (in_ProviderID input)
              (in_ExternalTransactionID input) (in_IdempotencyKey input) (in_WalletID input)
              (in_PlayerID input) (in_RoundID input) (in_GameID input) (in_Kind input) m
              (in_ReferenceExternalID input) = Inr t0
        \<and> t = CalculateAndSetPayloadHash t0)"
    by (auto simp: prepare_wager_def split: sum.splits)
  moreover have "internal_tx_id input \<noteq> []" by (simp add: internal_tx_id_def)
  ultimately show ?thesis by (auto simp: NewWagerTransaction_Inr)
qed

lemma prepared_fields:
  assumes "prepare_wager R cfg now input = Inr t"
  shows "txid t = internal_tx_id input" "walletID t = in_WalletID input" "wplayerID t = in_PlayerID input"
    "kind t = in_Kind input" "status t = StatusPending" "providerID t = in_ProviderID input"
    "externalTransactionID t = in_ExternalTransactionID input" "idempotencyKey t = in_IdempotencyKey input"
    "kind t = KindBet \<Longrightarrow> 0 < cents (wmoney t)"
  using assms
  by (auto simp: prepare_wager_Inr CalculateAndSetPayloadHash_def new_wager_def RehydrateWagerTransaction_def
      valid_wager_fields_def)

definition shown_balance :: "runtime \<Rightarrow> wallet_row \<Rightarrow> money_dto" where
  "shown_balance R q =
     \<lparr>dto_Amount = money_string (NewInternalMoney R (w_amount q) (w_currency q)),
      dto_Currency = currency (NewInternalMoney R (w_amount q) (w_currency q))\<rparr>"

text \<open>
  The outcome of a call that returns without an error. A call on a transaction that is stored
  already is a replay and writes nothing; any other call has the effect that \<open>wager_effect\<close> specifies.
\<close>

definition call_effect :: "runtime \<Rightarrow> txenv \<Rightarrow> input_dto \<Rightarrow> wager \<Rightarrow> output_dto \<Rightarrow> database \<Rightarrow> database \<Rightarrow> bool" where
  "call_effect R X input t out d d' \<longleftrightarrow>
     (case existing_for input d of
        Some x \<Rightarrow>
          t_payload_hash x = payloadHash t \<and> d' = d
          \<and> (\<exists>q. wallet_by_id (t_wallet_id x) d = Some q
               \<and> out = \<lparr>out_TransactionID = t_id x, out_Status = t_status x, out_Balance = shown_balance R q,
                        out_IdempotentReplay = True\<rparr>)
      | None \<Rightarrow>
          (\<exists>q p q'. wallet_by_id (in_WalletID input) d = Some q \<and> w_player_id q = in_PlayerID input
             \<and> wager_effect R X t q d p d' \<and> wallet_by_id (in_WalletID input) d' = Some q'
             \<and> out = \<lparr>out_TransactionID = internal_tx_id input, out_Status = status p,
                      out_Balance = shown_balance R q', out_IdempotentReplay = False\<rparr>))"

definition claims_message :: "inbox_claim option \<Rightarrow> database \<Rightarrow> database \<Rightarrow> bool" where
  "claims_message inbox d d1 \<longleftrightarrow>
     (case inbox of
        None \<Rightarrow> d1 = d
      | Some c \<Rightarrow> insert_inbox \<lparr>i_message_id = MessageID c, i_consumer_name = ConsumerName c,
                     i_payload_hash = ClaimPayloadHash c\<rparr> d = Inr d1)"

lemma wager_effect_txid: "wager_effect R X t q d p d' \<Longrightarrow> txid p = txid t"
  by (auto simp: wager_effect_def processed_def Let_def split: option.splits if_splits)

lemma replay_Inr:
  assumes "replay R live_tx (scan_tx R x) X s = (Inr (p, fw, r), s')"
  shows "db s' = db s \<and> r \<and> p = MarkAsIdempotentReplay (scan_tx R x) \<and> stored_as R (t_wallet_id x) fw (db s)"
proof -
  obtain s1 where w: "FindByIDWithLock R live_tx (t_wallet_id x) X s = (Inr fw, s1)"
    and out: "p = MarkAsIdempotentReplay (scan_tx R x)" "r" "s' = s1"
    using assms by (auto simp: replay_def act_bind_Inr act_return_Inr)
  from w show ?thesis
    by (rule FindByIDWithLock_ok) (use out in \<open>auto simp: stored_as_def wallet_of_row_def RehydrateWallet_Inr\<close>)
qed

lemma process_checked_effect:
  assumes t: "prepare_wager R cfg now input = Inr t"
    and ok: "process_checked R live_tx input t X s = (Inr oc, s')"
  shows "call_effect R X input t (output_of oc) (db s) (db s')"
proof -
  obtain p fw r where oc: "oc = (p, fw, r)" by (cases oc)
  note f = prepared_fields [OF t]
  obtain ex s1 where ex: "lookupExisting R live_tx input (payloadHash t) X s = (Inr ex, s1)"
    and rest: "(case ex of Some t' \<Rightarrow> replay R live_tx t'
       | None \<Rightarrow> act_bind (FindByIDWithLock R live_tx (walletID t)) (\<lambda>wallet.
             if playerID wallet \<noteq> wplayerID t then act_fail ErrWalletOwnerMismatch
             else process_new R live_tx input t wallet)) X s1 = (Inr (p, fw, r), s')"
    using ok oc by (auto simp: process_checked_def act_bind_Inr)
  note l = lookupExisting_Inr [OF ex]
  show ?thesis
  proof (cases "existing_for input (db s)")
    case (Some x)
    then have "replay R live_tx (scan_tx R x) X s1 = (Inr (p, fw, r), s')" using rest l by simp
    from replay_Inr [OF this] show ?thesis
      using Some l oc
      by (auto simp: call_effect_def output_of_def stored_as_def shown_balance_def
          MarkAsIdempotentReplay_def)
  next
    case None
    then obtain w s2 where w: "FindByIDWithLock R live_tx (walletID t) X s1 = (Inr w, s2)"
      and owner: "playerID w = wplayerID t" and new: "process_new R live_tx input t w X s2 = (Inr (p, fw, r), s')"
      using rest l by (auto simp: act_bind_Inr act_fail_Inr split: if_splits)
    obtain q where q: "db s2 = db s1" "wallet_by_id (walletID t) (db s1) = Some q" "wallet_of_row R q = Inr w"
      using w by (rule FindByIDWithLock_ok)
    have e: "\<not> r \<and> stored_as R (walletID t) fw (db s') \<and> wager_effect R X t q (db s) p (db s')"
      using process_new_effect [of t s2 q R w input X p fw r s'] q new f(9) l(1) by simp
    moreover have "w_player_id q = playerID w"
      using q(3) by (simp add: wallet_of_row_def RehydrateWallet_Inr)
    ultimately show ?thesis
      using None oc q(2) l(1) owner f wager_effect_txid [of R X t q "db s" p "db s'"]
      by (auto simp: call_effect_def output_of_def stored_as_def shown_balance_def)
  qed
qed

lemma process_body_effect:
  assumes t: "prepare_wager R cfg now input = Inr t"
    and ok: "process_body R input inbox t live_tx X s = (Inr oc, s')"
  shows "\<exists>d1. claims_message inbox (db s) d1 \<and> call_effect R X input t (output_of oc) d1 (db s')"
proof (cases inbox)
  case None
  then show ?thesis
    using ok process_checked_effect [OF t] by (auto simp: process_body_def claims_message_def)
next
  case (Some c)
  obtain s1 where sv: "SaveInbox live_tx (ConsumerName c) (MessageID c) (ClaimPayloadHash c) X s = (Inr (), s1)"
    and pc: "process_checked R live_tx input t X s1 = (Inr oc, s')"
  proof (cases "SaveInbox live_tx (ConsumerName c) (MessageID c) (ClaimPayloadHash c) X s")
    case (Pair r s1)
    show ?thesis
    proof (cases r)
      case (Inl e)
      then have "duplicate_message R live_tx input t X s1 = (Inr oc, s')"
        using ok Pair Some by (auto simp: process_body_def act_try_def act_fail_Inr split: if_splits)
      moreover have "aborted s1" using SaveInbox_fails Pair Inl by blast
      ultimately show ?thesis using duplicate_message_aborted by blast
    next
      case (Inr u)
      then show ?thesis using that ok Pair Some by (simp add: process_body_def act_try_def)
    qed
  qed
  have "claims_message inbox (db s) (db s1)" using SaveInbox_ok [OF sv] Some by (simp add: claims_message_def)
  then show ?thesis using process_checked_effect [OF t pc] by blast
qed

lemma ProcessTransactionWithInbox_effect:
  assumes "ProcessTransactionWithInbox R cfg X input inbox d = (Inr out, d')"
  shows "\<exists>t d1. prepare_wager R cfg (clock X 0) input = Inr t \<and> claims_message inbox d d1
     \<and> call_effect R X input t out d1 d'"
proof -
  obtain t oc s where t: "prepare_wager R cfg (clock X 0) input = Inr t" and out: "out = output_of oc"
    and b: "process_body R input inbox t live_tx X (start_session d 1) = (Inr oc, s)" "d' = db s"
    using assms by (auto simp: ProcessTransactionWithInbox_def Execute_Inr split: sum.splits prod.splits)
  show ?thesis using process_body_effect [OF t b(1)] t out b(2) by auto
qed

text \<open>A message that the inbox holds already is never processed again, and never answered either.\<close>

lemma inbox_duplicate_fails:
  assumes "inbox_tab.lookup (pg_trunc 100 (ConsumerName c), pg_trunc 64 (MessageID c)) d = Some m"
  shows "\<exists>e. ProcessTransactionWithInbox R cfg X input (Some c) d = (Inl e, d)"
proof -
  let ?row = "\<lparr>i_message_id = MessageID c, i_consumer_name = ConsumerName c, i_payload_hash = ClaimPayloadHash c\<rparr>"
  have dup: "\<exists>e. insert_inbox ?row d = Inl e"
    using inbox_tab.insert_duplicate [of ?row d m] assms by (simp add: inbox_key_def stored_inbox_def)
  have no: "process_body R input (Some c) t live_tx X (start_session d 1) \<noteq> (Inr oc, s)" for t oc s
  proof
    assume ok: "process_body R input (Some c) t live_tx X (start_session d 1) = (Inr oc, s)"
    let ?save = "SaveInbox live_tx (ConsumerName c) (MessageID c) (ClaimPayloadHash c) X (start_session d 1)"
    show False
    proof (cases "fst ?save")
      case (Inl e)
      then have sv: "?save = (Inl e, snd ?save)" by (metis prod.collapse)
      then have "duplicate_message R live_tx input t X (snd ?save) = (Inr oc, s)"
        using ok by (simp add: process_body_def act_try_def act_fail_Inr split: if_splits prod.splits)
      then show False using SaveInbox_fails [OF sv] duplicate_message_aborted by blast
    next
      case (Inr u)
      then have "?save = (Inr u, snd ?save)" by (metis prod.collapse)
      from SaveInbox_ok [OF this] show False using dup by auto
    qed
  qed
  show ?thesis
  proof (cases "prepare_wager R cfg (clock X 0) input")
    case (Inr t)
    obtain r d' where x: "ExecuteInTransaction X 1 (process_body R input (Some c) t) d = (r, d')" by fastforce
    have "d' = d" using x by (rule Execute_cases) (use no in auto)
    moreover obtain e where "r = Inl e" using x no by (cases r) (auto simp: Execute_Inr)
    ultimately show ?thesis using Inr x by (simp add: ProcessTransactionWithInbox_def)
  qed (simp add: ProcessTransactionWithInbox_def)
qed

end
