(* ===== verification/Go_Json_Decode.thy ===== *)
theory Go_Json_Decode
  imports Go_Json
begin

text \<open>
  What the program uses of \<open>encoding/json\<close> to read: \<open>json.Unmarshal\<close> and \<open>json.NewDecoder(r).Decode\<close> into structs
  whose fields are strings, structs and slices of structs. The first part is the syntax: \<open>read_value\<close> reads one value from the
  head of a text and returns the rest, and fails where the scanner of the package reports a syntax error (a nesting of more
  than 10000 containers is one). The second part is the decoding: a member of an object is given to the field with its name, or else to
  one whose name is the same up to case folding; \<open>null\<close> leaves a string or a struct as it is; any other type than the one
  of the field is an error. The package goes on after a type error and reports it at the end; the source uses no result that
  comes with an error, so a decoder returns \<open>None\<close> for it.
\<close>

datatype json_doc = DNull | DBool bool | DNumber string | DString string
  | DArray "json_doc list" | DObject "(string \<times> json_doc) list"

section \<open>Strings\<close>

text \<open>The UTF-8 encoding of a code point (\<open>utf8.EncodeRune\<close>), and U+FFFD, which replaces what is not one.\<close>

definition encode_rune :: "nat \<Rightarrow> string" where
  "encode_rune n =
     (if n < 0x80 then [byte_of n]
      else if n < 0x800 then [byte_of (0xC0 + n div 64), byte_of (0x80 + n mod 64)]
      else if n < 0x10000 then
        [byte_of (0xE0 + n div 4096), byte_of (0x80 + n div 64 mod 64), byte_of (0x80 + n mod 64)]
      else [byte_of (0xF0 + n div 262144), byte_of (0x80 + n div 4096 mod 64), byte_of (0x80 + n div 64 mod 64),
            byte_of (0x80 + n mod 64)])"

definition replacement_char :: string where
  "replacement_char = map byte_of [0xEF, 0xBF, 0xBD]"

definition hex_val :: "char \<Rightarrow> nat option" where
  "hex_val c =
     (let n = byte_val c in
      if 48 \<le> n \<and> n \<le> 57 then Some (n - 48)
      else if 97 \<le> n \<and> n \<le> 102 then Some (n - 87)
      else if 65 \<le> n \<and> n \<le> 70 then Some (n - 55)
      else None)"

text \<open>The four hexadecimal digits of an escape, and an escape at the head of a text.\<close>

fun hex4 :: "string \<Rightarrow> nat option" where
  "hex4 (a # b # c # d # s) =
     (case (hex_val a, hex_val b, hex_val c, hex_val d) of
        (Some w, Some x, Some y, Some z) \<Rightarrow> Some (4096 * w + 256 * x + 16 * y + z)
      | _ \<Rightarrow> None)"
| "hex4 s = None"

definition escape4 :: "string \<Rightarrow> nat option" where
  "escape4 s = (if prefix (CHR 0x5C # ''u'') s then hex4 (drop 2 s) else None)"

text \<open>
  The text of an escape with value \<open>n\<close>, and the number of bytes of a second one that it consumes: two surrogates, the
  first high and the second low, are one code point; any other surrogate is replaced.
\<close>

definition unescape_u :: "nat \<Rightarrow> string \<Rightarrow> string \<times> nat" where
  "unescape_u n rest =
     (if n < 0xD800 \<or> 0xE000 \<le> n then (encode_rune n, 0)
      else case escape4 rest of
        Some m \<Rightarrow>
          if n < 0xDC00 \<and> 0xDC00 \<le> m \<and> m < 0xE000
          then (encode_rune (0x10000 + (n - 0xD800) * 1024 + (m - 0xDC00)), 6)
          else (replacement_char, 0)
      | None \<Rightarrow> (replacement_char, 0))"

definition short_escape :: "char \<Rightarrow> char option" where
  "short_escape c =
     (let n = byte_val c in
      if n = 98 then Some (byte_of 8) else if n = 102 then Some (byte_of 12) else if n = 110 then Some (byte_of 10)
      else if n = 114 then Some (byte_of 13) else if n = 116 then Some (byte_of 9)
      else if n = 34 \<or> n = 47 \<or> n = 92 then Some c
      else None)"

text \<open>A string from behind its opening quote: its value, and what follows the closing quote.\<close>

function read_string :: "string \<Rightarrow> (string \<times> string) option" where
  "read_string s =
     (if s = [] then None
      else if byte_val (hd s) = 34 then Some ([], tl s)
      else if byte_val (hd s) < 32 then None
      else if byte_val (hd s) = 92 then
        (case tl s of
           [] \<Rightarrow> None
         | c # rest \<Rightarrow>
             if byte_val c = 117 then
               (case hex4 rest of
                  None \<Rightarrow> None
                | Some n \<Rightarrow>
                    let (t, k) = unescape_u n (drop 4 rest) in
                    map_option (\<lambda>(a, r). (t @ a, r)) (read_string (drop (4 + k) rest)))
             else (case short_escape c of
               None \<Rightarrow> None
             | Some x \<Rightarrow> map_option (\<lambda>(a, r). (x # a, r)) (read_string rest)))
      else if byte_val (hd s) < 128 then map_option (\<lambda>(a, r). (hd s # a, r)) (read_string (tl s))
      else if rune_len s = 0 then map_option (\<lambda>(a, r). (replacement_char @ a, r)) (read_string (tl s))
      else map_option (\<lambda>(a, r). (take (rune_len s) s @ a, r)) (read_string (drop (rune_len s) s)))"
  by pat_completeness auto
termination
  by (relation "measure length") (auto simp: neq_Nil_conv)

declare read_string.simps [simp del]

lemma read_string_shorter: "read_string s = Some (a, r) \<Longrightarrow> length r < length s"
proof (induction s arbitrary: a r rule: measure_induct_rule [of length])
  case (less s)
  have sub: "length r' < length s" if "read_string t = Some (b, r')" "length t < length s" for t b r'
    using less.IH [OF that(2,1)] that(2) by simp
  show ?case
  proof (cases s)
    case (Cons c t)
    have "length (drop (rune_len s) s) < length s" if "rune_len s \<noteq> 0" using that Cons by simp
    then show ?thesis
      using less.prems unfolding read_string.simps [of s]
      by (auto simp: Cons Let_def dest!: sub split: if_splits list.splits option.splits prod.splits)
  qed (use less.prems in \<open>simp add: read_string.simps\<close>)
qed

section \<open>Numbers and literals\<close>

text \<open>The digits at the head of a text, at least one, and what follows them.\<close>

definition read_digits :: "string \<Rightarrow> (string \<times> string) option" where
  "read_digits s =
     (let ds = takeWhile is_digit s in if ds = [] then None else Some (ds, dropWhile is_digit s))"

definition read_integer :: "string \<Rightarrow> (string \<times> string) option" where
  "read_integer s = (case s of c # r \<Rightarrow> if c = CHR ''0'' then Some ([c], r) else read_digits s | [] \<Rightarrow> None)"

definition read_fraction :: "string \<Rightarrow> (string \<times> string) option" where
  "read_fraction s =
     (case s of
        c # r \<Rightarrow> if c = CHR ''.'' then map_option (\<lambda>(ds, q). (c # ds, q)) (read_digits r) else Some ([], s)
      | [] \<Rightarrow> Some ([], s))"

definition read_exponent :: "string \<Rightarrow> (string \<times> string) option" where
  "read_exponent s =
     (case s of
        c # r \<Rightarrow>
          if c = CHR ''e'' \<or> c = CHR ''E'' then
            (case r of
               x # q \<Rightarrow>
                 if x = CHR ''+'' \<or> x = CHR ''-'' then map_option (\<lambda>(ds, p). (c # x # ds, p)) (read_digits q)
                 else map_option (\<lambda>(ds, p). (c # ds, p)) (read_digits r)
             | [] \<Rightarrow> None)
          else Some ([], s)
      | [] \<Rightarrow> Some ([], s))"

definition read_number :: "string \<Rightarrow> (string \<times> string) option" where
  "read_number s =
     (let (sgn, u) = (case s of c # r \<Rightarrow> if c = CHR ''-'' then ([c], r) else ([], s) | [] \<Rightarrow> ([], s)) in
      case read_integer u of
        None \<Rightarrow> None
      | Some (i, u1) \<Rightarrow>
          (case read_fraction u1 of
             None \<Rightarrow> None
           | Some (f, u2) \<Rightarrow>
               (case read_exponent u2 of
                  None \<Rightarrow> None
                | Some (e, u3) \<Rightarrow> Some (sgn @ i @ f @ e, u3))))"

definition literal_at :: "string \<Rightarrow> json_doc \<Rightarrow> string \<Rightarrow> (json_doc \<times> string) option" where
  "literal_at w v s = (if prefix w s then Some (v, drop (length w) s) else None)"

section \<open>Values\<close>

definition json_space :: "char \<Rightarrow> bool" where
  "json_space c \<longleftrightarrow> byte_val c \<in> {9, 10, 13, 32}"

definition skip_spaces :: "string \<Rightarrow> string" where
  "skip_spaces s = dropWhile json_space s"

lemma length_skip_spaces: "length (skip_spaces s) \<le> length s"
  by (simp add: skip_spaces_def length_dropWhile_le)

lemma skip_spaces_shorter: "skip_spaces s = c # r \<Longrightarrow> length r < length s"
  using length_skip_spaces [of s] by simp

definition max_nesting :: nat where
  "max_nesting = 10000"

text \<open>A value that is neither an array nor an object.\<close>

definition read_scalar :: "string \<Rightarrow> (json_doc \<times> string) option" where
  "read_scalar s =
     (case s of
        [] \<Rightarrow> None
      | c # r \<Rightarrow>
          if byte_val c = 34 then map_option (\<lambda>(a, q). (DString a, q)) (read_string r)
          else if c = CHR ''t'' then literal_at ''true'' (DBool True) s
          else if c = CHR ''f'' then literal_at ''false'' (DBool False) s
          else if c = CHR ''n'' then literal_at ''null'' DNull s
          else map_option (\<lambda>(a, q). (DNumber a, q)) (read_number s))"

text \<open>The key of a member with its colon, and what follows.\<close>

definition read_key :: "string \<Rightarrow> (string \<times> string) option" where
  "read_key s =
     (case skip_spaces s of
        [] \<Rightarrow> None
      | c # r \<Rightarrow>
          if byte_val c \<noteq> 34 then None
          else (case read_string r of
            None \<Rightarrow> None
          | Some (k, q) \<Rightarrow> (case skip_spaces q of x # p \<Rightarrow> if x = CHR '':'' then Some (k, p) else None | [] \<Rightarrow> None)))"

lemma read_key_shorter: "read_key s = Some (k, r) \<Longrightarrow> length r < length s"
proof -
  assume a: "read_key s = Some (k, r)"
  then obtain c q where s: "skip_spaces s = c # q" by (auto simp: read_key_def split: list.splits)
  with a obtain t where t: "read_string q = Some (k, t)" "skip_spaces t = CHR '':'' # r"
    by (auto simp: read_key_def split: list.splits option.splits if_splits)
  show ?thesis
    using read_string_shorter [OF t(1)] length_skip_spaces [of t] length_skip_spaces [of s] s t(2) by simp
qed

text \<open>
  A value with \<open>d\<close> containers open around it; the elements of an array and the members of an object from the first
  on, up to the closing bracket. The tests on the length of the rest always hold (\<open>read_value_shorter\<close>); they show the recursion
  to end.
\<close>

function read_value :: "nat \<Rightarrow> string \<Rightarrow> (json_doc \<times> string) option"
  and read_elements :: "nat \<Rightarrow> string \<Rightarrow> (json_doc list \<times> string) option"
  and read_members :: "nat \<Rightarrow> string \<Rightarrow> ((string \<times> json_doc) list \<times> string) option" where
  "read_value d s =
     (case skip_spaces s of
        [] \<Rightarrow> None
      | c # r \<Rightarrow>
          if c = CHR ''['' then
            (if max_nesting \<le> d then None
             else case skip_spaces r of
               [] \<Rightarrow> None
             | x # q \<Rightarrow>
                 if x = CHR '']'' then Some (DArray [], q)
                 else map_option (\<lambda>(vs, p). (DArray vs, p)) (read_elements (Suc d) r))
          else if c = CHR ''{'' then
            (if max_nesting \<le> d then None
             else case skip_spaces r of
               [] \<Rightarrow> None
             | x # q \<Rightarrow>
                 if x = CHR ''}'' then Some (DObject [], q)
                 else map_option (\<lambda>(kvs, p). (DObject kvs, p)) (read_members (Suc d) r))
          else read_scalar (c # r))"
| "read_elements d s =
     (case read_value d s of
        None \<Rightarrow> None
      | Some (v, r) \<Rightarrow>
          (case skip_spaces r of
             [] \<Rightarrow> None
           | c # q \<Rightarrow>
               if c = CHR '']'' then Some ([v], q)
               else if c = CHR '','' \<and> length q < length s
               then map_option (\<lambda>(vs, p). (v # vs, p)) (read_elements d q)
               else None))"
| "read_members d s =
     (case read_key s of
        None \<Rightarrow> None
      | Some (k, t) \<Rightarrow>
          (case read_value d t of
             None \<Rightarrow> None
           | Some (v, r) \<Rightarrow>
               (case skip_spaces r of
                  [] \<Rightarrow> None
                | c # q \<Rightarrow>
                    if c = CHR ''}'' then Some ([(k, v)], q)
                    else if c = CHR '','' \<and> length q < length s
                    then map_option (\<lambda>(kvs, p). ((k, v) # kvs, p)) (read_members d q)
                    else None)))"
  by pat_completeness auto
termination
  by (relation "measure (\<lambda>x. case x of Inl (d, s) \<Rightarrow> 2 * length s
    | Inr (Inl (d, s)) \<Rightarrow> 2 * length s + 1 | Inr (Inr (d, s)) \<Rightarrow> 2 * length s + 1)")
    (auto dest!: read_key_shorter skip_spaces_shorter)

declare read_value.simps [simp del] read_elements.simps [simp del] read_members.simps [simp del]

section \<open>Texts and streams\<close>

text \<open>
  \<open>json.Unmarshal\<close> reads a whole text: a value with white space around it. A decoder reads the first value of a stream and leaves
  the rest. The stream is the bytes it delivers and the error that comes after them, \<open>None\<close> for its end; an array or
  an object is complete with its last byte, any other value only with the byte after it or the end.
\<close>

definition json_text :: "string \<Rightarrow> json_doc option" where
  "json_text s =
     (case read_value 0 s of
        None \<Rightarrow> None
      | Some (v, r) \<Rightarrow> if skip_spaces r = [] then Some v else None)"

fun is_container :: "json_doc \<Rightarrow> bool" where
  "is_container (DArray vs) = True"
| "is_container (DObject kvs) = True"
| "is_container v = False"

definition json_first :: "string \<Rightarrow> 'e option \<Rightarrow> json_doc option" where
  "json_first s err =
     (case read_value 0 s of
        None \<Rightarrow> None
      | Some (v, r) \<Rightarrow> if is_container v \<or> r \<noteq> [] \<or> err = None then Some v else None)"

section \<open>Decoding into structs\<close>

text \<open>
  The name of a field up to case: ASCII letters in upper case, and the two other characters that fold to a letter of ASCII,
  the long s (U+017F) and the Kelvin sign (U+212A). The names of the source are ASCII.
\<close>

function fold_name :: "string \<Rightarrow> string" where
  "fold_name s =
     (if s = [] then []
      else if prefix (map byte_of [0xC5, 0xBF]) s then CHR ''S'' # fold_name (drop 2 s)
      else if prefix (map byte_of [0xE2, 0x84, 0xAA]) s then CHR ''K'' # fold_name (drop 3 s)
      else upper_byte (hd s) # fold_name (tl s))"
  by pat_completeness auto
termination
  by (relation "measure length") auto

declare fold_name.simps [simp del]

text \<open>A decoder changes the struct \<open>'r\<close> it decodes into; \<open>None\<close> is a type error.\<close>

type_synonym 'r decoder = "json_doc \<Rightarrow> 'r \<Rightarrow> 'r option"

definition field_for :: "(string \<times> 'r decoder) list \<Rightarrow> string \<Rightarrow> 'r decoder option" where
  "field_for fs k =
     (case map_of fs k of
        Some dec \<Rightarrow> Some dec
      | None \<Rightarrow> map_option snd (find (\<lambda>(n, _). fold_name n = fold_name k) fs))"

fun decode_members :: "(string \<times> 'r decoder) list \<Rightarrow> (string \<times> json_doc) list \<Rightarrow> 'r \<Rightarrow> 'r option" where
  "decode_members fs [] r = Some r"
| "decode_members fs ((k, v) # kvs) r =
     (case field_for fs k of
        None \<Rightarrow> decode_members fs kvs r
      | Some dec \<Rightarrow>
          (case dec v r of
             None \<Rightarrow> None
           | Some r' \<Rightarrow> decode_members fs kvs r'))"

definition decode_struct :: "(string \<times> 'r decoder) list \<Rightarrow> 'r decoder" where
  "decode_struct fs v r =
     (case v of DObject kvs \<Rightarrow> decode_members fs kvs r | DNull \<Rightarrow> Some r | _ \<Rightarrow> None)"

text \<open>A field of type \<open>string\<close>, given by its update.\<close>

definition text_field :: "((string \<Rightarrow> string) \<Rightarrow> 'r \<Rightarrow> 'r) \<Rightarrow> 'r decoder" where
  "text_field upd v r = (case v of DString t \<Rightarrow> Some (upd (\<lambda>_. t) r) | DNull \<Rightarrow> Some r | _ \<Rightarrow> None)"

text \<open>
  A slice: the elements that its backing array already has are decoded into again, which matters when its member occurs more than
  once in an object; \<open>zero\<close> is the element that the array grows by. The state is the backing array and the length.
\<close>

type_synonym 'a slice = "'a list \<times> nat"

fun decode_elements :: "'a \<Rightarrow> 'a decoder \<Rightarrow> json_doc list \<Rightarrow> 'a list \<Rightarrow> 'a list option" where
  "decode_elements zero dec [] backing = Some backing"
| "decode_elements zero dec (v # vs) [] =
     (case dec v zero of
        None \<Rightarrow> None
      | Some x \<Rightarrow> map_option (\<lambda>xs. x # xs) (decode_elements zero dec vs []))"
| "decode_elements zero dec (v # vs) (b # backing) =
     (case dec v b of
        None \<Rightarrow> None
      | Some x \<Rightarrow> map_option (\<lambda>xs. x # xs) (decode_elements zero dec vs backing))"

definition decode_slice :: "'a \<Rightarrow> 'a decoder \<Rightarrow> 'a slice decoder" where
  "decode_slice zero dec v sl =
     (case v of
        DNull \<Rightarrow> Some ([], 0)
      | DArray vs \<Rightarrow>
          if vs = [] then Some ([], 0)
          else map_option (\<lambda>xs. (xs, length vs)) (decode_elements zero dec vs (fst sl))
      | _ \<Rightarrow> None)"

definition slice_elements :: "'a slice \<Rightarrow> 'a list" where
  "slice_elements sl = take (snd sl) (fst sl)"

section \<open>The tests of the recursion always hold\<close>

lemma read_digits_shorter: "read_digits s = Some (ds, r) \<Longrightarrow> length r < length s"
proof -
  assume a: "read_digits s = Some (ds, r)"
  then have r: "r = dropWhile is_digit s" and ne: "takeWhile is_digit s \<noteq> []"
    by (auto simp: read_digits_def Let_def split: if_splits)
  have "length s = length (takeWhile is_digit s) + length r"
    unfolding r by (metis length_append takeWhile_dropWhile_id)
  then show ?thesis using ne by simp
qed

lemma read_number_shorter:
  assumes "read_number s = Some (n, r)"
  shows "length r < length s"
proof -
  have int: "length q < length t" if "read_integer t = Some (x, q)" for t x q
    using that by (auto simp: read_integer_def dest!: read_digits_shorter split: list.splits if_splits)
  have frac: "length q \<le> length t" if "read_fraction t = Some (x, q)" for t x q
    using that by (auto simp: read_fraction_def dest!: read_digits_shorter split: list.splits if_splits)
  have expo: "length q \<le> length t" if "read_exponent t = Some (x, q)" for t x q
    using that by (auto simp: read_exponent_def dest!: read_digits_shorter split: list.splits if_splits)
  obtain sgn u where u: "(case s of c # r \<Rightarrow> if c = CHR ''-'' then ([c], r) else ([], s) | [] \<Rightarrow> ([], s)) = (sgn, u)"
    by (cases "case s of c # r \<Rightarrow> if c = CHR ''-'' then ([c], r) else ([], s) | [] \<Rightarrow> ([], s)")
  then have "length u \<le> length s" by (auto split: list.splits if_splits)
  moreover from assms obtain i u1 f u2 e where "read_integer u = Some (i, u1)" "read_fraction u1 = Some (f, u2)"
    "read_exponent u2 = Some (e, r)"
    unfolding read_number_def u by (auto split: option.splits)
  ultimately show ?thesis using int [of u i u1] frac [of u1 f u2] expo [of u2 e r] by linarith
qed

lemma read_scalar_shorter: "read_scalar s = Some (v, r) \<Longrightarrow> length r < length s"
  by (auto simp: read_scalar_def literal_at_def prefix_def dest!: read_string_shorter read_number_shorter
      split: list.splits if_splits)

lemma map_rest_Some:
  "map_option (\<lambda>(a, p). (f a, p)) o' = Some (b, r) \<longleftrightarrow> (\<exists>a. o' = Some (a, r) \<and> b = f a)"
  by (auto simp: map_option_case split: option.splits)

lemma read_value_shorter:
  "read_value d s = Some (v, r) \<Longrightarrow> length r < length s"
  "read_elements d s = Some (vs, r) \<Longrightarrow> length r < length s"
  "read_members d s = Some (kvs, r) \<Longrightarrow> length r < length s"
proof (induction d s and d s and d s arbitrary: v r and vs r and kvs r
    rule: read_value_read_elements_read_members.induct)
  case (1 d s)
  obtain c q where s: "skip_spaces s = c # q"
    using "1.prems" unfolding read_value.simps [of d s] by (cases "skip_spaces s") auto
  note q = skip_spaces_shorter [OF s]
  note eq = "1.prems" [unfolded read_value.simps [of d s] s list.case]
  show ?case
  proof (cases "c = CHR ''['' \<or> c = CHR ''{''")
    case False
    then show ?thesis using eq read_scalar_shorter [of "c # q" v r] length_skip_spaces [of s] s by simp
  next
    case True
    then have d: "\<not> max_nesting \<le> d" using eq by (auto split: if_splits)
    obtain x p where x: "skip_spaces q = x # p" using True eq by (cases "skip_spaces q") (auto split: if_splits)
    note p = skip_spaces_shorter [OF x]
    show ?thesis
    proof (cases "c = CHR ''[''")
      case arr: True
      then show ?thesis
        using eq d p q "1.IH"(1) [OF s arr d x] by (simp add: x map_rest_Some split: if_splits) force+
    next
      case obj: False
      then have c: "c = CHR ''{''" using True by simp
      then show ?thesis
        using eq d p q "1.IH"(2) [OF s obj c d x] by (simp add: x map_rest_Some split: if_splits) force+
    qed
  qed
next
  case (2 d s)
  obtain v q where v: "read_value d s = Some (v, q)"
    using "2.prems" unfolding read_elements.simps [of d s] by (cases "read_value d s") auto
  have q: "length q < length s" by (rule "2.IH"(1) [OF v])
  obtain c p where c: "skip_spaces q = c # p"
    using "2.prems" unfolding read_elements.simps [of d s] v by (cases "skip_spaces q") auto
  note p = skip_spaces_shorter [OF c]
  note eq = "2.prems" [unfolded read_elements.simps [of d s] v option.case prod.case c list.case]
  show ?case
  proof (cases "c = CHR '']''")
    case True
    then show ?thesis using eq p q by simp
  next
    case False
    then have "c = CHR '','' \<and> length p < length s" using eq by (simp split: if_splits)
    then show ?thesis using eq False p q "2.IH"(2) [OF v refl c False] by (auto simp: map_rest_Some)
  qed
next
  case (3 d s)
  obtain k t where k: "read_key s = Some (k, t)"
    using "3.prems" unfolding read_members.simps [of d s] by (cases "read_key s") auto
  obtain v q where v: "read_value d t = Some (v, q)"
    using "3.prems" unfolding read_members.simps [of d s] k by (cases "read_value d t") auto
  have q: "length q < length s" using "3.IH"(1) [OF k refl v] read_key_shorter [OF k] by simp
  obtain c p where c: "skip_spaces q = c # p"
    using "3.prems" unfolding read_members.simps [of d s] k option.case prod.case v by (cases "skip_spaces q") auto
  note p = skip_spaces_shorter [OF c]
  note eq = "3.prems" [unfolded read_members.simps [of d s] k option.case prod.case v c list.case]
  show ?case
  proof (cases "c = CHR ''}''")
    case True
    then show ?thesis using eq p q by simp
  next
    case False
    then have "c = CHR '','' \<and> length p < length s" using eq by (simp split: if_splits)
    then show ?thesis using eq False p q "3.IH"(2) [OF k refl v refl c False] by (auto simp: map_rest_Some)
  qed
qed

lemma read_elements_eq:
  "read_elements d s =
     (case read_value d s of
        None \<Rightarrow> None
      | Some (v, r) \<Rightarrow>
          (case skip_spaces r of
             [] \<Rightarrow> None
           | c # q \<Rightarrow>
               if c = CHR '']'' then Some ([v], q)
               else if c = CHR '','' then map_option (\<lambda>(vs, p). (v # vs, p)) (read_elements d q)
               else None))"
proof -
  have "length q < length s" if "read_value d s = Some (v, r)" "skip_spaces r = c # q" for v r c q
    using read_value_shorter(1) [OF that(1)] skip_spaces_shorter [OF that(2)] by simp
  then show ?thesis unfolding read_elements.simps [of d s] by (simp split: option.split list.split)
qed

lemma read_members_eq:
  "read_members d s =
     (case read_key s of
        None \<Rightarrow> None
      | Some (k, t) \<Rightarrow>
          (case read_value d t of
             None \<Rightarrow> None
           | Some (v, r) \<Rightarrow>
               (case skip_spaces r of
                  [] \<Rightarrow> None
                | c # q \<Rightarrow>
                    if c = CHR ''}'' then Some ([(k, v)], q)
                    else if c = CHR '','' then map_option (\<lambda>(kvs, p). ((k, v) # kvs, p)) (read_members d q)
                    else None)))"
proof -
  have "length q < length s"
    if "read_key s = Some (k, t)" "read_value d t = Some (v, r)" "skip_spaces r = c # q" for k t v r c q
    using read_key_shorter [OF that(1)] read_value_shorter(1) [OF that(2)] skip_spaces_shorter [OF that(3)] by simp
  then show ?thesis unfolding read_members.simps [of d s] by (simp split: option.split list.split)
qed

end
