(* ===== verification/Sqs_Worker.thy ===== *)
theory Sqs_Worker
  imports Outbox_Worker Wager_Effects Go_Json_Decode
begin

text \<open>
  \<open>internal/infrastructure/transport/sqs_worker.go\<close>: the processing of one message of the wager queue. The queue is the argument \<open>refuses_delete\<close>: whether \<open>DeleteMessage\<close> returns an error. The receive loop, \<open>Start\<close> and
  \<open>Stop\<close> are in \<open>Worker_Loop\<close> and \<open>Service_System\<close>.
\<close>

record envelope_sqs =
  EnvMessageID :: string
  EnvType :: string
  EnvOccurredAt :: string
  EnvProviderID :: string
  EnvExternalTransactionID :: string
  EnvIdempotencyKey :: string
  EnvPlayerID :: string
  EnvWalletID :: string
  EnvRoundID :: string
  EnvGameID :: string
  EnvKind :: string
  EnvAmount :: string
  EnvCurrency :: string
  EnvReferenceExternalID :: string

definition empty_envelope :: envelope_sqs where
  "empty_envelope =
     \<lparr>EnvMessageID = '''', EnvType = '''', EnvOccurredAt = '''', EnvProviderID = '''', EnvExternalTransactionID = '''',
      EnvIdempotencyKey = '''', EnvPlayerID = '''', EnvWalletID = '''', EnvRoundID = '''', EnvGameID = '''', EnvKind = '''',
      EnvAmount = '''', EnvCurrency = '''', EnvReferenceExternalID = ''''\<rparr>"

definition envelope_fields :: "(string \<times> envelope_sqs decoder) list" where
  "envelope_fields =
     [(''messageId'', text_field EnvMessageID_update),
      (''type'', text_field EnvType_update),
      (''occurredAt'', text_field EnvOccurredAt_update),
      (''data'', decode_struct
         [(''providerId'', text_field EnvProviderID_update),
          (''externalTransactionId'', text_field EnvExternalTransactionID_update),
          (''idempotencyKey'', text_field EnvIdempotencyKey_update),
          (''playerId'', text_field EnvPlayerID_update),
          (''walletId'', text_field EnvWalletID_update),
          (''roundId'', text_field EnvRoundID_update),
          (''gameId'', text_field EnvGameID_update),
          (''kind'', text_field EnvKind_update),
          (''money'', decode_struct
             [(''amount'', text_field EnvAmount_update), (''currency'', text_field EnvCurrency_update)]),
          (''referenceExternalTransactionId'', text_field EnvReferenceExternalID_update)])]"

text \<open>\<open>json.Unmarshal\<close> of the body into an empty envelope, \<open>None\<close> for an error.\<close>

definition unmarshal_envelope :: "string \<Rightarrow> envelope_sqs option" where
  "unmarshal_envelope body =
     (case json_text body of None \<Rightarrow> None | Some v \<Rightarrow> decode_struct envelope_fields v empty_envelope)"

record sqs_message =
  MsgBody :: "string option"
  MsgMessageId :: "string option"
  MsgReceiptHandle :: "string option"

text \<open>The state of the worker outside the database: the receipts it asked to delete, and the counters.\<close>

record consumer =
  deletions :: "string option list"
  consumer_counters :: metrics

definition add_sqs_error :: "consumer \<Rightarrow> consumer" where
  "add_sqs_error c = c\<lparr>consumer_counters :=
     (consumer_counters c)\<lparr>MetricsSQSErrors := MetricsSQSErrors (consumer_counters c) + 1\<rparr>\<rparr>"

definition add_processed :: "consumer \<Rightarrow> consumer" where
  "add_processed c = c\<lparr>consumer_counters :=
     (consumer_counters c)\<lparr>MetricsWagersProcessed := MetricsWagersProcessed (consumer_counters c) + 1\<rparr>\<rparr>"

definition deleteMessage :: "(nat \<Rightarrow> bool) \<Rightarrow> sqs_message \<Rightarrow> consumer \<Rightarrow> consumer" where
  "deleteMessage refuses_delete message c =
     (let c' = c\<lparr>deletions := deletions c @ [MsgReceiptHandle message]\<rparr> in
      if refuses_delete (length (deletions c)) then add_sqs_error c' else c')"

definition envelope_input :: "envelope_sqs \<Rightarrow> input_dto" where
  "envelope_input e =
     \<lparr>in_ProviderID = EnvProviderID e, in_ExternalTransactionID = EnvExternalTransactionID e,
      in_IdempotencyKey = EnvIdempotencyKey e, in_PlayerID = EnvPlayerID e, in_WalletID = EnvWalletID e,
      in_RoundID = EnvRoundID e, in_GameID = EnvGameID e, in_Kind = EnvKind e, in_Amount = EnvAmount e,
      in_Currency = EnvCurrency e, in_ReferenceExternalID = EnvReferenceExternalID e\<rparr>"

definition message_id :: "sqs_message \<Rightarrow> envelope_sqs \<Rightarrow> string" where
  "message_id message envelope =
     (case MsgMessageId message of
        Some i \<Rightarrow> if i \<noteq> '''' then i else EnvMessageID envelope
      | None \<Rightarrow> EnvMessageID envelope)"

definition sqs_claim :: "sqs_message \<Rightarrow> string \<Rightarrow> envelope_sqs \<Rightarrow> inbox_claim" where
  "sqs_claim message body envelope =
     \<lparr>ConsumerName = ''sqs_wager_consumer'', MessageID = message_id message envelope,
      ClaimPayloadHash = sha256_hex body\<rparr>"

text \<open>A message without a body makes the handler panic, which ends the process.\<close>

definition processSQSEnvelope ::
  "runtime \<Rightarrow> config \<Rightarrow> (nat \<Rightarrow> bool) \<Rightarrow> txenv \<Rightarrow> sqs_message
   \<Rightarrow> consumer \<Rightarrow> database \<Rightarrow> (consumer result) \<times> database" where
  "processSQSEnvelope R cfg refuses_delete X message c d =
     (case MsgBody message of
        None \<Rightarrow> (Inl (Panic ''invalid memory address or nil pointer dereference''), d)
      | Some body \<Rightarrow>
          (case unmarshal_envelope body of
             None \<Rightarrow> (Inr (add_sqs_error c), d)
           | Some envelope \<Rightarrow>
               (case ProcessTransactionWithInbox R cfg X (envelope_input envelope)
                       (Some (sqs_claim message body envelope)) d of
                  (Inl err, d') \<Rightarrow>
                    (Inr (if errors_is err ErrDuplicateMessage then deleteMessage refuses_delete message c
                          else add_sqs_error c), d')
                | (Inr _, d') \<Rightarrow> (Inr (deleteMessage refuses_delete message (add_processed c)), d'))))"

section \<open>When a message is deleted\<close>

lemma deleteMessage_deletions [simp]: "deletions (deleteMessage rd m c) = deletions c @ [MsgReceiptHandle m]"
  by (simp add: deleteMessage_def Let_def add_sqs_error_def)

lemma add_deletions [simp]: "deletions (add_sqs_error c) = deletions c" "deletions (add_processed c) = deletions c"
  by (simp_all add: add_sqs_error_def add_processed_def)

text \<open>A message whose body cannot be read stays in the queue, for the dead-letter queue to take.\<close>

lemma undecodable_kept:
  "MsgBody m = Some body \<Longrightarrow> unmarshal_envelope body = None \<Longrightarrow>
   processSQSEnvelope R cfg rd X m c d = (Inr (add_sqs_error c), d)"
  by (simp add: processSQSEnvelope_def)

lemma processSQSEnvelope_db:
  assumes "processSQSEnvelope R cfg rd X m c d = (r, d')"
  shows "d' = d \<or> (\<exists>input inbox r'. ProcessTransactionWithInbox R cfg X input inbox d = (r', d'))"
  using assms by (auto simp: processSQSEnvelope_def split: option.splits sum.splits prod.splits)

lemma prepare_wager_error:
  assumes "prepare_wager R cfg now input = Inl e"
  shows "\<not> errors_is e ErrDuplicateMessage"
proof -
  have "\<not> errors_is e' ErrDuplicateMessage" if "NewMoneyFromString R s c = Inl e'" for s c e'
    using that by (auto simp: NewMoneyFromString_spec Let_def checked_money_def split: if_splits)
  moreover have "\<not> errors_is e' ErrDuplicateMessage"
    if "NewWagerTransaction now i p x k w pl r g kd m ref = Inl e'" for i p x k w pl r g kd m ref e'
    using that by (auto simp: NewWagerTransaction_def check_amount_def split: if_splits sum.splits)
  ultimately show ?thesis
    using assms by (auto simp: prepare_wager_def split: sum.splits if_splits)
qed

lemma duplicate_message_error:
  "aborted s \<Longrightarrow> duplicate_message R live_tx input t X s =
     (Inl (Wrapped ''failed to find transaction: '' (PgError ''25P02'')), s\<lparr>stmts := Suc (stmts s)\<rparr>)"
  by (simp add: duplicate_message_def FindByExternalIDTx_def scanOne_def wrap_err_def act_run sql_query_aborted)

lemma insert_inbox_error: "insert_inbox r d = Inl e \<Longrightarrow> \<exists>code. e = PgError code"
  by (auto simp: insert_inbox_def refuse_def Let_def split: if_splits)

lemma SaveInbox_error:
  assumes "SaveInbox live_tx c m h X s = (Inl e, s')"
  shows "e = ErrDuplicateMessage \<or> (\<exists>code. e = PgError code)"
proof -
  have "\<exists>code. e' = PgError code"
    if "sql_exec (insert_inbox r) X s = (Inl e', s'')" for r e' s''
    using that insert_inbox_error
    by (auto simp: sql_exec_def exec_stmt_def Let_def split: if_splits option.splits sum.splits)
  then show ?thesis
    using assms by (auto simp: SaveInbox_def act_run split: prod.splits sum.splits if_splits)
qed

text \<open>
  A message that is delivered again after it was processed: the call fails with an error that is not the
  one the worker deletes messages for, so the message is neither deleted nor answered.
\<close>

lemma redelivered_kept:
  assumes body: "MsgBody m = Some body" "unmarshal_envelope body = Some envelope"
    and inbox: "inbox_tab.lookup (pg_trunc 100 ''sqs_wager_consumer'', pg_trunc 64 (message_id m envelope)) d = Some row"
  shows "processSQSEnvelope R cfg rd X m c d = (Inr (add_sqs_error c), d)"
proof -
  let ?claim = "sqs_claim m body envelope" and ?input = "envelope_input envelope"
  obtain e where e: "ProcessTransactionWithInbox R cfg X ?input (Some ?claim) d = (Inl e, d)"
    using inbox_duplicate_fails [of ?claim d row R cfg X ?input] inbox by (auto simp: sqs_claim_def)
  have "\<not> errors_is e ErrDuplicateMessage"
  proof (cases "prepare_wager R cfg (clock X 0) ?input")
    case (Inl e')
    then show ?thesis using e prepare_wager_error by (auto simp: ProcessTransactionWithInbox_def)
  next
    case (Inr t)
    let ?b = "process_body R ?input (Some ?claim) t"
    let ?save = "SaveInbox live_tx (ConsumerName ?claim) (MessageID ?claim) (ClaimPayloadHash ?claim) X (start_session d 1)"
    have dup: "\<exists>e. insert_inbox \<lparr>i_message_id = MessageID ?claim, i_consumer_name = ConsumerName ?claim,
        i_payload_hash = ClaimPayloadHash ?claim\<rparr> d = Inl e"
      using inbox_tab.insert_duplicate [of "\<lparr>i_message_id = MessageID ?claim, i_consumer_name = ConsumerName ?claim,
        i_payload_hash = ClaimPayloadHash ?claim\<rparr>" d row] inbox
      by (simp add: inbox_key_def stored_inbox_def sqs_claim_def)
    obtain e1 s1 where sv: "?save = (Inl e1, s1)"
    proof (cases ?save)
      case (Pair r s1)
      then show ?thesis using that dup SaveInbox_ok [of "ConsumerName ?claim" "MessageID ?claim" "ClaimPayloadHash ?claim" X]
        by (cases r) fastforce+
    qed
    have ab: "aborted s1" using SaveInbox_fails [OF sv] by simp
    obtain e2 s2 where b: "?b live_tx X (start_session d 1) = (Inl e2, s2)" and e2: "\<not> errors_is e2 ErrDuplicateMessage"
    proof (cases "errors_is e1 ErrDuplicateMessage")
      case True
      then show ?thesis
        using that sv duplicate_message_error [OF ab] by (simp add: process_body_def act_run)
    next
      case False
      then show ?thesis using that sv by (simp add: process_body_def act_run)
    qed
    have "ExecuteInTransaction X 1 ?b d = (Inl e, d)"
      using e Inr by (auto simp: ProcessTransactionWithInbox_def split: prod.splits sum.splits)
    then show ?thesis
      using b e2 by (auto simp: ExecuteInTransaction_def start_session_def split: option.splits)
  qed
  then show ?thesis using body e by (simp add: processSQSEnvelope_def)
qed

text \<open>A message is deleted after the transaction that it carries has been committed.\<close>

lemma deleted_processed:
  assumes "processSQSEnvelope R cfg rd X m c d = (Inr c', d')" "deletions c' \<noteq> deletions c"
  shows "\<exists>body envelope. MsgBody m = Some body \<and> unmarshal_envelope body = Some envelope \<and>
     (case ProcessTransactionWithInbox R cfg X (envelope_input envelope) (Some (sqs_claim m body envelope)) d of
        (Inl e, _) \<Rightarrow> errors_is e ErrDuplicateMessage
      | (Inr _, d'') \<Rightarrow> d'' = d')"
  using assms
  by (auto simp: processSQSEnvelope_def split: option.splits prod.splits sum.splits if_splits)

end
