(* ===== verification/Error_Sources.thy ===== *)
theory Error_Sources
  imports Sqs_Worker
begin

text \<open>
  Where \<open>ErrDuplicateMessage\<close> comes from. Only \<open>SaveInbox\<close> returns it, and the use case answers it itself; so
  the worker, which deletes a message when it sees that error, never sees it.
\<close>

definition never_duplicate :: "'a action \<Rightarrow> bool" where
  "never_duplicate m \<longleftrightarrow> (\<forall>X s e s'. m X s = (Inl e, s') \<longrightarrow> \<not> errors_is e ErrDuplicateMessage)"

named_theorems no_dup \<open>actions that do not return \<open>ErrDuplicateMessage\<close>\<close>

lemma never_duplicateD: "never_duplicate m \<Longrightarrow> m X s = (Inl e, s') \<Longrightarrow> \<not> errors_is e ErrDuplicateMessage"
  by (auto simp: never_duplicate_def)

lemma no_dup_basic [no_dup]:
  "never_duplicate (act_return a)" "\<not> errors_is e ErrDuplicateMessage \<Longrightarrow> never_duplicate (act_fail e)"
  "never_duplicate act_now"
  "(\<And>e. r = Inl e \<Longrightarrow> \<not> errors_is e ErrDuplicateMessage) \<Longrightarrow> never_duplicate (act_pure r)"
  by (auto simp: never_duplicate_def act_return_def act_fail_def act_now_def act_pure_def)

lemma no_dup_try [no_dup]:
  assumes "\<And>e. \<not> errors_is e ErrDuplicateMessage \<Longrightarrow> never_duplicate (h e)" "never_duplicate m" "\<And>a. never_duplicate (f a)"
  shows "never_duplicate (act_try m h f)"
  using assms by (fastforce simp: never_duplicate_def act_try_def split: prod.splits sum.splits)

lemma no_dup_bind [no_dup]:
  "never_duplicate m \<Longrightarrow> (\<And>a. never_duplicate (f a)) \<Longrightarrow> never_duplicate (act_bind m f)"
  unfolding act_bind_def by (intro no_dup_try no_dup_basic)

lemma no_dup_wrap [no_dup]: "never_duplicate m \<Longrightarrow> never_duplicate (wrap_err msg m)"
  unfolding wrap_err_def by (intro no_dup_try no_dup_basic) simp_all

lemma no_dup_exec [no_dup]:
  "(\<And>d e. f d = Inl e \<Longrightarrow> \<not> errors_is e ErrDuplicateMessage) \<Longrightarrow> never_duplicate (exec_stmt f)"
  by (auto simp: never_duplicate_def exec_stmt_def Let_def split: if_splits option.splits sum.splits)

lemma no_dup_sql [no_dup]:
  "(\<And>d e. f d = Inl e \<Longrightarrow> \<not> errors_is e ErrDuplicateMessage) \<Longrightarrow> never_duplicate (sql_exec f)"
  "never_duplicate (sql_query ps q)"
  unfolding sql_exec_def sql_query_def
  by (auto intro!: no_dup_exec simp: refuse_def split: sum.splits if_splits)

lemma insert_errors:
  "insert_wallet r d = Inl e \<Longrightarrow> \<not> errors_is e ErrDuplicateMessage"
  "insert_tx t d = Inl e \<Longrightarrow> \<not> errors_is e ErrDuplicateMessage"
  "insert_ledger l d = Inl e \<Longrightarrow> \<not> errors_is e ErrDuplicateMessage"
  "insert_outbox x d = Inl e \<Longrightarrow> \<not> errors_is e ErrDuplicateMessage"
  "update_wallet a v u i w d = Inl e \<Longrightarrow> \<not> errors_is e ErrDuplicateMessage"
  by (auto simp: insert_wallet_def insert_tx_def insert_ledger_def insert_outbox_def update_wallet_def refuse_def Let_def
      split: if_splits)

lemma no_dup_statements [no_dup]:
  "never_duplicate (FindByExternalIDTx R live_tx p x)" "never_duplicate (FindByIdempotencyKey R live_tx k)"
  "never_duplicate (SaveWithRetryAt R live_tx t n)" "never_duplicate (Tx_Save R live_tx t)"
  "never_duplicate (Wallet_Update R live_tx w v)" "never_duplicate (SaveLedgerEntry R live_tx l)"
  "never_duplicate (SaveOutbox R live_tx ev)" "never_duplicate (FindByIDWithLock R live_tx i)"
  by (auto simp: FindByExternalIDTx_def FindByIdempotencyKey_def scanOne_def SaveWithRetryAt_def Tx_Save_def Wallet_Update_def
      SaveLedgerEntry_def SaveOutbox_def FindByIDWithLock_def wallet_of_row_def RehydrateWallet_def
      dest: insert_errors intro!: no_dup split: option.splits if_splits)

lemma domain_errors:
  "Debit now m w = Inl e \<Longrightarrow> \<not> errors_is e ErrDuplicateMessage"
  "Credit now m w = Inl e \<Longrightarrow> \<not> errors_is e ErrDuplicateMessage"
  "TransitionToProcessed now t = Inl e \<Longrightarrow> \<not> errors_is e ErrDuplicateMessage"
  "TransitionToPendingReference now t = Inl e \<Longrightarrow> \<not> errors_is e ErrDuplicateMessage"
  "TransitionToRejected now c t = Inl e \<Longrightarrow> \<not> errors_is e ErrDuplicateMessage"
  by (auto simp: Debit_cases Credit_cases transition_defs split: if_splits)

lemma no_dup_helpers [no_dup]:
  "never_duplicate (saveOutboxEvent R live_tx a n p)" "never_duplicate (lookupExisting R live_tx input h)"
  "never_duplicate (replay R live_tx x)" "never_duplicate (move_funds R live_tx t w dir v b)"
  by (auto simp: saveOutboxEvent_def lookupExisting_def replay_def move_funds_def intro!: no_dup split: option.splits)

lemma no_dup_conflict [no_dup]:
  "\<not> errors_is e ErrDuplicateMessage \<Longrightarrow> never_duplicate (handleSaveConflict R live_tx input t e)"
  by (auto simp: handleSaveConflict_def intro!: no_dup split: option.splits)

lemma no_dup_branches [no_dup]:
  "never_duplicate (reject_bet R live_tx input t w)" "never_duplicate (park R live_tx input t w)"
  "never_duplicate (finish R live_tx t w dir b v a)" "never_duplicate (settle R live_tx input t w dir b v a)"
  by (auto simp: reject_bet_def park_def finish_def settle_def dest: domain_errors intro!: no_dup)

lemma no_dup_process_new [no_dup]: "never_duplicate (process_new R live_tx input t w)"
  unfolding process_new_def Let_def
  by (auto dest: domain_errors intro!: no_dup split: sum.splits option.splits)

lemma no_dup_process [no_dup]:
  "never_duplicate (process_checked R live_tx input t)" "never_duplicate (duplicate_message R live_tx input t)"
  by (auto simp: process_checked_def duplicate_message_def intro!: no_dup split: option.splits)

lemma no_dup_body: "never_duplicate (process_body R input inbox t live_tx)"
proof (cases inbox)
  case None
  then show ?thesis by (simp add: process_body_def no_dup)
next
  case (Some c)
  have "never_duplicate (act_try m (\<lambda>err. if errors_is err ErrDuplicateMessage then duplicate_message R live_tx input t
      else act_fail err) (\<lambda>_. process_checked R live_tx input t))" for m :: "unit action"
    using no_dup_process [of R input t]
    by (fastforce simp: never_duplicate_def act_try_def act_fail_def split: prod.splits sum.splits if_splits)
  then show ?thesis using Some by (simp add: process_body_def)
qed

lemma never_answered_duplicate:
  assumes "ProcessTransactionWithInbox R cfg X input inbox d = (Inl e, d')"
  shows "\<not> errors_is e ErrDuplicateMessage"
proof (cases "prepare_wager R cfg (clock X 0) input")
  case (Inl e')
  then show ?thesis using assms prepare_wager_error by (auto simp: ProcessTransactionWithInbox_def)
next
  case (Inr t)
  have "ExecuteInTransaction X 1 (process_body R input inbox t) d = (Inl e, d')"
    using assms Inr by (auto simp: ProcessTransactionWithInbox_def split: prod.splits sum.splits)
  then show ?thesis
    using never_duplicateD [OF no_dup_body [of R input inbox t]]
    by (auto simp: ExecuteInTransaction_def split: option.splits prod.splits sum.splits commit_outcome.splits if_splits)
qed

text \<open>So a message is deleted only after the transaction that it carries was committed.\<close>

lemma deleted_committed:
  assumes "processSQSEnvelope R cfg rd X m c d = (Inr c', d')" "deletions c' \<noteq> deletions c"
  obtains body envelope out where "MsgBody m = Some body" "unmarshal_envelope body = Some envelope"
    "ProcessTransactionWithInbox R cfg X (envelope_input envelope) (Some (sqs_claim m body envelope)) d = (Inr out, d')"
proof -
  obtain body envelope where b: "MsgBody m = Some body" "unmarshal_envelope body = Some envelope"
    and run: "case ProcessTransactionWithInbox R cfg X (envelope_input envelope) (Some (sqs_claim m body envelope)) d of
        (Inl e, _) \<Rightarrow> errors_is e ErrDuplicateMessage | (Inr _, d'') \<Rightarrow> d'' = d'"
    using deleted_processed [OF assms] by (elim exE conjE)
  obtain r d'' where r: "ProcessTransactionWithInbox R cfg X (envelope_input envelope) (Some (sqs_claim m body envelope)) d = (r, d'')"
    by fastforce
  show ?thesis
  proof (cases r)
    case (Inl e)
    then show ?thesis using never_answered_duplicate [of R cfg X "envelope_input envelope"] run r by auto
  next
    case (Inr out)
    then show ?thesis using that [OF b] run r by simp
  qed
qed

end
