(* ===== verification/Auth_Middleware.thy ===== *)
theory Auth_Middleware
  imports Config Go_Json_Decode "HOL-Library.AList"
begin

text \<open>
  \<open>internal/infrastructure/transport/auth_middleware.go\<close>: the authentication of HTTP requests by a bearer
  token, the extraction of the provider from it, and the cache of the keys of the identity provider.

  The JWT library is not part of the repository: \<open>jwt_lib\<close> holds what the source uses of it (to decode a
  token without trusting it, to check its signature with a key, to validate its claims), and
  \<open>jwt_parse\<close> puts them in the order the library documents. The answer of the JWKS endpoint is the argument
  \<open>fetch\<close>: no answer, or a status code and a body (its bytes, and the error that comes after them, if any). Go iterates over a map in no fixed order: the entry that an iteration meets first is the
  argument \<open>first_of\<close>. An instant of \<open>None\<close> is the zero \<open>time.Time\<close>.
\<close>

record http_response =
  status_code :: int
  response_headers :: "(string \<times> string) list"
  response_body :: string

record rsa_public_key =
  RsaN :: nat
  RsaE :: int64

record jwks_key =
  Kid :: string
  Kty :: string
  Alg :: string
  KeyN :: string
  KeyE :: string
  KeyUse :: string

record auth =
  auth_keys :: "(string \<times> rsa_public_key) list"
  fetchedAt :: "int option"

datatype claim = ClaimString string | ClaimOther string

type_synonym claims = "string \<Rightarrow> claim option"

record jwt_token =
  TokenAlg :: string
  TokenKid :: "claim option"
  TokenClaims :: claims

record jwt_lib =
  jwt_decode :: "string \<Rightarrow> goerror + jwt_token"
  jwt_signed_by :: "string \<Rightarrow> rsa_public_key \<Rightarrow> bool"
  jwt_claims_error :: "string \<Rightarrow> claims \<Rightarrow> goerror option"

datatype jwks_reply = FetchFailed goerror | FetchReply int string "goerror option"

text \<open>\<open>jwksResponse\<close>: its only field is a slice of keys.\<close>

definition empty_jwks_key :: jwks_key where
  "empty_jwks_key = \<lparr>Kid = '''', Kty = '''', Alg = '''', KeyN = '''', KeyE = '''', KeyUse = ''''\<rparr>"

definition jwks_key_fields :: "(string \<times> jwks_key decoder) list" where
  "jwks_key_fields =
     [(''kid'', text_field Kid_update), (''kty'', text_field Kty_update), (''alg'', text_field Alg_update),
      (''n'', text_field KeyN_update), (''e'', text_field KeyE_update), (''use'', text_field KeyUse_update)]"

definition decode_jwks :: "string \<Rightarrow> goerror option \<Rightarrow> jwks_key list option" where
  "decode_jwks body err =
     (case json_first body err of
        None \<Rightarrow> None
      | Some v \<Rightarrow>
          map_option slice_elements
            (decode_struct [(''keys'', decode_slice empty_jwks_key (decode_struct jwks_key_fields))] v ([], 0)))"

section \<open>base64.RawURLEncoding\<close>

text \<open>
  The URL alphabet without padding. Carriage returns and line feeds are skipped; a group of one
  character is an error; the bits that fill no byte are ignored.
\<close>

definition base64_val :: "char \<Rightarrow> nat option" where
  "base64_val c =
     (let n = byte_val c in
      if 65 \<le> n \<and> n \<le> 90 then Some (n - 65)
      else if 97 \<le> n \<and> n \<le> 122 then Some (n - 71)
      else if 48 \<le> n \<and> n \<le> 57 then Some (n + 4)
      else if n = 45 then Some 62
      else if n = 95 then Some 63
      else None)"

fun base64_bytes :: "nat list \<Rightarrow> nat list option" where
  "base64_bytes [] = Some []"
| "base64_bytes [a] = None"
| "base64_bytes [a, b] = Some [a * 4 + b div 16]"
| "base64_bytes [a, b, c] = Some [a * 4 + b div 16, (b mod 16) * 16 + c div 4]"
| "base64_bytes (a # b # c # d # rest) =
     map_option (\<lambda>bs. [a * 4 + b div 16, (b mod 16) * 16 + c div 4, (c mod 4) * 64 + d] @ bs) (base64_bytes rest)"

definition base64_decode :: "string \<Rightarrow> nat list option" where
  "base64_decode s =
     (let vs = map base64_val (filter (\<lambda>c. byte_val c \<noteq> 10 \<and> byte_val c \<noteq> 13) s) in
      if None \<in> set vs then None else base64_bytes (map the vs))"

section \<open>The operations\<close>

text \<open>The errors of the two decoders; the program uses their texts in a log line only.\<close>

definition ErrBase64 :: goerror where
  "ErrBase64 = ErrorString ''illegal base64 data''"

definition ErrJson :: goerror where
  "ErrJson = ErrorString ''invalid JSON''"

definition rsaPublicKeyFromJWK :: "string \<Rightarrow> string \<Rightarrow> rsa_public_key result" where
  "rsaPublicKeyFromJWK nStr eStr =
     (case base64_decode nStr of
        None \<Rightarrow> Inl ErrBase64
      | Some nb \<Rightarrow>
          (case base64_decode eStr of
             None \<Rightarrow> Inl ErrBase64
           | Some eb \<Rightarrow>
               let n = foldl (\<lambda>v b. v * 256 + b) 0 nb;
                   e = foldl (\<lambda>v b. push_bit 8 v + of_nat b) (0 :: int64) eb
               in if e = 0 then Inl (ErrorString ''invalid exponent'')
                  else Inr \<lparr>RsaN = n, RsaE = e\<rparr>))"

fun collect_keys :: "jwks_key list \<Rightarrow> (string \<times> rsa_public_key) list \<Rightarrow> (string \<times> rsa_public_key) list" where
  "collect_keys [] acc = acc"
| "collect_keys (k # ks) acc =
     (if Kty k \<noteq> ''RSA'' then collect_keys ks acc
      else case rsaPublicKeyFromJWK (KeyN k) (KeyE k) of
        Inl err \<Rightarrow> collect_keys ks acc
      | Inr pub \<Rightarrow> collect_keys ks (AList.update (Kid k) pub acc))"

definition refreshKeys :: "jwks_reply \<Rightarrow> int \<Rightarrow> auth \<Rightarrow> goerror option \<times> auth" where
  "refreshKeys fetch now m =
     (case fetch of
        FetchFailed err \<Rightarrow> (Some err, m)
      | FetchReply code body err \<Rightarrow>
          if code \<noteq> 200 then (Some (ErrorString (''jwks http status '' @ show_int code)), m)
          else case decode_jwks body err of
            None \<Rightarrow> (Some ErrJson, m)
          | Some ks \<Rightarrow>
              let next = collect_keys ks [] in
              if next = [] then (Some (ErrorString ''no rsa keys in jwks''), m)
              else (None, m\<lparr>auth_keys := next, fetchedAt := Some now\<rparr>))"

text \<open>\<open>time.Since(m.fetchedAt) > 5*time.Minute\<close>, in nanoseconds.\<close>

definition keys_stale :: "int \<Rightarrow> auth \<Rightarrow> bool" where
  "keys_stale now m = (case fetchedAt m of None \<Rightarrow> True | Some t \<Rightarrow> 300000000000 < now - t)"

definition keyForKid ::
  "((string \<times> rsa_public_key) list \<Rightarrow> rsa_public_key) \<Rightarrow> jwks_reply \<Rightarrow> int \<Rightarrow> string \<Rightarrow> auth
   \<Rightarrow> rsa_public_key result \<times> auth" where
  "keyForKid first_of fetch now kid m =
     (let cached = map_of (auth_keys m) kid in
      if cached \<noteq> None \<and> \<not> keys_stale now m then (Inr (the cached), m)
      else
        let (err, m') = refreshKeys fetch now m in
        if err \<noteq> None \<and> cached = None then (Inl (the err), m')
        else case map_of (auth_keys m') kid of
          Some key \<Rightarrow> (Inr key, m')
        | None \<Rightarrow>
            if kid = '''' \<and> auth_keys m' \<noteq> [] then (Inr (first_of (auth_keys m')), m')
            else (Inl (ErrorString (''jwks kid not found: '' @ kid)), m'))"

text \<open>The key function that the source gives to \<open>jwt.Parse\<close>.\<close>

definition token_key ::
  "((string \<times> rsa_public_key) list \<Rightarrow> rsa_public_key) \<Rightarrow> jwks_reply \<Rightarrow> int \<Rightarrow> jwt_token \<Rightarrow> auth
   \<Rightarrow> rsa_public_key result \<times> auth" where
  "token_key first_of fetch now token m =
     (if TokenAlg token \<notin> {''RS256'', ''RS384'', ''RS512''}
      then (Inl (ErrorString (''unexpected signing method: '' @ TokenAlg token)), m)
      else keyForKid first_of fetch now (case TokenKid token of Some (ClaimString kid) \<Rightarrow> kid | _ \<Rightarrow> '''') m)"

text \<open>
  \<open>jwt.Parse\<close> with the options \<open>WithIssuer\<close> and \<open>WithValidMethods\<close>: decode, test the method, ask the key
  function, verify the signature, validate the claims.
\<close>

definition jwt_parse ::
  "jwt_lib \<Rightarrow> string \<Rightarrow> string list \<Rightarrow> (jwt_token \<Rightarrow> auth \<Rightarrow> rsa_public_key result \<times> auth) \<Rightarrow> string \<Rightarrow> auth
   \<Rightarrow> jwt_token result \<times> auth" where
  "jwt_parse J issuer methods keyfunc tokenStr m =
     (case jwt_decode J tokenStr of
        Inl err \<Rightarrow> (Inl err, m)
      | Inr token \<Rightarrow>
          if TokenAlg token \<notin> set methods then (Inl (ErrorString ''signing method is invalid''), m)
          else (case keyfunc token m of
            (Inl err, m') \<Rightarrow> (Inl err, m')
          | (Inr key, m') \<Rightarrow>
              if \<not> jwt_signed_by J tokenStr key then (Inl (ErrorString ''token signature is invalid''), m')
              else (case jwt_claims_error J issuer (TokenClaims token) of
                Some err \<Rightarrow> (Inl err, m')
              | None \<Rightarrow> (Inr token, m'))))"

text \<open>\<open>fmt.Sprintf("%v", claim)\<close>: \<open>ClaimOther\<close> carries what it prints of a value that is not a string.\<close>

fun claim_text :: "claim \<Rightarrow> string" where
  "claim_text (ClaimString s) = s"
| "claim_text (ClaimOther s) = s"

definition provider_of_client :: "string \<Rightarrow> string" where
  "provider_of_client clientID = remove_all ''-service'' clientID"

definition provider_of_claims :: "claims \<Rightarrow> string result" where
  "provider_of_claims cs =
     (case cs ''azp'' of
        Some azp \<Rightarrow> Inr (provider_of_client (claim_text azp))
      | None \<Rightarrow>
          (case cs ''client_id'' of
             Some cid \<Rightarrow> Inr (provider_of_client (claim_text cid))
           | None \<Rightarrow> Inl (ErrorString ''client id not found in token'')))"

definition verifyAndExtractProvider ::
  "config \<Rightarrow> jwt_lib \<Rightarrow> ((string \<times> rsa_public_key) list \<Rightarrow> rsa_public_key) \<Rightarrow> jwks_reply \<Rightarrow> int \<Rightarrow> string \<Rightarrow> auth
   \<Rightarrow> string result \<times> auth" where
  "verifyAndExtractProvider cfg J first_of fetch now tokenStr m =
     (case jwt_parse J (IDPIssuerURL cfg) [''RS256''] (token_key first_of fetch now) tokenStr m of
        (Inl err, m') \<Rightarrow> (Inl err, m')
      | (Inr token, m') \<Rightarrow> (provider_of_claims (TokenClaims token), m'))"

definition json_response :: "int \<Rightarrow> json_value \<Rightarrow> http_response" where
  "json_response code v =
     \<lparr>status_code = code, response_headers = [(''Content-Type'', ''application/json'')],
      response_body = show_json v @ [CHR 0x0A]\<rparr>"

definition respondError :: "int \<Rightarrow> string \<Rightarrow> http_response" where
  "respondError code message = json_response code (json_map [(''error'', JString message)])"

text \<open>
  What the middleware does with a request: it answers itself, or it passes the request on, with the
  provider of the token in the context, or without one on the paths that need no token.
\<close>

datatype auth_decision = Answer http_response | PassOn "string option"

definition Authenticate ::
  "runtime \<Rightarrow> config \<Rightarrow> jwt_lib \<Rightarrow> ((string \<times> rsa_public_key) list \<Rightarrow> rsa_public_key) \<Rightarrow> jwks_reply \<Rightarrow> int
   \<Rightarrow> string \<Rightarrow> string \<Rightarrow> auth \<Rightarrow> auth_decision \<times> auth" where
  "Authenticate R cfg J first_of fetch now path authHeader m =
     (if path = ''/health/live'' \<or> path = ''/health/ready'' \<or> path = ''/metrics'' then (PassOn None, m)
      else if authHeader = '''' then (Answer (respondError 401 ''Unauthorized''), m)
      else
        (case split_on (CHR '' '') authHeader of
           [scheme, tokenStr] \<Rightarrow>
             if to_lower R scheme \<noteq> ''bearer'' then (Answer (respondError 401 ''Invalid Authorization header''), m)
             else (case verifyAndExtractProvider cfg J first_of fetch now tokenStr m of
               (Inl err, m') \<Rightarrow> (Answer (respondError 401 ''Invalid token''), m')
             | (Inr providerID, m') \<Rightarrow> (PassOn (Some providerID), m'))
         | _ \<Rightarrow> (Answer (respondError 401 ''Invalid Authorization header''), m)))"

text \<open>The constructor: the first fetch may fail, the keys are fetched again on demand.\<close>

definition NewAuthMiddleware :: "config \<Rightarrow> jwks_reply \<Rightarrow> int \<Rightarrow> auth" where
  "NewAuthMiddleware cfg fetch now =
     (let m = \<lparr>auth_keys = [], fetchedAt = None\<rparr> in
      if IDPJWKSURL cfg \<noteq> '''' then snd (refreshKeys fetch now m) else m)"

section \<open>Keys\<close>

text \<open>Where a key comes from: the cache, or the last answer of the identity provider.\<close>

lemma refreshKeys_cases:
  assumes "refreshKeys fetch now m = (err, m')"
  obtains e where "err = Some e" "m' = m"
  | body re ks where "err = None" "fetch = FetchReply 200 body re" "decode_jwks body re = Some ks"
    "m' = m\<lparr>auth_keys := collect_keys ks [], fetchedAt := Some now\<rparr>" "collect_keys ks [] \<noteq> []"
  using assms by (auto simp: refreshKeys_def Let_def split: jwks_reply.splits option.splits if_splits)

lemma collect_keys_origin:
  "(kid, key) \<in> set (collect_keys ks acc) \<Longrightarrow>
     (kid, key) \<in> set acc \<or> (\<exists>k \<in> set ks. Kid k = kid \<and> Kty k = ''RSA'' \<and> rsaPublicKeyFromJWK (KeyN k) (KeyE k) = Inr key)"
proof (induction ks arbitrary: acc)
  case (Cons k ks)
  have up: "x \<in> set (AList.update a b acc) \<Longrightarrow> x = (a, b) \<or> x \<in> set acc" for x a b
    by (induction acc) (auto split: if_splits)
  show ?case
    using Cons by (auto split: if_splits sum.splits dest!: up)
qed simp

text \<open>A key that verifies a token was published by the identity provider, in the cache or in the last answer.\<close>

definition published :: "jwks_reply \<Rightarrow> rsa_public_key \<Rightarrow> bool" where
  "published fetch key \<longleftrightarrow>
     (\<exists>body err ks k. fetch = FetchReply 200 body err \<and> decode_jwks body err = Some ks \<and> k \<in> set ks
       \<and> Kty k = ''RSA'' \<and> rsaPublicKeyFromJWK (KeyN k) (KeyE k) = Inr key)"

lemma keyForKid_trusted:
  assumes "keyForKid first_of fetch now kid m = (Inr key, m')" "\<And>xs. xs \<noteq> [] \<Longrightarrow> first_of xs \<in> snd ` set xs"
  shows "key \<in> snd ` set (auth_keys m) \<or> published fetch key"
proof -
  obtain err m1 where r: "refreshKeys fetch now m = (err, m1)" by fastforce
  have new: "key' \<in> snd ` set (auth_keys m) \<or> published fetch key'" if "key' \<in> snd ` set (auth_keys m1)" for key'
    using r
  proof (rule refreshKeys_cases)
    fix body re ks assume "fetch = FetchReply 200 body re" "decode_jwks body re = Some ks" "m1 = m\<lparr>auth_keys := collect_keys ks [], fetchedAt := Some now\<rparr>"
    moreover from this that obtain k' where "(k', key') \<in> set (collect_keys ks [])" by auto
    ultimately show ?thesis using collect_keys_origin [of k' key' ks "[]"] by (auto simp: published_def)
  qed (use that in simp)
  have mem: "map_of xs k = Some v \<Longrightarrow> v \<in> snd ` set xs" for xs :: "(string \<times> rsa_public_key) list" and k v
    by (force dest: map_of_SomeD)
  have "map_of (auth_keys m) kid = Some key \<or> map_of (auth_keys m1) kid = Some key
      \<or> auth_keys m1 \<noteq> [] \<and> key = first_of (auth_keys m1)"
    using assms(1) r by (auto simp: keyForKid_def Let_def split: if_splits option.splits)
  then show ?thesis using mem new assms(2) by metis
qed

section \<open>Who is let in\<close>

text \<open>
  A request that is passed on with a provider carried a bearer token whose method is RS256, that is
  signed with a key of the identity provider and whose claims are valid; the provider is the client of the token.
\<close>

definition authentic ::
  "config \<Rightarrow> jwt_lib \<Rightarrow> jwks_reply \<Rightarrow> auth \<Rightarrow> string \<Rightarrow> string \<Rightarrow> bool" where
  "authentic cfg J fetch m tokenStr provider \<longleftrightarrow>
     (\<exists>token key. jwt_decode J tokenStr = Inr token \<and> TokenAlg token = ''RS256''
        \<and> (key \<in> snd ` set (auth_keys m) \<or> published fetch key) \<and> jwt_signed_by J tokenStr key
        \<and> jwt_claims_error J (IDPIssuerURL cfg) (TokenClaims token) = None
        \<and> provider_of_claims (TokenClaims token) = Inr provider)"

lemma verify_authentic:
  assumes "verifyAndExtractProvider cfg J first_of fetch now tokenStr m = (Inr provider, m')"
    "\<And>xs. xs \<noteq> [] \<Longrightarrow> first_of xs \<in> snd ` set xs"
  shows "authentic cfg J fetch m tokenStr provider"
proof -
  obtain token where p: "jwt_parse J (IDPIssuerURL cfg) [''RS256''] (token_key first_of fetch now) tokenStr m = (Inr token, m')"
    and c: "provider_of_claims (TokenClaims token) = Inr provider"
    using assms(1) by (auto simp: verifyAndExtractProvider_def split: prod.splits sum.splits)
  obtain key where d: "jwt_decode J tokenStr = Inr token" "TokenAlg token = ''RS256''"
    and k: "token_key first_of fetch now token m = (Inr key, m')"
    and s: "jwt_signed_by J tokenStr key" "jwt_claims_error J (IDPIssuerURL cfg) (TokenClaims token) = None"
    using p by (auto simp: jwt_parse_def split: sum.splits prod.splits if_splits option.splits)
  have "key \<in> snd ` set (auth_keys m) \<or> published fetch key"
    using k d(2) keyForKid_trusted [OF _ assms(2)] by (auto simp: token_key_def)
  then show ?thesis using c d s by (auto simp: authentic_def)
qed

lemma Authenticate_cases:
  assumes "Authenticate R cfg J first_of fetch now path authHeader m = (decision, m')"
    "\<And>xs. xs \<noteq> [] \<Longrightarrow> first_of xs \<in> snd ` set xs"
  obtains "decision = PassOn None" "path \<in> {''/health/live'', ''/health/ready'', ''/metrics''}"
  | resp where "decision = Answer resp" "status_code resp = 401"
  | scheme tokenStr provider where "decision = PassOn (Some provider)" "authHeader = scheme @ CHR '' '' # tokenStr"
    "to_lower R scheme = ''bearer''" "authentic cfg J fetch m tokenStr provider"
proof (cases "path = ''/health/live'' \<or> path = ''/health/ready'' \<or> path = ''/metrics''")
  case True
  then show ?thesis using that(1) assms(1) by (auto simp: Authenticate_def)
next
  case False
  have r401: "status_code (respondError 401 msg) = 401" for msg
    by (simp add: respondError_def json_response_def)
  show ?thesis
  proof (cases "\<exists>scheme tokenStr provider. split_on (CHR '' '') authHeader = [scheme, tokenStr] \<and> to_lower R scheme = ''bearer''
      \<and> verifyAndExtractProvider cfg J first_of fetch now tokenStr m = (Inr provider, m') \<and> decision = PassOn (Some provider)")
    case True
    then obtain scheme tokenStr provider where x: "split_on (CHR '' '') authHeader = [scheme, tokenStr]"
      "to_lower R scheme = ''bearer''" "verifyAndExtractProvider cfg J first_of fetch now tokenStr m = (Inr provider, m')"
      "decision = PassOn (Some provider)" by blast
    have "authHeader = scheme @ CHR '' '' # tokenStr" using split_on_join [of "CHR '' ''" authHeader] x(1) by simp
    then show ?thesis using that(3) x verify_authentic [OF x(3) assms(2)] by blast
  next
    case no: False
    then have "\<exists>msg. decision = Answer (respondError 401 msg)"
      using assms(1) False
      by (auto simp: Authenticate_def split: if_splits list.splits sum.splits prod.splits)
    then show ?thesis using that(2) r401 by blast
  qed
qed

end
