(* ===== verification/Base64_Laws.thy ===== *)
theory Base64_Laws
  imports Auth_Middleware
begin

text \<open>
  The decoding of the modulus and the exponent of a key. \<open>base64_encode\<close> is the reference definition of what the
  identity provider does: the URL alphabet of RFC 4648, without padding. Decoding is its inverse, and so a key that was
  published is the key that is used.
\<close>

definition base64_char :: "nat \<Rightarrow> char" where
  "base64_char v =
     byte_of (if v < 26 then 65 + v else if v < 52 then 71 + v else if v < 62 then v - 4 else if v = 62 then 45 else 95)"

fun base64_groups :: "nat list \<Rightarrow> nat list" where
  "base64_groups [] = []"
| "base64_groups [x] = [x div 4, (x mod 4) * 16]"
| "base64_groups [x, y] = [x div 4, (x mod 4) * 16 + y div 16, (y mod 16) * 4]"
| "base64_groups (x # y # z # rest) =
     [x div 4, (x mod 4) * 16 + y div 16, (y mod 16) * 4 + z div 64, z mod 64] @ base64_groups rest"

definition base64_encode :: "nat list \<Rightarrow> string" where
  "base64_encode bs = map base64_char (base64_groups bs)"

text \<open>The big-endian bytes of a number, as many as it needs.\<close>

fun be_nat :: "nat \<Rightarrow> nat list" where
  "be_nat n = (if n = 0 then [] else be_nat (n div 256) @ [n mod 256])"

declare be_nat.simps [simp del]

section \<open>Decoding is the inverse of encoding\<close>

lemma base64_char_val:
  assumes "v < 64"
  shows "base64_val (base64_char v) = Some v" "byte_val (base64_char v) \<noteq> 10" "byte_val (base64_char v) \<noteq> 13"
proof -
  consider "v < 26" | "26 \<le> v \<and> v < 52" | "52 \<le> v \<and> v < 62" | "v = 62" | "v = 63" using assms by linarith
  then show "base64_val (base64_char v) = Some v" by cases (auto simp: base64_char_def base64_val_def Let_def)
  have "44 < byte_val (base64_char v)" using assms by (auto simp: base64_char_def)
  then show "byte_val (base64_char v) \<noteq> 10" "byte_val (base64_char v) \<noteq> 13" by simp_all
qed

lemma groups_small: "\<forall>b \<in> set bs. b < 256 \<Longrightarrow> \<forall>v \<in> set (base64_groups bs). v < 64"
proof (induction bs rule: base64_groups.induct)
  case (4 x y z rest)
  then show ?case by (auto simp: less_mult_imp_div_less)
qed (auto simp: less_mult_imp_div_less)

text \<open>The six-bit groups of three bytes, put together again.\<close>

lemma regroup:
  fixes y z :: nat
  assumes "y < 256" "z < 256"
  shows "y div 16 div 16 = 0" "y div 16 mod 16 * 16 + (y mod 16 + z div 64 div 4) = y" "z div 64 mod 4 * 64 + z mod 64 = z"
proof -
  have "y div 16 < 16" "z div 64 < 4" using assms by (simp_all add: less_mult_imp_div_less)
  then show "y div 16 div 16 = 0" "y div 16 mod 16 * 16 + (y mod 16 + z div 64 div 4) = y" "z div 64 mod 4 * 64 + z mod 64 = z"
    by simp_all
qed

lemma base64_bytes_groups: "\<forall>b \<in> set bs. b < 256 \<Longrightarrow> base64_bytes (base64_groups bs) = Some bs"
proof (induction bs rule: base64_groups.induct)
  case (4 x y z rest)
  then show ?case using regroup [of y z] by simp
next
  case (3 x y)
  then show ?case using regroup [of y 0] by simp
next
  case (2 x)
  then show ?case by simp
qed simp

lemma decode_values:
  assumes "\<forall>v \<in> set vs. v < 64"
  shows "base64_decode (map base64_char vs) = base64_bytes vs"
proof -
  have "filter (\<lambda>c. byte_val c \<noteq> 10 \<and> byte_val c \<noteq> 13) (map base64_char vs) = map base64_char vs"
    using assms base64_char_val by (intro filter_True) auto
  moreover have "map base64_val (map base64_char vs) = map Some vs" using assms base64_char_val(1) by simp
  moreover have "None \<notin> set (map Some vs)" "map the (map Some vs) = vs" by (auto simp: comp_def)
  ultimately show ?thesis by (simp add: base64_decode_def del: map_map)
qed

lemma base64_decode_encode: "\<forall>b \<in> set bs. b < 256 \<Longrightarrow> base64_decode (base64_encode bs) = Some bs"
  by (simp add: base64_encode_def decode_values groups_small base64_bytes_groups)

section \<open>Keys\<close>

lemma be_nat_bytes: "\<forall>b \<in> set (be_nat n). b < 256"
proof (induction n rule: be_nat.induct)
  case (1 n)
  show ?case
  proof (cases "n = 0")
    case False
    then show ?thesis using 1 by (auto simp: be_nat.simps [of n])
  qed (simp add: be_nat.simps)
qed

lemma be_nat_value: "foldl (\<lambda>v b. v * 256 + b) 0 (be_nat n) = n"
proof (induction n rule: be_nat.induct)
  case (1 n)
  show ?case
  proof (cases "n = 0")
    case False
    then show ?thesis using 1 by (simp add: be_nat.simps [of n])
  qed (simp add: be_nat.simps)
qed

lemma be_nat_word: "foldl (\<lambda>v b. push_bit 8 v + of_nat b) (0 :: int64) (be_nat n) = of_nat n"
proof (induction n rule: be_nat.induct)
  case (1 n)
  show ?case
  proof (cases "n = 0")
    case False
    have "push_bit 8 (of_nat (n div 256) :: int64) + of_nat (n mod 256) = of_nat (n div 256 * 256 + n mod 256)"
      by (simp only: push_bit_eq_mult of_nat_add of_nat_mult) simp
    also have "n div 256 * 256 + n mod 256 = n" by simp
    finally have "push_bit 8 (of_nat (n div 256) :: int64) + of_nat (n mod 256) = of_nat n" .
    then show ?thesis using 1 False by (simp add: be_nat.simps [of n])
  qed (simp add: be_nat.simps)
qed

lemma published_key:
  assumes "0 < e" "e < 2 ^ 63"
  shows "rsaPublicKeyFromJWK (base64_encode (be_nat n)) (base64_encode (be_nat e)) = Inr \<lparr>RsaN = n, RsaE = of_nat e\<rparr>"
proof -
  have "(of_nat e :: int64) \<noteq> 0"
  proof
    assume "(of_nat e :: int64) = 0"
    then have "unat (of_nat e :: int64) = 0" by simp
    moreover have "unat (of_nat e :: int64) = e" using assms(2) by (simp add: unat_of_nat take_bit_nat_eq_self)
    ultimately show False using assms(1) by simp
  qed
  then show ?thesis
    by (simp add: rsaPublicKeyFromJWK_def base64_decode_encode be_nat_bytes be_nat_value be_nat_word Let_def)
qed

end
