(* ===== verification/Idempotency.thy ===== *)
theory Idempotency
  imports Wager_Effects
begin

text \<open>
  Idempotency, forwards: what a call does when the transaction it asks for is stored already. The lookups are evaluated in
  an environment without faults (\<open>fault_free\<close>); the transaction may have been stored at any time before, because no operation
  deletes it or changes its identity (\<open>history\<close>).
\<close>

section \<open>Evaluation of the lookups\<close>

definition same_db :: "session \<Rightarrow> session \<Rightarrow> bool" where
  "same_db s s' \<longleftrightarrow> db s' = db s \<and> ticks s' = ticks s \<and> \<not> aborted s'"

lemma query_run:
  assumes "fault_free X" "\<not> aborted s" "list_all pg_text ps"
  shows "\<exists>s'. sql_query ps q X s = (Inr (q (db s)), s') \<and> same_db s s'"
  using assms by (simp add: sql_query_run same_db_def)

lemma scanOne_run:
  assumes "fault_free X" "\<not> aborted s" "list_all pg_text ps"
  shows "\<exists>s'. scanOne R ps q X s = (Inr (map_option (scan_tx R) (q (db s))), s') \<and> same_db s s'"
  using query_run [OF assms, of "\<lambda>d. map_option (scan_tx R) (q d)"]
  by (auto simp: scanOne_def wrap_err_def act_run)

definition lookup_result :: "runtime \<Rightarrow> input_dto \<Rightarrow> string \<Rightarrow> database \<Rightarrow> wager option result" where
  "lookup_result R input h d =
     (case existing_for input d of
        None \<Rightarrow> Inr None
      | Some x \<Rightarrow> if t_payload_hash x \<noteq> h then Inl ErrTransactionConflict else Inr (Some (scan_tx R x)))"

lemma lookupExisting_run:
  assumes "fault_free X" "\<not> aborted s" "pg_text (in_ProviderID input)" "pg_text (in_ExternalTransactionID input)"
    "pg_text (in_IdempotencyKey input)"
  shows "\<exists>s'. lookupExisting R live_tx input h X s = (lookup_result R input h (db s), s') \<and> same_db s s'"
proof -
  let ?ext = "tx_by_external (in_ProviderID input) (in_ExternalTransactionID input)"
  obtain s1 where s1: "FindByExternalIDTx R live_tx (in_ProviderID input) (in_ExternalTransactionID input) X s
      = (Inr (map_option (scan_tx R) (?ext (db s))), s1)" "same_db s s1"
    using scanOne_run [OF assms(1,2), of "[in_ProviderID input, in_ExternalTransactionID input]" R ?ext] assms(3,4)
    by (auto simp: FindByExternalIDTx_def)
  show ?thesis
  proof (cases "?ext (db s)")
    case (Some x)
    then show ?thesis
      using s1 by (simp add: lookupExisting_def lookup_result_def existing_for_def act_run)
  next
    case None
    obtain s2 where s2: "FindByIdempotencyKey R live_tx (in_IdempotencyKey input) X s1
        = (Inr (map_option (scan_tx R) (tx_by_key (in_IdempotencyKey input) (db s1))), s2)" "same_db s1 s2"
      using scanOne_run [OF assms(1), of s1 "[in_IdempotencyKey input]" R "tx_by_key (in_IdempotencyKey input)"] assms(5) s1(2)
      by (auto simp: FindByIdempotencyKey_def same_db_def)
    show ?thesis
      using s1 s2 None
      by (cases "tx_by_key (in_IdempotencyKey input) (db s)")
        (simp_all add: lookupExisting_def lookup_result_def existing_for_def act_run same_db_def)
  qed
qed

lemma FindByIDWithLock_run:
  assumes "fault_free X" "\<not> aborted s" "pg_text i" "wallet_by_id i (db s) = Some q"
  shows "\<exists>s'. FindByIDWithLock R live_tx i X s = (wallet_of_row R q, s') \<and> same_db s s'"
  using query_run [OF assms(1,2), of "[i]" "wallet_by_id i"] assms(3,4)
  by (auto simp: FindByIDWithLock_def wrap_err_def act_run)

section \<open>Replays and conflicts\<close>

text \<open>A call that finds its transaction, with the same payload.\<close>

lemma replay_run:
  assumes "fault_free X" "prepare_wager R cfg (clock X 0) input = Inr t"
    "pg_text (in_ProviderID input)" "pg_text (in_ExternalTransactionID input)" "pg_text (in_IdempotencyKey input)"
    "existing_for input d = Some x" "t_payload_hash x = payloadHash t"
    "pg_text (t_wallet_id x)" "wallet_by_id (t_wallet_id x) d = Some q" "w_id q \<noteq> ''''" "w_player_id q \<noteq> ''''"
    "0 \<le> sint (w_amount q)"
  shows "ProcessTransaction R cfg X input d =
     (Inr \<lparr>out_TransactionID = t_id x, out_Status = t_status x, out_Balance = shown_balance R q,
           out_IdempotentReplay = True\<rparr>, d)"
proof -
  let ?s = "start_session d 1"
  obtain s1 where s1: "lookupExisting R live_tx input (payloadHash t) X ?s = (Inr (Some (scan_tx R x)), s1)" "same_db ?s s1"
    using lookupExisting_run [OF assms(1) _ assms(3-5), of ?s R "payloadHash t"] assms(6,7)
    by (auto simp: lookup_result_def)
  have "\<exists>w. wallet_of_row R q = Inr w \<and> balance w = NewInternalMoney R (w_amount q) (w_currency q)"
    using assms(10-12) by (simp add: wallet_of_row_def RehydrateWallet_Inr cents_def NewInternalMoney_def)
  then obtain w where w: "wallet_of_row R q = Inr w" "balance w = NewInternalMoney R (w_amount q) (w_currency q)" by blast
  obtain s2 where s2: "FindByIDWithLock R live_tx (t_wallet_id x) X s1 = (Inr w, s2)" "same_db s1 s2"
    using FindByIDWithLock_run [OF assms(1) _ assms(8), of s1 q R] s1(2) assms(9) w(1) by (auto simp: same_db_def)
  have "process_body R input None t live_tx X ?s = (Inr (MarkAsIdempotentReplay (scan_tx R x), w, True), s2)"
    using s1(1) s2(1) by (simp add: process_body_def process_checked_def replay_def act_run)
  moreover have "db s2 = d" "\<not> aborted s2" using s1(2) s2(2) by (simp_all add: same_db_def)
  moreover have "begin_fault X = None" "commit_outcome X = CommitOk" using assms(1) by (simp_all add: fault_free_def)
  ultimately have "ExecuteInTransaction X 1 (process_body R input None t) d
      = (Inr (MarkAsIdempotentReplay (scan_tx R x), w, True), d)"
    using Execute_body_ok [of "process_body R input None t" X d 1] by simp
  then show ?thesis
    using assms(2) w(2)
    by (simp add: ProcessTransaction_def ProcessTransactionWithInbox_def output_of_def shown_balance_def
        MarkAsIdempotentReplay_def)
qed

text \<open>A call that finds a transaction with its keys and another payload.\<close>

lemma conflict_run:
  assumes "fault_free X" "prepare_wager R cfg (clock X 0) input = Inr t"
    "pg_text (in_ProviderID input)" "pg_text (in_ExternalTransactionID input)" "pg_text (in_IdempotencyKey input)"
    "existing_for input d = Some x" "t_payload_hash x \<noteq> payloadHash t"
  shows "ProcessTransaction R cfg X input d = (Inl ErrTransactionConflict, d)"
proof -
  let ?s = "start_session d 1"
  obtain s1 where "lookupExisting R live_tx input (payloadHash t) X ?s = (Inl ErrTransactionConflict, s1)"
    using lookupExisting_run [OF assms(1) _ assms(3-5), of ?s R "payloadHash t"] assms(6,7)
    by (auto simp: lookup_result_def)
  then have "process_body R input None t live_tx X ?s = (Inl ErrTransactionConflict, s1)"
    by (simp add: process_body_def process_checked_def act_run)
  then have "ExecuteInTransaction X 1 (process_body R input None t) d = (Inl ErrTransactionConflict, d)"
    using assms(1) by (intro Execute_body_fails) (simp_all add: fault_free_def)
  then show ?thesis
    using assms(2) by (simp add: ProcessTransaction_def ProcessTransactionWithInbox_def)
qed

section \<open>Once processed, replayed for ever\<close>

lemma payloadHash_stable:
  assumes "prepare_wager R cfg now input = Inr t"
  obtains t' where "prepare_wager R cfg now' input = Inr t'" "payloadHash t' = payloadHash t"
  using assms
  by (auto simp: prepare_wager_Inr CalculateAndSetPayloadHash_def canonicalJSON_def payload_map_def new_wager_def
      RehydrateWagerTransaction_def)

lemma prefix_map_mem:
  assumes "prefix (map f xs) (map f ys)" "x \<in> set xs"
  shows "\<exists>y \<in> set ys. f y = f x"
proof -
  have "f x \<in> set (map f ys)" using set_mono_prefix [OF assms(1)] assms(2) by auto
  then obtain y where "y \<in> set ys" "f x = f y" by auto
  then show ?thesis by auto
qed

lemma history_tx: "history d d' \<Longrightarrow> x \<in> set (wager_transactions d) \<Longrightarrow>
    \<exists>y \<in> set (wager_transactions d'). tx_identity y = tx_identity x"
  unfolding history_def by (intro prefix_map_mem) simp_all

lemma history_wallet: "history d d' \<Longrightarrow> x \<in> set (wallets d) \<Longrightarrow>
    \<exists>y \<in> set (wallets d'). wallet_identity y = wallet_identity x"
  unfolding history_def by (intro prefix_map_mem) simp_all

lemma find_external:
  assumes "ext_tab.unique d" "x \<in> set (wager_transactions d)"
  shows "tx_by_external (t_provider_id x) (t_external_transaction_id x) d = Some x"
  using ext_tab.lookup_unique [OF assms] by (simp add: ext_tab.lookup_def tx_by_external_def external_key_def)

lemma find_wallet:
  assumes "wallet_tab.unique d" "q \<in> set (wallets d)"
  shows "wallet_by_id (w_id q) d = Some q"
  using wallet_tab.lookup_unique [OF assms] by (simp add: wallet_tab.lookup_def wallet_by_id_def)

text \<open>The row that a call which is not a replay has stored.\<close>

lemma stored_by_call:
  assumes "wager_effect R X t q d p d'"
  shows "\<exists>retry. stored_tx (tx_row_of R p retry) \<in> set (wager_transactions d')
     \<and> providerID p = providerID t \<and> externalTransactionID p = externalTransactionID t
     \<and> walletID p = walletID t \<and> payloadHash p = payloadHash t \<and> txid p = txid t"
  using assms
  by (auto simp: wager_effect_def Let_def processed_def money_moved_def only_stored_def add_events_def add_tx_def
      split: option.splits if_splits)

lemma fits_text: "columns_fit cs \<Longrightarrow> (n, s) \<in> set cs \<Longrightarrow> pg_text s"
  by (auto simp: columns_fit_def list_all_iff pg_fits_def)

lemma effect_columns:
  assumes "SaveWithRetryAt R live_tx p retry X s = (Inr u, s')"
  shows "pg_text (providerID p)" "pg_text (externalTransactionID p)" "pg_text (idempotencyKey p)" "pg_text (walletID p)"
proof -
  have "columns_fit (tx_columns (tx_row_of R p retry))"
    using Tx_Save_ok [OF assms] by (simp add: insert_tx_Inr)
  then show "pg_text (providerID p)" "pg_text (externalTransactionID p)" "pg_text (idempotencyKey p)" "pg_text (walletID p)"
    by (auto simp: tx_columns_def tx_row_of_def elim: fits_text)
qed

text \<open>
  The parameters of the lookups are text: the first call has queried with the same ones. Values that fit
  their columns without a cut are found again.
\<close>

definition uncut :: "input_dto \<Rightarrow> bool" where
  "uncut input \<longleftrightarrow>
     pg_short 64 (in_ProviderID input) \<and> pg_short 64 (in_ExternalTransactionID input)
     \<and> pg_short 64 (internal_tx_id input) \<and> pg_short 64 (in_WalletID input)
     \<and> pg_text (in_IdempotencyKey input)"

lemma replayed_later:
  assumes first: "ProcessTransaction R cfg X input d = (Inr out, d1)" "\<not> out_IdempotentReplay out" "ledger_inv d"
    and later: "history d1 d2" "ledger_inv d2"
    and env: "fault_free X2" "uncut input"
  shows "\<exists>out2. ProcessTransaction R cfg X2 input d2 = (Inr out2, d2)
     \<and> out_TransactionID out2 = out_TransactionID out \<and> out_IdempotentReplay out2"
proof -
  obtain t where t: "prepare_wager R cfg (clock X 0) input = Inr t" and ce: "call_effect R X input t out d d1"
    using ProcessTransactionWithInbox_effect [of R cfg X input None d out d1] first(1)
    by (auto simp: ProcessTransaction_def claims_message_def)
  have none: "existing_for input d = None" using ce first(2) by (cases "existing_for input d") (auto simp: call_effect_def)
  then obtain q p where q: "wallet_by_id (in_WalletID input) d = Some q" "w_player_id q = in_PlayerID input"
    and eff: "wager_effect R X t q d p d1" and out: "out_TransactionID out = internal_tx_id input"
    using ce by (auto simp: call_effect_def)
  note f = prepared_fields [OF t]
  have hash: "pg_short 64 (payloadHash t)"
    using t graphic_pg_short [OF sha256_hex_graphic] by (auto simp: prepare_wager_Inr CalculateAndSetPayloadHash_def)
  obtain retry where row: "stored_tx (tx_row_of R p retry) \<in> set (wager_transactions d1)"
    and p: "providerID p = providerID t" "externalTransactionID p = externalTransactionID t"
      "walletID p = walletID t" "payloadHash p = payloadHash t" "txid p = txid t"
    using stored_by_call [OF eff] by blast
  let ?r = "stored_tx (tx_row_of R p retry)"
  obtain x where x: "x \<in> set (wager_transactions d2)" "tx_identity x = tx_identity ?r"
    using history_tx [OF later(1) row] by blast
  have rf: "t_id ?r = internal_tx_id input" "t_provider_id ?r = in_ProviderID input"
    "t_external_transaction_id ?r = in_ExternalTransactionID input" "t_payload_hash ?r = payloadHash t"
    "t_wallet_id ?r = in_WalletID input"
    using env(2) hash p f
    by (simp_all add: uncut_def pg_short_trunc stored_tx_def tx_row_of_def)
  have xf: "t_id x = internal_tx_id input" "t_provider_id x = in_ProviderID input"
    "t_external_transaction_id x = in_ExternalTransactionID input" "t_payload_hash x = payloadHash t"
    "t_wallet_id x = in_WalletID input"
    using x(2) rf by (simp_all add: tx_identity_def del: stored_ids)
  have ex: "existing_for input d2 = Some x"
    using find_external [of d2 x] later(2) x(1) xf by (simp add: existing_for_def ledger_inv_def books_def keys_inv_def)
  have "q \<in> set (wallets d)" "w_id q = in_WalletID input"
    using q(1) by (auto simp: wallet_by_id_def dest: find_SomeD)
  moreover have "history d d1"
    using first(1) hist.process_respects by (simp add: ProcessTransaction_def)
  then have "history d d2" using later(1) hist.Q_trans by blast
  ultimately obtain q2 where q2: "q2 \<in> set (wallets d2)" "wallet_identity q2 = wallet_identity q"
    using history_wallet by blast
  have qf: "w_id q2 = in_WalletID input" "w_player_id q2 = in_PlayerID input"
    using q2(2) q(2) \<open>w_id q = in_WalletID input\<close> by (simp_all add: wallet_identity_def)
  have "wallet_by_id (in_WalletID input) d2 = Some q2" "0 \<le> sint (w_amount q2)"
    using find_wallet [of d2 q2] later(2) q2(1) qf by (auto simp: ledger_inv_def books_def keys_inv_def balance_inv_def)
  moreover obtain t2 where "prepare_wager R cfg (clock X2 0) input = Inr t2" "payloadHash t2 = payloadHash t"
    using t by (rule payloadHash_stable)
  moreover have "in_WalletID input \<noteq> ''''" "in_PlayerID input \<noteq> ''''" using t by (auto simp: prepare_wager_Inr)
  ultimately show ?thesis
    using replay_run [OF env(1), of R cfg input t2 d2 x q2] ex xf qf out env(2)
    by (auto simp: uncut_def pg_short_def)
qed

end
