(* ===== verification/Pending_Reference_Worker.thy ===== *)
theory Pending_Reference_Worker
  imports Wager_Usecase
begin

text \<open>
  \<open>internal/infrastructure/transport/pending_reference_worker.go\<close>: one tick of the worker. It reads at most
  twenty transactions whose retry is due and resolves each in a database transaction of its own, with the
  environment \<open>env n\<close> for the \<open>n\<close>-th; an error is logged and the loop goes on. \<open>Start\<close> and \<open>Stop\<close> are in
  \<open>Worker_Loop\<close> and \<open>Service_System\<close>, where other steps can come between two items.
\<close>

fun resolve_items :: "runtime \<Rightarrow> (nat \<Rightarrow> txenv) \<Rightarrow> nat \<Rightarrow> wager list \<Rightarrow> database \<Rightarrow> database" where
  "resolve_items R env n [] d = d"
| "resolve_items R env n (item # items) d =
     (case ResolvePendingReference R (env n) (txid item) d of
        (Inl err, d') \<Rightarrow> resolve_items R env (Suc n) items d'
      | (Inr _, d') \<Rightarrow> resolve_items R env (Suc n) items d')"

definition processBatch ::
  "runtime \<Rightarrow> pgx_pool \<Rightarrow> txenv \<Rightarrow> (nat \<Rightarrow> txenv) \<Rightarrow> database \<Rightarrow> database" where
  "processBatch R pool X env d =
     (case FindPendingReferences R pool X 0 (clock X 0) 20 d of
        Inl err \<Rightarrow> d
      | Inr items \<Rightarrow> resolve_items R env 0 items d)"

text \<open>Whatever every resolution keeps, the batch keeps.\<close>

lemma resolve_items_keeps:
  assumes "P d" "\<And>X i d r d'. P d \<Longrightarrow> ResolvePendingReference R X i d = (r, d') \<Longrightarrow> P d'"
  shows "P (resolve_items R env n items d)"
  using assms(1)
proof (induction items arbitrary: n d)
  case (Cons item items)
  obtain r d' where "ResolvePendingReference R (env n) (txid item) d = (r, d')" by fastforce
  with Cons assms(2) show ?case by (cases r) simp_all
qed simp

lemma processBatch_keeps:
  assumes "P d" "\<And>X i d r d'. P d \<Longrightarrow> ResolvePendingReference R X i d = (r, d') \<Longrightarrow> P d'"
  shows "P (processBatch R pool X env d)"
  using assms by (auto simp: processBatch_def intro: resolve_items_keeps split: sum.split)

end
