(* ===== verification/Http_Handler.thy ===== *)
theory Http_Handler
  imports Auth_Middleware Outbox_Worker Open_Wallet_Usecase Reconciliation_Usecase
begin

text \<open>
  \<open>internal/infrastructure/transport/http_handler.go\<close> and \<open>handleMetrics\<close> of \<open>metrics.go\<close>: the handlers of the
  HTTP interface, with the status code, the headers and the body of each answer. A request body is
  the bytes that can be read and the error that comes after them, if any. The texts of the errors of the driver and of
  \<open>encoding/json\<close>, which some answers repeat, are arguments, and so is the answer of \<open>pool.Ping\<close>. \<open>route\<close> is \<open>http.ServeMux\<close> on the patterns of the source, for
  a path that is clean and has no escapes; \<open>NoRoute\<close> stands for the answers of the mux itself. Logging and the two seconds
  of the readiness probe are not modelled.
\<close>

record wallet_body =
  wb_PlayerID :: string
  wb_Amount :: string
  wb_Currency :: string

record wager_body =
  gb_ProviderID :: string
  gb_ExternalTransactionID :: string
  gb_PlayerID :: string
  gb_WalletID :: string
  gb_RoundID :: string
  gb_GameID :: string
  gb_Kind :: string
  gb_Amount :: string
  gb_Currency :: string
  gb_ReferenceExternalID :: string

record http_request =
  req_method :: string
  req_path :: string
  req_authorization :: string
  req_idempotency_key :: string
  req_body :: string
  req_body_error :: "goerror option"

text \<open>The text of a driver error, and of the error of \<open>json.Unmarshal\<close> on a text that it refuses.\<close>

record http_lib =
  driver_text :: "string \<Rightarrow> string"
  json_error_text :: "string \<Rightarrow> string"

section \<open>Request bodies\<close>

definition wallet_fields :: "(string \<times> wallet_body decoder) list" where
  "wallet_fields =
     [(''playerId'', text_field wb_PlayerID_update),
      (''initialBalance'', decode_struct
         [(''amount'', text_field wb_Amount_update), (''currency'', text_field wb_Currency_update)])]"

definition decode_wallet_body :: "string \<Rightarrow> wallet_body option" where
  "decode_wallet_body raw =
     (case json_text raw of
        None \<Rightarrow> None
      | Some v \<Rightarrow> decode_struct wallet_fields v \<lparr>wb_PlayerID = '''', wb_Amount = '''', wb_Currency = ''''\<rparr>)"

definition wager_fields :: "(string \<times> wager_body decoder) list" where
  "wager_fields =
     [(''providerId'', text_field gb_ProviderID_update),
      (''externalTransactionId'', text_field gb_ExternalTransactionID_update),
      (''playerId'', text_field gb_PlayerID_update),
      (''walletId'', text_field gb_WalletID_update),
      (''roundId'', text_field gb_RoundID_update),
      (''gameId'', text_field gb_GameID_update),
      (''kind'', text_field gb_Kind_update),
      (''money'', decode_struct
         [(''amount'', text_field gb_Amount_update), (''currency'', text_field gb_Currency_update)]),
      (''referenceExternalTransactionId'', text_field gb_ReferenceExternalID_update)]"

definition empty_wager_body :: wager_body where
  "empty_wager_body =
     \<lparr>gb_ProviderID = '''', gb_ExternalTransactionID = '''', gb_PlayerID = '''', gb_WalletID = '''', gb_RoundID = '''',
      gb_GameID = '''', gb_Kind = '''', gb_Amount = '''', gb_Currency = '''', gb_ReferenceExternalID = ''''\<rparr>"

definition decode_wager_body :: "string \<Rightarrow> goerror option \<Rightarrow> wager_body option" where
  "decode_wager_body raw err =
     (case json_first raw err of None \<Rightarrow> None | Some v \<Rightarrow> decode_struct wager_fields v empty_wager_body)"

section \<open>Answers\<close>

definition respondWithError :: "int \<Rightarrow> string \<Rightarrow> http_response" where
  "respondWithError statusCode message = json_response statusCode (json_map [(''error'', JString message)])"

definition money_json :: "money_dto \<Rightarrow> json_value" where
  "money_json m = JObject [(''amount'', JString (dto_Amount m)), (''currency'', JString (dto_Currency m))]"

definition wallet_json :: "open_wallet_output \<Rightarrow> json_value" where
  "wallet_json w = JObject
     [(''id'', JString (owo_ID w)), (''playerId'', JString (owo_PlayerID w)),
      (''balance'', money_json (owo_Balance w)), (''version'', JInt (sint (owo_Version w)))]"

definition transaction_json :: "output_dto \<Rightarrow> json_value" where
  "transaction_json out = JObject
     [(''transactionId'', JString (out_TransactionID out)), (''status'', JString (out_Status out)),
      (''balance'', money_json (out_Balance out)), (''idempotentReplay'', JBool (out_IdempotentReplay out))]"

definition reconciliation_json :: "reconciliation_output \<Rightarrow> json_value" where
  "reconciliation_json out = JObject
     [(''walletId'', JString (ro_WalletID out)), (''storedBalance'', money_json (ro_StoredBalance out)),
      (''calculatedBalance'', money_json (ro_CalculatedBalance out)), (''difference'', money_json (ro_Difference out)),
      (''consistent'', JBool (ro_Consistent out)), (''checkedEntries'', JInt (sint (ro_CheckedEntries out)))]"

definition handleLiveness :: http_response where
  "handleLiveness =
     \<lparr>status_code = 200, response_headers = [(''Content-Type'', ''application/json'')],
      response_body = show_json (JObject [(''status'', JString ''UP'')])\<rparr>"

text \<open>The argument is the answer of \<open>pool.Ping\<close>, or \<open>None\<close> when the handler has no pool.\<close>

definition handleReadiness :: "bool option \<Rightarrow> http_response" where
  "handleReadiness ping =
     (if ping = Some False then respondWithError 503 ''database not ready''
      else \<lparr>status_code = 200, response_headers = [(''Content-Type'', ''application/json'')],
            response_body = show_json (JObject [(''status'', JString ''READY'')])\<rparr>)"

definition metric_lines :: "string \<Rightarrow> string \<Rightarrow> int64 \<Rightarrow> string" where
  "metric_lines name help_text v =
     ''# HELP '' @ name @ '' '' @ help_text @ [CHR 0x0A] @ ''# TYPE '' @ name @ '' counter'' @ [CHR 0x0A]
     @ name @ '' '' @ show_int (sint v) @ [CHR 0x0A]"

definition handleMetrics :: "metrics \<Rightarrow> http_response" where
  "handleMetrics c =
     \<lparr>status_code = 200, response_headers = [(''Content-Type'', ''text/plain; version=0.0.4'')],
      response_body =
        metric_lines ''wagers_processed_total'' ''Total wager transactions processed'' (MetricsWagersProcessed c)
        @ metric_lines ''sqs_errors_total'' ''Total SQS processing errors'' (MetricsSQSErrors c)
        @ metric_lines ''outbox_published_total'' ''Total outbox events published'' (MetricsOutboxPublished c)
        @ metric_lines ''outbox_errors_total'' ''Total outbox publish errors'' (MetricsOutboxErrors c)\<rparr>"

section \<open>The handlers\<close>

definition handleCreateWallet ::
  "runtime \<Rightarrow> config \<Rightarrow> http_lib \<Rightarrow> txenv \<Rightarrow> http_request \<Rightarrow> database \<Rightarrow> http_response \<times> database" where
  "handleCreateWallet R cfg H X r d =
     (case req_body_error r of
        Some err \<Rightarrow> (respondWithError 400 (''read body: '' @ error_text (driver_text H) err), d)
      | None \<Rightarrow>
          (case decode_wallet_body (req_body r) of
             None \<Rightarrow> (respondWithError 400 (''decode body: '' @ json_error_text H (req_body r)), d)
           | Some body \<Rightarrow>
               (case OpenWallet_Execute R cfg X
                   \<lparr>ow_PlayerID = wb_PlayerID body, ow_InitialAmount = wb_Amount body,
                    ow_InitialCurrency = wb_Currency body\<rparr> d of
                  (Inl err, d') \<Rightarrow> (respondWithError 500 (error_text (driver_text H) err), d')
                | (Inr output, d') \<Rightarrow> (json_response 201 (wallet_json output), d'))))"

definition wallet_not_found :: "goerror \<Rightarrow> bool" where
  "wallet_not_found err \<longleftrightarrow> errors_is err RepoErrWalletNotFound \<or> errors_is err ErrWalletNotFound"

definition handleGetWallet ::
  "runtime \<Rightarrow> http_lib \<Rightarrow> pgx_pool \<Rightarrow> txenv \<Rightarrow> string \<Rightarrow> database \<Rightarrow> http_response" where
  "handleGetWallet R H pool X walletId d =
     (if trim_space walletId = '''' then respondWithError 400 ''Wallet ID is required''
      else case FindByID R pool X 0 walletId d of
        Inl err \<Rightarrow>
          if wallet_not_found err then respondWithError 404 ''Wallet not found''
          else respondWithError 500 (error_text (driver_text H) err)
      | Inr wallet \<Rightarrow> json_response 200 (json_map
          [(''id'', JString (wid wallet)),
           (''playerId'', JString (playerID wallet)),
           (''balance'', json_map
              [(''amount'', JString (money_string (balance wallet))),
               (''currency'', JString (currency (balance wallet)))]),
           (''version'', JInt (sint (version wallet)))]))"

definition wager_input :: "wager_body \<Rightarrow> string \<Rightarrow> input_dto" where
  "wager_input body idempotency =
     \<lparr>in_ProviderID = gb_ProviderID body, in_ExternalTransactionID = gb_ExternalTransactionID body,
      in_IdempotencyKey = idempotency, in_PlayerID = gb_PlayerID body, in_WalletID = gb_WalletID body,
      in_RoundID = gb_RoundID body, in_GameID = gb_GameID body, in_Kind = gb_Kind body,
      in_Amount = gb_Amount body, in_Currency = gb_Currency body,
      in_ReferenceExternalID = gb_ReferenceExternalID body\<rparr>"

definition process_error_response :: "http_lib \<Rightarrow> goerror \<Rightarrow> http_response" where
  "process_error_response H err =
     (if errors_is err ErrTransactionConflict then respondWithError 409 ''Transaction already processed''
      else if errors_is err ErrIncompatibleCurrency \<or> errors_is err ErrInvalidMoneyFormat
      then respondWithError 400 (error_text (driver_text H) err)
      else respondWithError 500 (error_text (driver_text H) err))"

definition handleProcessTransaction ::
  "runtime \<Rightarrow> config \<Rightarrow> http_lib \<Rightarrow> txenv \<Rightarrow> string option \<Rightarrow> http_request \<Rightarrow> metrics \<Rightarrow> database
   \<Rightarrow> http_response \<times> metrics \<times> database" where
  "handleProcessTransaction R cfg H X ctxProvider r c d =
     (if trim_space (req_idempotency_key r) = '''' then (respondWithError 400 ''Idempotency-Key is required'', c, d)
      else case decode_wager_body (req_body r) (req_body_error r) of
        None \<Rightarrow> (respondWithError 400 ''Invalid request body'', c, d)
      | Some body \<Rightarrow>
          (case ctxProvider of
             None \<Rightarrow> (respondWithError 500 ''Provider ID not found in context'', c, d)
           | Some ctxProviderID \<Rightarrow>
               if gb_ProviderID body \<noteq> ctxProviderID
               then (respondWithError 403 ''Access denied: Provider ID mismatch'', c, d)
               else (case ProcessTransaction R cfg X (wager_input body (req_idempotency_key r)) d of
                 (Inl err, d') \<Rightarrow> (process_error_response H err, c, d')
               | (Inr output, d') \<Rightarrow>
                   (let resp = json_response 200 (transaction_json output) in
                    (if out_IdempotentReplay output
                     then resp\<lparr>response_headers := response_headers resp @ [(''X-Cache-Lookup'', ''HIT - Idempotent Replay'')]\<rparr>
                     else resp),
                    c\<lparr>MetricsWagersProcessed := MetricsWagersProcessed c + 1\<rparr>, d'))))"

definition handleReconciliation ::
  "runtime \<Rightarrow> http_lib \<Rightarrow> pgx_pool option \<Rightarrow> txenv \<Rightarrow> string \<Rightarrow> database \<Rightarrow> database \<Rightarrow> http_response" where
  "handleReconciliation R H repo X walletId d1 d2 =
     (if trim_space walletId = '''' then respondWithError 400 ''Wallet ID is required''
      else case Reconciliation_Execute R repo X walletId d1 d2 of
        Inl err \<Rightarrow>
          if wallet_not_found err then respondWithError 404 ''Wallet not found''
          else respondWithError 500 (error_text (driver_text H) err)
      | Inr output \<Rightarrow> json_response 200 (reconciliation_json output))"

section \<open>ServeHTTP\<close>

datatype endpoint =
    CreateWallet | GetWallet string | ProcessWager | Reconcile string
  | Liveness | Readiness | MetricsPage | NoRoute

definition route :: "string \<Rightarrow> string \<Rightarrow> endpoint" where
  "route method path =
     (let get = (method = ''GET'' \<or> method = ''HEAD''); post = (method = ''POST'');
          segs = split_on (CHR ''/'') path
      in if post \<and> segs = ['''', ''wallets''] then CreateWallet
         else if post \<and> segs = ['''', ''wagering'', ''transactions''] then ProcessWager
         else if get \<and> segs = ['''', ''health'', ''live''] then Liveness
         else if get \<and> segs = ['''', ''health'', ''ready''] then Readiness
         else if get \<and> segs = ['''', ''metrics''] then MetricsPage
         else case segs of
           [root, w, i] \<Rightarrow> if get \<and> root = '''' \<and> w = ''wallets'' \<and> i \<noteq> '''' then GetWallet i else NoRoute
         | [root, w, i, op] \<Rightarrow>
             if post \<and> root = '''' \<and> w = ''wallets'' \<and> i \<noteq> '''' \<and> op = ''reconciliation'' then Reconcile i else NoRoute
         | _ \<Rightarrow> NoRoute)"

record server =
  server_auth :: auth
  server_metrics :: metrics
  server_db :: database

text \<open>
  One request. The reads of a reconciliation see the database \<open>d1\<close> and the database of the server; \<open>None\<close> stands for an
  answer of the mux.
\<close>

definition ServeHTTP ::
  "runtime \<Rightarrow> config \<Rightarrow> http_lib \<Rightarrow> jwt_lib \<Rightarrow> ((string \<times> rsa_public_key) list \<Rightarrow> rsa_public_key) \<Rightarrow> jwks_reply
   \<Rightarrow> bool option \<Rightarrow> txenv \<Rightarrow> http_request \<Rightarrow> database \<Rightarrow> server \<Rightarrow> http_response option \<times> server" where
  "ServeHTTP R cfg H J first_of fetch ping X r d1 s =
     (case Authenticate R cfg J first_of fetch (clock X 0) (req_path r) (req_authorization r) (server_auth s) of
        (Answer resp, m') \<Rightarrow> (Some resp, s\<lparr>server_auth := m'\<rparr>)
      | (PassOn provider, m') \<Rightarrow>
          (let s' = s\<lparr>server_auth := m'\<rparr> in
           case route (req_method r) (req_path r) of
             CreateWallet \<Rightarrow>
               (let (resp, d') = handleCreateWallet R cfg H X r (server_db s) in (Some resp, s'\<lparr>server_db := d'\<rparr>))
           | GetWallet i \<Rightarrow> (Some (handleGetWallet R H live_tx X i (server_db s)), s')
           | ProcessWager \<Rightarrow>
               (let (resp, c', d') = handleProcessTransaction R cfg H X provider r (server_metrics s) (server_db s)
                in (Some resp, s'\<lparr>server_metrics := c', server_db := d'\<rparr>))
           | Reconcile i \<Rightarrow> (Some (handleReconciliation R H (Some live_tx) X i d1 (server_db s)), s')
           | Liveness \<Rightarrow> (Some handleLiveness, s')
           | Readiness \<Rightarrow> (Some (handleReadiness ping), s')
           | MetricsPage \<Rightarrow> (Some (handleMetrics (server_metrics s)), s')
           | NoRoute \<Rightarrow> (None, s')))"

section \<open>Who may change the ledger\<close>

text \<open>The three paths that need no token do not reach a handler that writes.\<close>

lemma open_paths_read_only:
  assumes "path \<in> {''/health/live'', ''/health/ready'', ''/metrics''}"
  shows "route method path \<in> {Liveness, Readiness, MetricsPage, NoRoute}"
proof -
  have "split_on (CHR ''/'') ''/health/live'' = ['''', ''health'', ''live'']"
    "split_on (CHR ''/'') ''/health/ready'' = ['''', ''health'', ''ready'']"
    "split_on (CHR ''/'') ''/metrics'' = ['''', ''metrics'']" by simp_all
  then show ?thesis using assms unfolding route_def by (elim insertE) (simp_all add: Let_def del: split_on.simps)
qed

lemma status_of_answer [simp]:
  "status_code (json_response code v) = code" "status_code (respondWithError code msg) = code"
  by (simp_all add: json_response_def respondWithError_def)

lemma process_without_provider:
  "handleProcessTransaction R cfg H X None r c d = (resp, c', d') \<Longrightarrow> c' = c \<and> d' = d \<and> status_code resp \<noteq> 200"
  by (auto simp: handleProcessTransaction_def split: if_splits option.splits)

lemma process_for_provider:
  assumes "handleProcessTransaction R cfg H X (Some provider) r c d = (resp, c', d')" "d' \<noteq> d"
  shows "\<exists>body res. decode_wager_body (req_body r) (req_body_error r) = Some body \<and> gb_ProviderID body = provider
     \<and> trim_space (req_idempotency_key r) \<noteq> ''''
     \<and> ProcessTransaction R cfg X (wager_input body (req_idempotency_key r)) d = (res, d')"
  using assms by (auto simp: handleProcessTransaction_def Let_def split: if_splits option.splits sum.splits prod.splits)

end
