(* ===== verification/Service_Machine.thy ===== *)
theory Service_Machine
  imports Idempotency Outbox_Worker Pending_Reference_Worker Sqs_Worker Http_Handler
begin

text \<open>
  The running service as a state machine on its database. A step is one database transaction of a use case or
  of the outbox worker, with any input, in any environment: every statement may fail, every commit may
  fail or lose its acknowledgement, every clock may show any time. The entry points (HTTP handlers, queue consumer,
  workers) make such steps and no others. The invariants of the components hold in every reachable state.
\<close>

section \<open>Steps\<close>

inductive service_step :: "runtime \<Rightarrow> config \<Rightarrow> database \<Rightarrow> database \<Rightarrow> bool"
  for R :: runtime and cfg :: config where
  wager_step: "ProcessTransactionWithInbox R cfg X input inbox d = (r, d') \<Longrightarrow> service_step R cfg d d'"
| resolve_step: "ResolvePendingReference R X i d = (r', d') \<Longrightarrow> service_step R cfg d d'"
| open_step: "OpenWallet_Execute R cfg X ow d = (r'', d') \<Longrightarrow> service_step R cfg d d'"
| outbox_step: "processPendingEvents R cfg refuses locked X io d = (io', d') \<Longrightarrow> service_step R cfg d d'"

inductive_cases service_stepE: "service_step R cfg d d'"

definition service_run :: "runtime \<Rightarrow> config \<Rightarrow> database \<Rightarrow> database \<Rightarrow> bool" where
  "service_run R cfg = (service_step R cfg)\<^sup>*\<^sup>*"

definition reachable :: "runtime \<Rightarrow> config \<Rightarrow> database \<Rightarrow> bool" where
  "reachable R cfg d \<longleftrightarrow> service_run R cfg empty_database d"

lemma run_refl: "service_run R cfg d d"
  by (simp add: service_run_def)

lemma run_step: "service_step R cfg d d' \<Longrightarrow> service_run R cfg d d'"
  by (simp add: service_run_def)

lemma run_trans: "service_run R cfg d d' \<Longrightarrow> service_run R cfg d' d'' \<Longrightarrow> service_run R cfg d d''"
  unfolding service_run_def by (rule rtranclp_trans)

lemma reachable_run: "reachable R cfg d \<Longrightarrow> service_run R cfg d d' \<Longrightarrow> reachable R cfg d'"
  unfolding reachable_def by (rule run_trans)

section \<open>What every step keeps\<close>

lemma step_ledger: "service_step R cfg d d' \<Longrightarrow> ledger_inv d \<Longrightarrow> ledger_inv d'"
  by (erule service_stepE)
    (auto intro: ProcessTransactionWithInbox_keeps ResolvePendingReference_keeps OpenWallet_keeps
      only_outbox_ledger processPendingEvents_frame)

lemma step_history: "service_step R cfg d d' \<Longrightarrow> history d d'"
  by (erule service_stepE)
    (auto intro: hist.process_respects hist.resolve_respects hist.open_respects only_outbox_history
      processPendingEvents_frame)

lemma appended_mem: "appended d d' \<Longrightarrow> t \<in> set (wager_transactions d) \<Longrightarrow> t \<in> set (wager_transactions d')"
  unfolding appended_def by (drule set_mono_prefix) (erule subsetD)

lemma step_final:
  assumes "service_step R cfg d d'" "ledger_inv d" "t \<in> set (wager_transactions d)" "t_status t \<noteq> StatusPendingReference"
  shows "t \<in> set (wager_transactions d')"
  using assms(1)
proof (rule service_stepE)
  fix X input inbox r assume "ProcessTransactionWithInbox R cfg X input inbox d = (r, d')"
  then have "appended d d'" by (rule app.process_respects)
  then show ?thesis using assms(3) by (rule appended_mem)
next
  fix X ow r assume "OpenWallet_Execute R cfg X ow d = (r, d')"
  then have "appended d d'" by (rule app.open_respects)
  then show ?thesis using assms(3) by (rule appended_mem)
next
  fix X i r assume run: "ResolvePendingReference R X i d = (r, d')"
  have "tx_tab.unique d" using assms(2) by (simp add: ledger_inv_def books_def keys_inv_def)
  then show ?thesis by (rule resolve_final [OF _ assms(3,4) run])
next
  fix refuses locked X io io' assume "processPendingEvents R cfg refuses locked X io d = (io', d')"
  then show ?thesis using assms(3) processPendingEvents_frame [of R cfg refuses locked X io d io' d'] by (simp add: only_outbox_def)
qed

lemma run_ledger: "service_run R cfg d d' \<Longrightarrow> ledger_inv d \<Longrightarrow> ledger_inv d'"
  unfolding service_run_def by (induction rule: rtranclp_induct) (auto dest: step_ledger)

lemma run_history: "service_run R cfg d d' \<Longrightarrow> history d d'"
  unfolding service_run_def
  by (induction rule: rtranclp_induct) (auto intro: hist.Q_refl hist.Q_trans step_history)

lemma run_final:
  assumes "service_run R cfg d d'" "ledger_inv d" "t \<in> set (wager_transactions d)" "t_status t \<noteq> StatusPendingReference"
  shows "t \<in> set (wager_transactions d')"
  using assms(1) unfolding service_run_def
proof (induction rule: rtranclp_induct)
  case base
  then show ?case using assms(3) by simp
next
  case (step d1 d2)
  have "ledger_inv d1" using run_ledger assms(2) step.hyps(1) unfolding service_run_def by blast
  then show ?case using step_final [OF step.hyps(2)] step.IH assms(4) by blast
qed

lemma reachable_ledger: "reachable R cfg d \<Longrightarrow> ledger_inv d"
  unfolding reachable_def using run_ledger ledger_inv_empty by blast

section \<open>The entry points make such steps\<close>

lemma handleCreateWallet_run:
  "handleCreateWallet R cfg H X r d = (resp, d') \<Longrightarrow> service_run R cfg d d'"
  by (auto simp: handleCreateWallet_def intro: run_refl run_step open_step split: option.splits sum.splits prod.splits)

lemma handleProcessTransaction_run:
  assumes "handleProcessTransaction R cfg H X p r c d = (resp, c', d')"
  shows "service_run R cfg d d'"
proof (cases "d' = d")
  case False
  then obtain provider where "p = Some provider" using assms process_without_provider by (cases p) auto
  then obtain body res where "ProcessTransaction R cfg X (wager_input body (req_idempotency_key r)) d = (res, d')"
    using process_for_provider assms False by blast
  then show ?thesis unfolding ProcessTransaction_def by (rule run_step [OF wager_step])
qed (simp add: run_refl)

lemma ServeHTTP_run:
  assumes "ServeHTTP R cfg H J first_of fetch ping X r d1 s = (resp, s')"
  shows "service_run R cfg (server_db s) (server_db s')"
  using assms
  by (auto simp: ServeHTTP_def Let_def run_refl
      intro: handleCreateWallet_run handleProcessTransaction_run
      split: prod.splits auth_decision.splits endpoint.splits)

lemma processSQSEnvelope_run:
  "processSQSEnvelope R cfg rd X m c d = (r, d') \<Longrightarrow> service_run R cfg d d'"
  using processSQSEnvelope_db [of R cfg rd X m c d r d'] run_refl run_step wager_step by blast

lemma processBatch_run: "service_run R cfg d (processBatch R pool X env d)"
proof (rule processBatch_keeps [where P = "service_run R cfg d"])
  fix X i d1 r d' assume "service_run R cfg d d1" "ResolvePendingReference R X i d1 = (r, d')"
  then show "service_run R cfg d d'" using run_trans run_step resolve_step by blast
qed (rule run_refl)

lemma processPendingEvents_run:
  "processPendingEvents R cfg refuses locked X io d = (io', d') \<Longrightarrow> service_run R cfg d d'"
  by (rule run_step) (rule outbox_step)

end
