(* ===== verification/Resolve_Effects.thy ===== *)
theory Resolve_Effects
  imports Wager_Effects
begin

text \<open>
  The effects of the other two transactions on the ledger: the resolution of a pending reference and the
  opening of a wallet; and the abstract view of the ledger, the balance of each account, on which
  every transaction is one addition.
\<close>

section \<open>Resolution\<close>

text \<open>The status of one transaction changes, and nothing else of it but the failure code and the two instants.\<close>

definition set_status :: "string \<Rightarrow> string \<Rightarrow> string option \<Rightarrow> int option \<Rightarrow> int \<Rightarrow> database \<Rightarrow> tx_row list" where
  "set_status i st code retry upd d =
     update_where (\<lambda>r. t_id r = i)
       (\<lambda>r. r\<lparr>t_status := st, t_failure_code := code, t_next_retry_at := retry, t_updated_at := upd\<rparr>)
       (wager_transactions d)"

text \<open>An \<open>UPDATE\<close> of the status writes the failure code that was read back.\<close>

definition kept_code :: "tx_row \<Rightarrow> string option" where
  "kept_code p = map_option (pg_trunc 50) (null_if_empty (empty_if_null (t_failure_code p)))"

text \<open>
  The specification of a resolution; \<open>c n\<close> is the reading number \<open>n\<close> of the clock in it. A transaction whose reference is
  still unknown is tried again five seconds after the first reading; a settled one has no retry.
\<close>

definition resolve_effect :: "runtime \<Rightarrow> (nat \<Rightarrow> int) \<Rightarrow> string \<Rightarrow> database \<Rightarrow> database \<Rightarrow> bool" where
  "resolve_effect R c i d d' \<longleftrightarrow>
     (case tx_by_id i d of
        None \<Rightarrow> d' = d
      | Some p \<Rightarrow>
          if t_status p \<noteq> StatusPendingReference then d' = d
          else case tx_by_external (t_provider_id p) (empty_if_null (t_reference_external_id p)) d of
            None \<Rightarrow>
              d' = d\<lparr>wager_transactions := set_status i StatusPendingReference (kept_code p)
                       (Some (store_time R (c 0 + 5000000000))) (store_time R (t_updated_at p)) d\<rparr>
          | Some ref \<Rightarrow>
              if t_status ref \<noteq> StatusProcessed then
                d' = d\<lparr>wager_transactions := set_status i StatusRejected (Some ''INVALID_REFERENCE'') None (store_time R (c 0)) d\<rparr>
              else
                (\<exists>q l e1 e2.
                   wallet_by_id (t_wallet_id p) d = Some q
                   \<and> in_int64 (sint (w_amount q) + sint (t_amount p))
                   \<and> entry_for l (scan_tx R p) q ''CREDIT'' (w_amount q + t_amount p)
                   \<and> announces e1 i ''WagerTransactionProcessed'' ''{}''
                   \<and> announces e2 (w_id q) ''WalletBalanceChanged''
                        (movement_payload R (scan_tx R p) q ''CREDIT'' (w_amount q + t_amount p))
                   \<and> d' = add_events [e1, e2]
                        (d\<lparr>wager_transactions := set_status i StatusProcessed (kept_code p) None (store_time R (c 1)) d,
                           wallets := set_balance q (w_amount q + t_amount p) (store_time R (c 0)) (wallets d),
                           wallet_ledger_entries := wallet_ledger_entries d @ [l]\<rparr>)))"

lemma set_status_member:
  assumes "r \<in> set (set_status i st code retry upd d)"
  obtains x where "x \<in> set (wager_transactions d)"
    "r = (if t_id x = i then x\<lparr>t_status := st, t_failure_code := code, t_next_retry_at := retry, t_updated_at := upd\<rparr> else x)"
  using assms unfolding set_status_def set_update_where by blast

lemma update_status_set:
  assumes "UpdateStatusWithRetryAt R live_tx t retry X s = (Inr u, s')"
  shows "db s' = (db s)\<lparr>wager_transactions :=
     set_status (txid t) (pg_trunc 30 (status t)) (map_option (pg_trunc 50) (null_if_empty (failureCode t)))
       (map_option (store_time R) retry) (store_time R (updatedAt t)) (db s)\<rparr>"
  using update_status_rows [OF UpdateStatus_ok [OF assms]] by (simp add: set_status_def)

lemma trunc_codes [simp]:
  "pg_trunc 50 ''INVALID_REFERENCE'' = ''INVALID_REFERENCE''"
  by (rule ascii_trunc) (simp_all add: is_ascii_def byte_val_def)

lemma scan_failure: "failureCode (scan_tx R p) = empty_if_null (t_failure_code p)" "updatedAt (scan_tx R p) = t_updated_at p"
  by (simp_all add: scan_tx_def RehydrateWagerTransaction_def)

lemma entry_for_frame: "txid p = txid p' \<Longrightarrow> wmoney p = wmoney p' \<Longrightarrow> entry_for l p q dir a = entry_for l p' q dir a"
  by (simp add: entry_for_def)

lemma movement_payload_frame:
  "txid p = txid p' \<Longrightarrow> wmoney p = wmoney p' \<Longrightarrow> movement_payload R p q dir a = movement_payload R p' q dir a"
  by (simp add: movement_payload_def)

lemma resolve_credit_effect:
  assumes ok: "resolve_credit R live_tx (scan_tx R p) X s = (Inr u, s')"
  shows "\<exists>q l e1 e2.
     wallet_by_id (t_wallet_id p) (db s) = Some q \<and> in_int64 (sint (w_amount q) + sint (t_amount p))
     \<and> entry_for l (scan_tx R p) q ''CREDIT'' (w_amount q + t_amount p)
     \<and> announces e1 (t_id p) ''WagerTransactionProcessed'' ''{}''
     \<and> announces e2 (w_id q) ''WalletBalanceChanged'' (movement_payload R (scan_tx R p) q ''CREDIT'' (w_amount q + t_amount p))
     \<and> db s' = add_events [e1, e2]
          ((db s)\<lparr>wager_transactions := set_status (t_id p) StatusProcessed (kept_code p) None
                      (store_time R (clock X (Suc (ticks s)))) (db s),
             wallets := set_balance q (w_amount q + t_amount p) (store_time R (clock X (ticks s))) (wallets (db s)),
             wallet_ledger_entries := wallet_ledger_entries (db s) @ [l]\<rparr>)"
  using ok
proof (rule resolve_credit_run)
  fix q w w' t s2 s3 s4 s5
  assume s2: "db s2 = db s" and q: "wallet_by_id (t_wallet_id p) (db s) = Some q" "wallet_of_row R q = Inr w"
    and cr: "Credit (clock X (ticks s)) (wmoney (scan_tx R p)) w = Inr w'"
    and tr: "TransitionToProcessed (clock X (Suc (ticks s))) (scan_tx R p) = Inr t"
    and us: "UpdateStatusWithRetryAt R live_tx t None X s2 = (Inr (), s3)"
    and mv: "move_funds R live_tx t w' ''CREDIT'' (w_version q) (w_amount q) X s3 = (Inr (), s4)"
    and e1: "saveOutboxEvent R live_tx (txid t) ''WagerTransactionProcessed'' (marshal_opaque_struct t) X s4 = (Inr (), s5)"
    and e2: "saveOutboxEvent R live_tx (wid w') ''WalletBalanceChanged''
         (balance_changed_payload R t w' ''CREDIT'' (w_amount q)) X s5 = (Inr u, s')"
  have t: "status t = StatusProcessed" "txid t = t_id p" "wmoney t = wmoney (scan_tx R p)"
    "failureCode t = empty_if_null (t_failure_code p)" "updatedAt t = clock X (Suc (ticks s))"
    using tr by (simp_all add: TransitionToProcessed_Inr scan_failure)
  note c = credit_row [OF q(2) cr]
  have d3: "db s3 = (db s)\<lparr>wager_transactions := set_status (t_id p) StatusProcessed (kept_code p) None
      (store_time R (clock X (Suc (ticks s)))) (db s)\<rparr>"
    using update_status_set [OF us] t s2 by (simp add: kept_code_def)
  obtain l where l: "entry_for l t q ''CREDIT'' (w_amount q + t_amount p)"
    "db s4 = (db s3)\<lparr>wallets := set_balance q (w_amount q + t_amount p) (store_time R (clock X (ticks s))) (wallets (db s3)),
       wallet_ledger_entries := wallet_ledger_entries (db s3) @ [l]\<rparr>"
    using move_funds_row [OF mv c(1,2)] c(3,6) by auto
  obtain x1 where x1: "announces x1 (t_id p) ''WagerTransactionProcessed'' ''{}''" "db s5 = add_events [x1] (db s4)"
    using event_added [OF e1] t(2) by (auto simp: marshal_opaque_struct_def)
  have pl: "balance_changed_payload R t w' ''CREDIT'' (w_amount q) = movement_payload R (scan_tx R p) q ''CREDIT'' (w_amount q + t_amount p)"
    using payload_of_movement [OF c(1,2,4)] movement_payload_frame [of t "scan_tx R p"] t(2,3) by simp
  obtain x2 where x2: "announces x2 (w_id q) ''WalletBalanceChanged''
      (movement_payload R (scan_tx R p) q ''CREDIT'' (w_amount q + t_amount p))" "db s' = add_events [x2] (db s5)"
    using event_added [OF e2] c(1) pl by auto
  have "db s' = add_events [x1, x2]
      ((db s)\<lparr>wager_transactions := set_status (t_id p) StatusProcessed (kept_code p) None
                  (store_time R (clock X (Suc (ticks s)))) (db s),
         wallets := set_balance q (w_amount q + t_amount p) (store_time R (clock X (ticks s))) (wallets (db s)),
         wallet_ledger_entries := wallet_ledger_entries (db s) @ [l]\<rparr>)"
    using d3 l(2) x1(2) x2(2) by (simp add: add_events_def)
  moreover have "entry_for l (scan_tx R p) q ''CREDIT'' (w_amount q + t_amount p)"
    using l(1) t(2,3) entry_for_frame [of t "scan_tx R p"] by simp
  moreover have "in_int64 (sint (w_amount q) + sint (t_amount p))" using c(5) by simp
  ultimately show ?thesis using q(1) x1(1) x2(1) by blast
qed

lemma resolve_body_effect:
  assumes ok: "resolve_body R i live_tx X s = (Inr u, s')"
  shows "resolve_effect R (\<lambda>n. clock X (ticks s + n)) i (db s) (db s')"
proof -
  have id: "t_id p = i" if "tx_by_id i (db s) = Some p" for p using find_key_row [OF that] by simp
  from ok show ?thesis
  proof (cases rule: resolve_body_cases)
    case settled
    then show ?thesis by (auto simp: resolve_effect_def split: option.splits)
  next
    case (waits p s3)
    from update_status_set [OF waits(4)] waits(5) show ?thesis
      using waits(1-3) id by (simp add: resolve_effect_def kept_code_def scan_failure)
  next
    case (rejects p ref t s3)
    have t: "status t = StatusRejected" "failureCode t = ''INVALID_REFERENCE''" "txid t = i" "updatedAt t = clock X (ticks s)"
      using rejects(5) id [OF rejects(1)] by (simp_all add: TransitionToRejected_Inr)
    then show ?thesis
      using update_status_set [OF rejects(6)] rejects(1-4,7) by (simp add: resolve_effect_def null_if_empty_def)
  next
    case (credits p ref s3)
    from resolve_credit_effect [OF credits(5)] show ?thesis
      using credits(1-4,6,7) id by (simp add: resolve_effect_def)
  qed
qed

lemma ResolvePendingReference_effect:
  "ResolvePendingReference R X i d = (Inr u, d') \<Longrightarrow> resolve_effect R (clock X) i d d'"
  using resolve_body_effect [of R i X "start_session d 0" u] by (auto simp: ResolvePendingReference_def Execute_Inr)

section \<open>Opening\<close>

definition open_effect :: "runtime \<Rightarrow> wallet \<Rightarrow> database \<Rightarrow> database \<Rightarrow> bool" where
  "open_effect R w d d' \<longleftrightarrow>
     (let row = stored_wallet (wallet_row_of R w); m = balance w in
      if amount m = 0 then d' = d\<lparr>wallets := wallets d @ [row]\<rparr>
      else \<exists>t l e1 e2.
        t_kind t = KindOpening \<and> t_status t = StatusProcessed \<and> t_failure_code t = None \<and> t_wallet_id t = w_id row \<and> t_amount t = amount m
        \<and> l_wallet_id l = w_id row \<and> l_transaction_id l = t_id t \<and> l_direction l = ''CREDIT'' \<and> l_amount l = amount m
        \<and> l_balance_before l = 0 \<and> l_balance_after l = amount m
        \<and> announces e1 (wid w) ''WALLET_OPENED'' ''{}'' \<and> announces e2 (wid w) ''WalletBalanceChanged'' (opening_payload w m)
        \<and> d' = add_events [e1, e2] (d\<lparr>wallets := wallets d @ [row], wager_transactions := wager_transactions d @ [t],
                  wallet_ledger_entries := wallet_ledger_entries d @ [l]\<rparr>))"

lemma saveOutbox_same: "saveOutbox = saveOutboxEvent"
  by (simp add: fun_eq_iff saveOutbox_def saveOutboxEvent_def)

lemma trunc_opened [simp]: "pg_trunc 100 ''WALLET_OPENED'' = ''WALLET_OPENED''"
  by (rule ascii_trunc) (simp_all add: is_ascii_def byte_val_def)

lemma open_body_effect:
  assumes ok: "open_body R w (balance w) live_tx X s = (Inr u, s')"
  shows "open_effect R w (db s) (db s')"
  using ok
proof (cases rule: open_body_run)
  case zero
  then show ?thesis by (simp add: open_effect_def insert_wallet_Inr IsZero_def)
next
  case (funded t now s1 s2 s3 s4)
  let ?m = "balance w" and ?row = "stored_wallet (wallet_row_of R w)"
  let ?t = "stored_tx (tx_row_of R t None)" and ?l = "ledger_row_of R now (opening_entry t w)"
  have d1: "db s1 = (db s)\<lparr>wallets := wallets (db s) @ [?row]\<rparr>" using funded(2) by (simp add: insert_wallet_Inr)
  have d2: "db s2 = add_tx R t None (db s1)" using add_tx_saved [OF funded(8)] by simp
  have d3: "db s3 = (db s2)\<lparr>wallet_ledger_entries := wallet_ledger_entries (db s2) @ [stored_ledger ?l]\<rparr>"
    using funded(9) by (simp add: insert_ledger_Inr)
  obtain e1 where e1: "announces e1 (wid w) ''WALLET_OPENED'' ''{}''" "db s4 = add_events [e1] (db s3)"
    using event_added [OF funded(10) [unfolded saveOutbox_same]] by (auto simp: marshal_opaque_struct_def)
  obtain e2 where e2: "announces e2 (wid w) ''WalletBalanceChanged'' (opening_payload w ?m)" "db s' = add_events [e2] (db s4)"
    using event_added [OF funded(11) [unfolded saveOutbox_same]] by auto
  have "db s' = add_events [e1, e2] ((db s)\<lparr>wallets := wallets (db s) @ [?row],
      wager_transactions := wager_transactions (db s) @ [?t],
      wallet_ledger_entries := wallet_ledger_entries (db s) @ [stored_ledger ?l]\<rparr>)"
    using d1 d2 d3 e1(2) e2(2) by (simp add: add_events_def add_tx_def)
  moreover have "t_kind ?t = KindOpening" "t_status ?t = StatusProcessed" "t_wallet_id ?t = w_id ?row" "t_amount ?t = amount ?m" "t_failure_code ?t = None"
    using funded(3-7) by (simp_all add: stored_tx_row wallet_row_of_def) (simp_all add: stored_tx_def tx_row_of_def null_if_empty_def)
  moreover have "l_wallet_id (stored_ledger ?l) = w_id ?row" "l_transaction_id (stored_ledger ?l) = t_id ?t"
    "l_direction (stored_ledger ?l) = ''CREDIT''" "l_amount (stored_ledger ?l) = amount ?m"
    "l_balance_before (stored_ledger ?l) = 0" "l_balance_after (stored_ledger ?l) = amount ?m"
    by (simp_all add: ledger_row_of_def wallet_row_of_def tx_row_of_def opening_entry_def)
  moreover have "amount ?m \<noteq> 0" using funded(1) by (simp add: IsZero_def)
  ultimately show ?thesis
    unfolding open_effect_def Let_def using e1(1) e2(1) by (simp only: if_False) blast
qed

lemma OpenWallet_effect:
  assumes "OpenWallet_Execute R cfg X input d = (Inr out, d')"
  shows "\<exists>w. open_effect R w d d' \<and> wid w = wallet_id_for R input \<and> playerID w = ow_PlayerID input \<and> version w = 1
     \<and> NewMoneyFromString R (ow_InitialAmount input) (ow_InitialCurrency input) = Inr (balance w)
     \<and> out = \<lparr>owo_ID = wid w, owo_PlayerID = playerID w,
              owo_Balance = \<lparr>dto_Amount = money_string (balance w), dto_Currency = currency (balance w)\<rparr>,
              owo_Version = version w\<rparr>"
proof -
  obtain m w s where m: "NewMoneyFromString R (ow_InitialAmount input) (ow_InitialCurrency input) = Inr m"
    and w: "NewWallet (clock X 0) (wallet_id_for R input) (ow_PlayerID input) m = Inr w"
    and b: "open_body R w m live_tx X (start_session d 1) = (Inr (), s)" "d' = db s"
    and out: "out = \<lparr>owo_ID = wid w, owo_PlayerID = playerID w,
              owo_Balance = \<lparr>dto_Amount = money_string (balance w), dto_Currency = currency (balance w)\<rparr>,
              owo_Version = version w\<rparr>"
    using assms by (auto simp: OpenWallet_Execute_def Execute_Inr split: sum.splits prod.splits if_splits)
  have f: "balance w = m" "wid w = wallet_id_for R input" "playerID w = ow_PlayerID input" "version w = 1"
    using w by (simp_all add: NewWallet_Inr)
  have "open_effect R w d d'"
    using open_body_effect [of R w X "start_session d 1"] b f(1) by simp
  then show ?thesis using m f out by blast
qed

section \<open>Accounts\<close>

text \<open>The abstract ledger: the balance of each account. On it a transaction is one addition.\<close>

definition accounts :: "database \<Rightarrow> string \<Rightarrow> int option" where
  "accounts d i = map_option (\<lambda>q. sint (w_amount q)) (wallet_by_id i d)"

definition account_delta :: "wager \<Rightarrow> int" where
  "account_delta p =
     (if status p \<noteq> StatusProcessed \<or> kind p = KindLoss then 0
      else if kind p = KindBet then - cents (wmoney p) else cents (wmoney p))"

lemma accounts_frame: "wallets d' = wallets d \<Longrightarrow> accounts d' = accounts d"
  by (simp add: accounts_def wallet_by_id_def fun_eq_iff)

lemma accounts_set_balance:
  assumes "wallet_by_id i d = Some q" "wallets d' = set_balance q amt upd (wallets d)"
  shows "accounts d' = (accounts d)(i \<mapsto> sint amt)"
proof
  fix j
  have q: "w_id q = i" using assms(1) by (auto simp: wallet_by_id_def dest: find_SomeD)
  have "wallet_by_id j d' = map_option (\<lambda>r. if w_id r = w_id q \<and> w_version r = w_version q
      then r\<lparr>w_amount := amt, w_version := w_version q + 1, w_updated_at := upd\<rparr> else r) (wallet_by_id j d)"
    by (simp add: wallet_by_id_def assms(2) set_balance_def find_update_where)
  then have new: "accounts d' j = map_option (\<lambda>r. if w_id r = w_id q \<and> w_version r = w_version q
      then sint amt else sint (w_amount r)) (wallet_by_id j d)"
    unfolding accounts_def by (cases "wallet_by_id j d") simp_all
  show "accounts d' j = ((accounts d)(i \<mapsto> sint amt)) j"
  proof (cases "j = i")
    case True
    then show ?thesis using new assms(1) by simp
  next
    case False
    show ?thesis
    proof (cases "wallet_by_id j d")
      case None
      then show ?thesis using False new by (simp add: accounts_def)
    next
      case (Some r)
      then have "w_id r = j" by (auto simp: wallet_by_id_def dest: find_SomeD)
      then show ?thesis using False q new Some by (simp add: accounts_def)
    qed
  qed
qed

lemma money_moved_accounts:
  assumes mv: "money_moved R p q dir amt d d'" and q: "wallet_by_id i d = Some q"
  shows "accounts d' = (accounts d)(i \<mapsto> sint amt)"
proof -
  obtain upd where "wallets d' = set_balance q amt upd (wallets d)"
    using mv by (auto simp: money_moved_def add_events_def add_tx_def)
  then show ?thesis by (rule accounts_set_balance [OF q])
qed

lemma stored_accounts:
  "only_stored R p retry ev d d' \<Longrightarrow> wallet_by_id i d = Some q \<Longrightarrow> accounts d' = (accounts d)(i \<mapsto> sint (w_amount q))"
  using only_stored_wallets [of R p retry ev d d'] accounts_frame [of d' d] by (auto simp: accounts_def fun_eq_iff)

lemma credited_accounts:
  assumes "money_moved R p q ''CREDIT'' (w_amount q + amount (wmoney t)) d d'" "processed t p" "wallet_by_id i d = Some q"
    and "in_int64 (sint (w_amount q) + sint (amount (wmoney t)))" "kind t \<notin> {KindBet, KindLoss}"
  shows "accounts d' = (accounts d)(i \<mapsto> sint (w_amount q) + account_delta p)"
  using money_moved_accounts [OF assms(1,3)] assms(2,4,5)
  by (auto simp: account_delta_def processed_def cents_def sint_add_int64)

lemma bet_accounts:
  assumes eff: "wager_effect R X t q d p d'" and q: "wallet_by_id i d = Some q" and bet: "kind t = KindBet" and pos: "0 \<le> cents (wmoney t)"
  shows "accounts d' = (accounts d)(i \<mapsto> sint (w_amount q) + account_delta p)"
proof (cases "sint (w_amount q) < sint (amount (wmoney t))")
  case True
  then show ?thesis using eff bet stored_accounts [OF _ q] by (auto simp: wager_effect_simps(1) account_delta_def)
next
  case False
  then have p: "processed t p" and mv: "money_moved R p q ''DEBIT'' (w_amount q - amount (wmoney t)) d d'"
    using eff bet by (simp_all add: wager_effect_simps(1))
  have "in_int64 (sint (w_amount q) - sint (amount (wmoney t)))"
    using False pos int64_range [of "w_amount q"] int64_range [of "amount (wmoney t)"] by (simp add: in_int64_def cents_def)
  then show ?thesis
    using money_moved_accounts [OF mv q] p bet by (auto simp: account_delta_def processed_def cents_def sint_diff_int64)
qed

lemma wager_effect_accounts:
  assumes eff: "wager_effect R X t q d p d'" and q: "wallet_by_id i d = Some q"
    and kind: "kind t \<in> {KindBet, KindWin, KindLoss, KindRefund, KindRollback}"
    and pos: "0 \<le> cents (wmoney t)"
  shows "accounts d' = (accounts d)(i \<mapsto> sint (w_amount q) + account_delta p)"
proof -
  consider "kind t = KindBet" | "kind t = KindWin" | "kind t = KindLoss" | "kind t = KindRefund \<or> kind t = KindRollback"
    using kind by blast
  then show ?thesis
  proof cases
    case 1
    then show ?thesis using bet_accounts [OF eff q] pos by blast
  next
    case 2
    then have "in_int64 (sint (w_amount q) + sint (amount (wmoney t)))" "processed t p"
      "money_moved R p q ''CREDIT'' (w_amount q + amount (wmoney t)) d d'" using eff by (simp_all add: wager_effect_simps(3))
    then show ?thesis by (intro credited_accounts [OF _ _ q]) (use 2 in \<open>auto simp: kind_defs\<close>)
  next
    case 3
    then have "processed t p" and "only_stored R p None ''WagerTransactionProcessed'' d d'"
      using eff by (simp_all add: wager_effect_simps(2))
    then show ?thesis using 3 stored_accounts [OF _ q] by (auto simp: processed_def account_delta_def)
  next
    case 4
    show ?thesis
    proof (cases "tx_by_external (providerID t) (referenceExternalID t) d")
      case None
      then show ?thesis using eff 4 stored_accounts [OF _ q] by (auto simp: wager_effect_simps(4) account_delta_def)
    next
      case (Some r)
      then have "in_int64 (sint (w_amount q) + sint (amount (wmoney t)))" "processed t p"
        "money_moved R p q ''CREDIT'' (w_amount q + amount (wmoney t)) d d'" using eff 4 by (simp_all add: wager_effect_simps(4))
      then show ?thesis by (intro credited_accounts [OF _ _ q]) (use 4 in auto)
    qed
  qed
qed

end
