(* ===== verification/Service_Guarantees.thy ===== *)
theory Service_Guarantees
  imports Service_Machine Resolve_Effects
begin

text \<open>
  What the components guarantee together: the account of a wallet as an abstract state on which a call of the use case
  is one addition, the one entry of every transaction that moves money, the provider in whose name a transaction is
  stored, and the token without which no request changes the database.
\<close>

section \<open>Every outcome of a call\<close>

text \<open>Whatever a call answers, the database is the old one or what a successful body has made of it.\<close>

lemma ProcessTransactionWithInbox_cases:
  assumes "ProcessTransactionWithInbox R cfg X input inbox d = (r, d')"
  obtains "d' = d"
  | t out d1 where "prepare_wager R cfg (clock X 0) input = Inr t" "claims_message inbox d d1" "call_effect R X input t out d1 d'"
proof (cases "prepare_wager R cfg (clock X 0) input")
  case (Inl e)
  then show ?thesis using assms that(1) by (simp add: ProcessTransactionWithInbox_def)
next
  case (Inr t)
  obtain r' where x: "ExecuteInTransaction X 1 (process_body R input inbox t) d = (r', d')"
    using assms Inr by (auto simp: ProcessTransactionWithInbox_def split: prod.splits sum.splits)
  from x show ?thesis
  proof (rule Execute_cases)
    fix oc s assume b: "process_body R input inbox t live_tx X (start_session d 1) = (Inr oc, s)" "d' = db s"
    then show ?thesis using process_body_effect [OF Inr b(1)] that(2) [OF Inr] by auto
  qed (rule that(1))
qed

text \<open>An error leaves the database alone, unless the acknowledgement of the commit was lost.\<close>

lemma ProcessTransactionWithInbox_Inl:
  assumes "ProcessTransactionWithInbox R cfg X input inbox d = (Inl e, d')" "\<forall>c. commit_outcome X \<noteq> CommitLost c"
  shows "d' = d"
  using assms Execute_Inl [of X 1 "process_body R input inbox t" d for t]
  by (auto simp: ProcessTransactionWithInbox_def split: prod.splits sum.splits)

lemma OpenWallet_Inl:
  assumes "OpenWallet_Execute R cfg X ow d = (Inl e, d')" "\<forall>c. commit_outcome X \<noteq> CommitLost c"
  shows "d' = d"
  using assms Execute_Inl [of X 1 "open_body R w m" d for w m]
  by (auto simp: OpenWallet_Execute_def split: prod.splits sum.splits if_splits)

lemma ResolvePendingReference_Inl:
  assumes "ResolvePendingReference R X i d = (Inl e, d')" "\<forall>c. commit_outcome X \<noteq> CommitLost c"
  shows "d' = d"
  using assms Execute_Inl [of X 0 "resolve_body R i" d] by (auto simp: ResolvePendingReference_def)

section \<open>Accounts\<close>

text \<open>
  The abstract operation: a call that has processed a new transaction adds its amount to the account of the wallet, with the
  sign of its kind; every other call leaves the accounts alone.
\<close>

definition account_step :: "input_dto \<Rightarrow> int \<Rightarrow> output_dto \<Rightarrow> (string \<Rightarrow> int option) \<Rightarrow> (string \<Rightarrow> int option)" where
  "account_step input c out acc =
     (if out_IdempotentReplay out \<or> out_Status out \<noteq> StatusProcessed \<or> in_Kind input = KindLoss then acc
      else acc(in_WalletID input :=
        map_option (\<lambda>b. if in_Kind input = KindBet then b - c else b + c) (acc (in_WalletID input))))"

lemma effect_kind: "wager_effect R X t q d p d' \<Longrightarrow> kind p = kind t \<and> wmoney p = wmoney t"
  by (auto simp: wager_effect_def processed_def Let_def split: option.splits if_splits)

lemma prepared_money:
  assumes "prepare_wager R cfg now input = Inr t"
  shows "NewMoneyFromString R (in_Amount input) (in_Currency input) = Inr (wmoney t)" "0 \<le> cents (wmoney t)"
    "kind t \<in> {KindBet, KindWin, KindLoss, KindRefund, KindRollback}"
  using assms
  by (auto simp: prepare_wager_Inr CalculateAndSetPayloadHash_def new_wager_def RehydrateWagerTransaction_def
      valid_wager_fields_def dest: NewMoneyFromString_Inr(1))

lemma claims_message_wallets: "claims_message inbox d d1 \<Longrightarrow> wallets d1 = wallets d"
  by (auto simp: claims_message_def insert_inbox_Inr split: option.splits)

lemma call_accounts:
  assumes call: "ProcessTransactionWithInbox R cfg X input inbox d = (Inr out, d')"
  obtains m where "NewMoneyFromString R (in_Amount input) (in_Currency input) = Inr m"
    "accounts d' = account_step input (cents m) out (accounts d)"
proof -
  obtain t d1 where t: "prepare_wager R cfg (clock X 0) input = Inr t" and cl: "claims_message inbox d d1"
    and ce: "call_effect R X input t out d1 d'"
    using ProcessTransactionWithInbox_effect [OF call] by blast
  note f = prepared_fields [OF t] and m = prepared_money [OF t]
  have d1: "accounts d1 = accounts d" using claims_message_wallets [OF cl] by (rule accounts_frame)
  have "accounts d' = account_step input (cents (wmoney t)) out (accounts d)"
  proof (cases "existing_for input d1")
    case (Some x)
    then show ?thesis using ce d1 by (auto simp: call_effect_def account_step_def)
  next
    case None
    then obtain q p where q: "wallet_by_id (in_WalletID input) d1 = Some q" and eff: "wager_effect R X t q d1 p d'"
      and out: "\<not> out_IdempotentReplay out" "out_Status out = status p"
      using ce by (auto simp: call_effect_def)
    have acc: "accounts d (in_WalletID input) = Some (sint (w_amount q))" using q by (simp add: accounts_def flip: d1)
    have "accounts d' = (accounts d)(in_WalletID input \<mapsto> sint (w_amount q) + account_delta p)"
      using wager_effect_accounts [OF eff q m(3,2)] d1 by simp
    then show ?thesis
      using acc out effect_kind [OF eff] f(4)
      by (auto simp: account_step_def account_delta_def fun_eq_iff)
  qed
  with m(1) show ?thesis by (rule that)
qed

section \<open>Transactions and their entries\<close>

lemma one_entry:
  assumes inv: "ledger_inv d" and t: "t \<in> set (wager_transactions d)" "moves_money t"
  shows "\<exists>!l. l \<in> set (wallet_ledger_entries d) \<and> l_transaction_id l = t_id t"
proof (rule ex_ex1I)
  show "\<exists>l. l \<in> set (wallet_ledger_entries d) \<and> l_transaction_id l = t_id t"
    using assms by (auto simp: ledger_inv_def books_def txs_inv_def)
next
  fix l l'
  assume l: "l \<in> set (wallet_ledger_entries d) \<and> l_transaction_id l = t_id t"
    and l': "l' \<in> set (wallet_ledger_entries d) \<and> l_transaction_id l' = t_id t"
  have u: "tx_tab.unique d" "movement_tab.unique d"
    using inv by (simp_all add: ledger_inv_def books_def keys_inv_def)
  have w: "l_wallet_id x = t_wallet_id t" if x: "x \<in> set (wallet_ledger_entries d)" "l_transaction_id x = t_id t" for x
  proof -
    have "entries_inv d" using inv by (simp add: ledger_inv_def books_def)
    then obtain t' where t': "t' \<in> set (wager_transactions d)" "records x t'"
      using x(1) unfolding entries_inv_def by blast
    have "l_transaction_id x = t_id t'" using t'(2) unfolding records_def by blast
    then have "t_id t = t_id t'" using x(2) by simp
    then have "t = t'" by (rule tx_tab.unique_eq [OF u(1) t(1) t'(1)])
    then show ?thesis using t'(2) unfolding records_def by blast
  qed
  have "ledger_key l = ledger_key l'" using l l' w [of l] w [of l'] by (simp add: ledger_key_def)
  with l l' show "l = l'" by (intro movement_tab.unique_eq [OF u(2)]) simp_all
qed

lemma entry_records:
  assumes "ledger_inv d" "l \<in> set (wallet_ledger_entries d)"
  obtains t where "t \<in> set (wager_transactions d)" "records l t" "0 < sint (l_amount l)" "0 \<le> sint (l_balance_after l)"
    "sint (l_balance_after l) = sint (l_balance_before l) + signed_amount l"
proof -
  have "entries_inv d" using assms(1) by (simp add: ledger_inv_def books_def)
  then obtain t where t: "t \<in> set (wager_transactions d)" "records l t" and l: "ledger_check l"
    using assms(2) unfolding entries_inv_def by blast
  have "0 < sint (l_amount l)" "0 \<le> sint (l_balance_after l)" using l by (auto simp: ledger_check_def)
  moreover have "sint (l_balance_after l) = sint (l_balance_before l) + signed_amount l"
    using ledger_check_signed [OF l] by simp
  ultimately show ?thesis using that t by blast
qed

section \<open>In whose name a transaction is stored\<close>

text \<open>What a call adds to the table of transactions: nothing, or one row, of its provider.\<close>

lemma stored_by_effect:
  assumes "wager_effect R X t q d p d'"
  shows "\<exists>retry p'. wager_transactions d' = wager_transactions d @ [stored_tx (tx_row_of R p' retry)]
     \<and> providerID p' = providerID t \<and> txid p' = txid t \<and> walletID p' = walletID t"
proof -
  have "\<exists>retry. wager_transactions d' = wager_transactions d @ [stored_tx (tx_row_of R p retry)]"
    using assms
    by (auto simp: wager_effect_def Let_def money_moved_def only_stored_def add_events_def add_tx_def
        split: option.splits if_splits)
  moreover have "providerID p = providerID t \<and> txid p = txid t \<and> walletID p = walletID t"
    using assms by (auto simp: wager_effect_def Let_def processed_def split: option.splits if_splits)
  ultimately show ?thesis by blast
qed

lemma claims_message_txs: "claims_message inbox d d1 \<Longrightarrow> wager_transactions d1 = wager_transactions d"
  by (auto simp: claims_message_def insert_inbox_Inr split: option.splits)

lemma call_adds:
  assumes "ProcessTransactionWithInbox R cfg X input inbox d = (r, d')"
  obtains "wager_transactions d' = wager_transactions d"
  | row where "wager_transactions d' = wager_transactions d @ [row]" "t_provider_id row = pg_trunc 64 (in_ProviderID input)"
    "t_id row = pg_trunc 64 (internal_tx_id input)" "t_wallet_id row = pg_trunc 64 (in_WalletID input)"
  using assms
proof (rule ProcessTransactionWithInbox_cases)
  fix t out d1
  assume t: "prepare_wager R cfg (clock X 0) input = Inr t" and cl: "claims_message inbox d d1"
    and ce: "call_effect R X input t out d1 d'"
  note f = prepared_fields [OF t] and d1 = claims_message_txs [OF cl]
  show ?thesis
  proof (cases "existing_for input d1")
    case (Some x)
    then show ?thesis using ce d1 that(1) by (simp add: call_effect_def)
  next
    case None
    then obtain q p where "wager_effect R X t q d1 p d'" using ce by (auto simp: call_effect_def)
    then obtain retry p' where row: "wager_transactions d' = wager_transactions d1 @ [stored_tx (tx_row_of R p' retry)]"
      and p': "providerID p' = providerID t" "txid p' = txid t" "walletID p' = walletID t"
      using stored_by_effect by blast
    show ?thesis
      by (rule that(2) [of "stored_tx (tx_row_of R p' retry)"])
        (use row p' f d1 in \<open>simp_all add: stored_tx_def tx_row_of_def\<close>)
  qed
qed (use that(1) in simp)

text \<open>
  The identity of a transaction is \<open>tx_<provider>_<external id>\<close>. Two pairs can give the same one; then the
  transaction of the second pair is refused whatever happens.
\<close>

lemma taken_id_refused:
  assumes inv: "ledger_inv d" and r: "r \<in> set (wager_transactions d)" "t_id r = pg_trunc 64 (internal_tx_id input)"
    and new: "existing_for input d = None"
    and run: "ProcessTransaction R cfg X input d = (res, d')"
  shows "d' = d \<and> (\<exists>e. res = Inl e)"
proof -
  have no: "\<not> call_effect R X input t out d d''"
    if t: "prepare_wager R cfg (clock X 0) input = Inr t" and inv': "ledger_inv d''" for t out d''
  proof
    assume "call_effect R X input t out d d''"
    then obtain q p where "wager_effect R X t q d p d''" using new by (auto simp: call_effect_def)
    then obtain retry p' where row: "wager_transactions d'' = wager_transactions d @ [stored_tx (tx_row_of R p' retry)]"
      and "txid p' = txid t" using stored_by_effect by blast
    then have "t_id (stored_tx (tx_row_of R p' retry)) = t_id r"
      using r(2) prepared_fields(1) [OF t] by (simp add: tx_row_of_def)
    moreover have "tx_tab.unique d''" using inv' by (simp add: ledger_inv_def books_def keys_inv_def)
    ultimately show False using r(1) row by (auto simp: tx_tab.unique_def simp del: stored_ids)
  qed
  have run': "ProcessTransactionWithInbox R cfg X input None d = (res, d')" using run by (simp add: ProcessTransaction_def)
  have inv': "ledger_inv d'" using run' inv ProcessTransactionWithInbox_keeps by blast
  from run' have "d' = d"
  proof (rule ProcessTransactionWithInbox_cases)
    fix t out d1 assume "prepare_wager R cfg (clock X 0) input = Inr t" "claims_message None d d1" "call_effect R X input t out d1 d'"
    then show ?thesis using no [OF _ inv', of t out] by (simp add: claims_message_def)
  qed
  moreover have "res \<noteq> Inr out" for out
  proof
    assume "res = Inr out"
    then obtain t d1 where "prepare_wager R cfg (clock X 0) input = Inr t" "claims_message None d d1" "call_effect R X input t out d1 d'"
      using ProcessTransactionWithInbox_effect run' by blast
    then show False using no [OF _ inv', of t out] by (simp add: claims_message_def)
  qed
  ultimately show ?thesis by (cases res) auto
qed

section \<open>Requests\<close>

lemma handleProcess_adds:
  assumes run: "handleProcessTransaction R cfg H X (Some provider) r c d = (resp, c', d')"
    and t: "t \<in> set (wager_transactions d')" "t \<notin> set (wager_transactions d)"
  shows "t_provider_id t = pg_trunc 64 provider"
proof -
  have "d' \<noteq> d" using t by auto
  then obtain body res where b: "gb_ProviderID body = provider"
    "ProcessTransactionWithInbox R cfg X (wager_input body (req_idempotency_key r)) None d = (res, d')"
    using process_for_provider [OF run] by (auto simp: ProcessTransaction_def)
  from b(2) show ?thesis
    by (rule call_adds) (use t b(1) in \<open>auto simp: wager_input_def\<close>)
qed

text \<open>The status codes of the two handlers that write tell what the use case answered.\<close>

lemma handleProcess_status:
  assumes "handleProcessTransaction R cfg H X p r c d = (resp, c', d')"
  shows "status_code resp \<in> {200, 400, 403, 409, 500}
     \<and> (status_code resp = 200 \<longleftrightarrow>
          (\<exists>body out. trim_space (req_idempotency_key r) \<noteq> '''' \<and> decode_wager_body (req_body r) (req_body_error r) = Some body
             \<and> p = Some (gb_ProviderID body)
             \<and> ProcessTransaction R cfg X (wager_input body (req_idempotency_key r)) d = (Inr out, d')))"
  using assms
  by (auto simp: handleProcessTransaction_def process_error_response_def Let_def
      split: if_splits sum.splits option.splits prod.splits)

lemma handleProcess_counts:
  assumes "handleProcessTransaction R cfg H X p r c d = (resp, c', d')"
  shows "c' = (if status_code resp = 200 then c\<lparr>MetricsWagersProcessed := MetricsWagersProcessed c + 1\<rparr> else c)"
  using assms
  by (auto simp: handleProcessTransaction_def process_error_response_def Let_def
      split: if_splits sum.splits option.splits prod.splits)

text \<open>No request changes the database without a token that the identity provider has signed.\<close>

lemma ServeHTTP_token:
  assumes run: "ServeHTTP R cfg H J first_of fetch ping X r d1 s = (resp, s')" and change: "server_db s' \<noteq> server_db s"
    and first: "\<And>xs. xs \<noteq> [] \<Longrightarrow> first_of xs \<in> snd ` set xs"
  shows "\<exists>scheme tokenStr provider. req_authorization r = scheme @ CHR '' '' # tokenStr
     \<and> to_lower R scheme = ''bearer'' \<and> authentic cfg J fetch (server_auth s) tokenStr provider
     \<and> route (req_method r) (req_path r) \<in> {CreateWallet, ProcessWager}"
proof -
  obtain decision m' where a: "Authenticate R cfg J first_of fetch (clock X 0) (req_path r) (req_authorization r) (server_auth s)
      = (decision, m')" by fastforce
  have rt: "route (req_method r) (req_path r) \<in> {CreateWallet, ProcessWager}"
    using run change a by (auto simp: ServeHTTP_def Let_def split: auth_decision.splits endpoint.splits prod.splits)
  from a first show ?thesis
  proof (rule Authenticate_cases)
    assume "req_path r \<in> {''/health/live'', ''/health/ready'', ''/metrics''}"
    from open_paths_read_only [OF this, of "req_method r"] show ?thesis using rt by auto
  next
    fix resp' assume "decision = Answer resp'"
    then show ?thesis using run change a by (auto simp: ServeHTTP_def)
  next
    fix scheme tokenStr provider
    assume "req_authorization r = scheme @ CHR '' '' # tokenStr" "to_lower R scheme = ''bearer''"
      "authentic cfg J fetch (server_auth s) tokenStr provider"
    with rt show ?thesis by metis
  qed
qed

section \<open>The two currency tests\<close>

lemma split_on_ascii: "is_ascii s \<Longrightarrow> p \<in> set (split_on c s) \<Longrightarrow> is_ascii p"
  by (induction s arbitrary: p) (auto simp: is_ascii_def split: list.splits if_splits)

text \<open>The codes of a configuration are in normal form, so the test that normalises them again and the one that does not agree.\<close>

lemma currency_tests:
  assumes "is_ascii (getEnv lookupEnv ''SUPPORTED_CURRENCIES'' ''BRL'')"
  shows "Config_IsCurrencySupported R (NewConfig R lookupEnv) cur
     \<longleftrightarrow> IsCurrencySupported R (NewZeroMoney R cur) (SupportedCurrencies (NewConfig R lookupEnv))"
proof -
  let ?cs = "SupportedCurrencies (NewConfig R lookupEnv)"
  have "to_upper R (trim_space c) = c" if "c \<in> set ?cs" for c
    using that split_on_ascii [OF assms] normalised_currency by (auto simp: NewConfig_def Let_def)
  then have "(\<lambda>c. to_upper R (trim_space c)) ` set ?cs = set ?cs" by auto
  then show ?thesis
    by (simp add: Config_IsCurrencySupported_def config_loop_iff IsCurrencySupported_iff NewZeroMoney_def)
qed

section \<open>Messages and events have distinct identities\<close>

definition ids_kept :: "database \<Rightarrow> database \<Rightarrow> bool" where
  "ids_kept d d' \<longleftrightarrow>
     (outbox_tab.unique d \<longrightarrow> outbox_tab.unique d') \<and> (inbox_tab.unique d \<longrightarrow> inbox_tab.unique d')"

interpretation ids: resolution_frame ids_kept
proof unfold_locales
  fix m d d' assume i: "insert_inbox m d = Inr d'"
  then show "ids_kept d d'"
    using inbox_tab.insert_unique [OF _ i] by (simp add: ids_kept_def insert_inbox_Inr outbox_tab.unique_def)
next
  fix e d d' assume i: "insert_outbox e d = Inr d'"
  then show "ids_kept d d'"
    using outbox_tab.insert_unique [OF _ i] by (simp add: ids_kept_def insert_outbox_Inr inbox_tab.unique_def)
qed (auto simp: ids_kept_def inr_dest outbox_tab.unique_def inbox_tab.unique_def
    dest!: update_wallet_rows update_status_rows)

lemma only_outbox_ids:
  assumes "only_outbox d d'"
  shows "ids_kept d d'"
proof -
  have "map fst (map event_identity (outbox_events d')) = map fst (map event_identity (outbox_events d))"
    using assms by (simp only: only_outbox_def)
  then have "map o_id (outbox_events d') = map o_id (outbox_events d)" by (simp add: event_identity_def comp_def)
  then show ?thesis using assms by (simp add: ids_kept_def outbox_tab.unique_def inbox_tab.unique_def only_outbox_def)
qed

lemma step_ids: "service_step R cfg d d' \<Longrightarrow> ids_kept d d'"
  by (erule service_stepE)
    (auto intro: ids.process_respects ids.resolve_respects ids.open_respects only_outbox_ids processPendingEvents_frame)

lemma reachable_ids:
  assumes "reachable R cfg d"
  shows "outbox_tab.unique d \<and> inbox_tab.unique d"
proof -
  have "ids_kept empty_database d"
    using assms unfolding reachable_def service_run_def
    by (induction rule: rtranclp_induct) (auto intro: ids.Q_refl ids.Q_trans step_ids)
  moreover have "outbox_tab.unique empty_database" "inbox_tab.unique empty_database"
    by (simp_all add: outbox_tab.unique_def inbox_tab.unique_def empty_database_def)
  ultimately show ?thesis by (simp add: ids_kept_def)
qed

end
