(* ===== verification/Worker_Loop.thy ===== *)
theory Worker_Loop
  imports Ledger_Errors
begin

text \<open>
  \<open>Start\<close> and \<open>Stop\<close>, which the three workers of \<open>internal/infrastructure/transport\<close> share line by line: \<open>Start\<close> runs in a goroutine of its own, \<open>Stop\<close> closes
  \<open>stopChan\<close> and waits for the \<open>WaitGroup\<close> or for its context. The model is a machine whose events are the points where another
  goroutine may run: the entry of \<open>Start\<close>, the cases of its \<open>select\<close>, the jobs of a tick one by one, and the steps of \<open>Stop\<close> and of the
  goroutine it leaves behind. What a tick reads and does is given by two functions, \<open>fetch\<close> and \<open>handle\<close>, on the state \<open>'s\<close> that the worker shares with the
  rest of the process. \<open>polling\<close> says that the \<open>select\<close> has a \<open>default\<close> case (the SQS worker), which is taken only when \<open>stopChan\<close> is open;
  without it the ticker may win even when \<open>stopChan\<close> is closed, since \<open>select\<close> takes any case that is ready. The choice of a tick and the
  reading of its work are one event: a receive that is waiting when the channel is closed counts as a tick before it.
\<close>

datatype 'job loop_at =
    NotStarted
  | Selecting
  | Handling "'job list"
  | Returned

datatype stop_at = NotStopped | Stopping | StopReturned "goerror option"

record 'job worker =
  loop_at :: "'job loop_at"
  stopChan_closed :: bool
  wait_group :: int
  waiter_done :: bool
  stop_at :: stop_at

definition new_worker :: "'job worker" where
  "new_worker = \<lparr>loop_at = NotStarted, stopChan_closed = False, wait_group = 0, waiter_done = False, stop_at = NotStopped\<rparr>"

datatype ('i, 'j) worker_event =
    EnterStart
  | TakeStop
  | TakeTick 'i
  | HandleJob 'j
  | EndTick
  | CallStop
  | WaitDone
  | StopDone
  | StopExpired goerror

text \<open>\<open>Blocked\<close>: the event cannot happen. \<open>Crashes\<close>: the goroutine panics, which ends the process.\<close>

datatype 's outcome = Blocked | Crashes goerror | Moves 's

section \<open>The loop\<close>

fun loop_step ::
  "bool \<Rightarrow> ('i \<Rightarrow> 's \<Rightarrow> 'job list \<times> 's) \<Rightarrow> ('j \<Rightarrow> 'job \<Rightarrow> 's \<Rightarrow> 's result) \<Rightarrow> ('i, 'j) worker_event
   \<Rightarrow> 'job worker \<times> 's \<Rightarrow> ('job worker \<times> 's) outcome" where
  "loop_step polling fetch handle EnterStart (w, s) =
     (if loop_at w = NotStarted then Moves (w\<lparr>loop_at := Selecting, wait_group := wait_group w + 1\<rparr>, s) else Blocked)"
| "loop_step polling fetch handle TakeStop (w, s) =
     (if loop_at w = Selecting \<and> stopChan_closed w
      then Moves (w\<lparr>loop_at := Returned, wait_group := wait_group w - 1\<rparr>, s) else Blocked)"
| "loop_step polling fetch handle (TakeTick i) (w, s) =
     (if loop_at w = Selecting \<and> \<not> (polling \<and> stopChan_closed w)
      then (let (jobs, s') = fetch i s in Moves (w\<lparr>loop_at := Handling jobs\<rparr>, s')) else Blocked)"
| "loop_step polling fetch handle (HandleJob j) (w, s) =
     (case loop_at w of
        Handling (job # jobs) \<Rightarrow>
          (case handle j job s of
             Inl err \<Rightarrow> Crashes err
           | Inr s' \<Rightarrow> Moves (w\<lparr>loop_at := Handling jobs\<rparr>, s'))
      | _ \<Rightarrow> Blocked)"
| "loop_step polling fetch handle EndTick (w, s) =
     (if loop_at w = Handling [] then Moves (w\<lparr>loop_at := Selecting\<rparr>, s) else Blocked)"
| "loop_step polling fetch handle e (w, s) = Blocked"

section \<open>Stop\<close>

text \<open>The goroutine that waits for the \<open>WaitGroup\<close> goes on when \<open>Stop\<close> has given up.\<close>

fun stop_step :: "('i, 'j) worker_event \<Rightarrow> 'job worker \<Rightarrow> 'job worker outcome" where
  "stop_step CallStop w =
     (if stopChan_closed w then Crashes (Panic ''close of closed channel'')
      else Moves (w\<lparr>stopChan_closed := True, stop_at := Stopping\<rparr>))"
| "stop_step WaitDone w =
     (if stopChan_closed w \<and> wait_group w = 0 \<and> \<not> waiter_done w then Moves (w\<lparr>waiter_done := True\<rparr>) else Blocked)"
| "stop_step StopDone w =
     (if stop_at w = Stopping \<and> waiter_done w then Moves (w\<lparr>stop_at := StopReturned None\<rparr>) else Blocked)"
| "stop_step (StopExpired err) w =
     (if stop_at w = Stopping then Moves (w\<lparr>stop_at := StopReturned (Some err)\<rparr>) else Blocked)"
| "stop_step e w = Blocked"

fun of_stop :: "('i, 'j) worker_event \<Rightarrow> bool" where
  "of_stop CallStop = True"
| "of_stop WaitDone = True"
| "of_stop StopDone = True"
| "of_stop (StopExpired err) = True"
| "of_stop e = False"

definition worker_step ::
  "bool \<Rightarrow> ('i \<Rightarrow> 's \<Rightarrow> 'job list \<times> 's) \<Rightarrow> ('j \<Rightarrow> 'job \<Rightarrow> 's \<Rightarrow> 's result) \<Rightarrow> ('i, 'j) worker_event
   \<Rightarrow> 'job worker \<times> 's \<Rightarrow> ('job worker \<times> 's) outcome" where
  "worker_step polling fetch handle e c =
     (if of_stop e
      then (case stop_step e (fst c) of
              Blocked \<Rightarrow> Blocked
            | Crashes err \<Rightarrow> Crashes err
            | Moves w \<Rightarrow> Moves (w, snd c))
      else loop_step polling fetch handle e c)"

text \<open>A run of a worker: its own events in order; between them the rest of the process may change the shared state.\<close>

inductive worker_run ::
  "bool \<Rightarrow> ('i \<Rightarrow> 's \<Rightarrow> 'job list \<times> 's) \<Rightarrow> ('j \<Rightarrow> 'job \<Rightarrow> 's \<Rightarrow> 's result) \<Rightarrow> 'job worker \<times> 's
   \<Rightarrow> ('i, 'j) worker_event list \<Rightarrow> 'job worker \<times> 's \<Rightarrow> bool"
  for polling fetch handle c where
  run_start: "worker_run polling fetch handle c [] c"
| run_own: "worker_run polling fetch handle c es c1 \<Longrightarrow> worker_step polling fetch handle e c1 = Moves c2
    \<Longrightarrow> worker_run polling fetch handle c (es @ [e]) c2"
| run_others: "worker_run polling fetch handle c es (w, s) \<Longrightarrow> worker_run polling fetch handle c es (w, s')"

text \<open>The same, executable, for a worker that is alone.\<close>

fun run_events ::
  "bool \<Rightarrow> ('i \<Rightarrow> 's \<Rightarrow> 'job list \<times> 's) \<Rightarrow> ('j \<Rightarrow> 'job \<Rightarrow> 's \<Rightarrow> 's result) \<Rightarrow> ('i, 'j) worker_event list
   \<Rightarrow> 'job worker \<times> 's \<Rightarrow> ('job worker \<times> 's) outcome" where
  "run_events polling fetch handle [] c = Moves c"
| "run_events polling fetch handle (e # es) c =
     (case worker_step polling fetch handle e c of
        Blocked \<Rightarrow> Blocked
      | Crashes err \<Rightarrow> Crashes err
      | Moves c' \<Rightarrow> run_events polling fetch handle es c')"

lemma run_events_from:
  "worker_run polling fetch handle c es c1 \<Longrightarrow> run_events polling fetch handle es' c1 = Moves c2
     \<Longrightarrow> worker_run polling fetch handle c (es @ es') c2"
proof (induction es' arbitrary: es c1)
  case (Cons e es')
  from Cons.prems(2) obtain c' where c': "worker_step polling fetch handle e c1 = Moves c'"
    "run_events polling fetch handle es' c' = Moves c2" by (auto split: outcome.splits)
  then show ?case using Cons.IH [OF run_own [OF Cons.prems(1) c'(1)]] by simp
qed simp

lemma run_events_run: "run_events polling fetch handle es c = Moves c' \<Longrightarrow> worker_run polling fetch handle c es c'"
  using run_events_from [OF run_start] by fastforce

section \<open>The WaitGroup\<close>

definition running :: "'job worker \<Rightarrow> bool" where
  "running w \<longleftrightarrow> loop_at w \<noteq> NotStarted \<and> loop_at w \<noteq> Returned"

definition control_inv :: "'job worker \<Rightarrow> bool" where
  "control_inv w \<longleftrightarrow>
     wait_group w = of_bool (running w)
     \<and> (stopChan_closed w \<longleftrightarrow> stop_at w \<noteq> NotStopped)
     \<and> (waiter_done w \<longrightarrow> stopChan_closed w)
     \<and> (stop_at w = StopReturned None \<longrightarrow> waiter_done w)"

lemma control_inv_new: "control_inv new_worker"
  by (simp add: control_inv_def new_worker_def running_def)

text \<open>What an event can do: one rule for each, from which the properties of the loop are read off.\<close>

lemma worker_step_cases [consumes 1, case_names enter stop tick job end_tick call wait stop_done expired]:
  assumes "worker_step polling fetch handle e (w, s) = Moves (w', s')"
  obtains "e = EnterStart" "loop_at w = NotStarted" "w' = w\<lparr>loop_at := Selecting, wait_group := wait_group w + 1\<rparr>" "s' = s"
  | "e = TakeStop" "loop_at w = Selecting" "stopChan_closed w" "w' = w\<lparr>loop_at := Returned, wait_group := wait_group w - 1\<rparr>" "s' = s"
  | i jobs where "e = TakeTick i" "loop_at w = Selecting" "\<not> (polling \<and> stopChan_closed w)" "fetch i s = (jobs, s')"
      "w' = w\<lparr>loop_at := Handling jobs\<rparr>"
  | j job jobs where "e = HandleJob j" "loop_at w = Handling (job # jobs)" "handle j job s = Inr s'" "w' = w\<lparr>loop_at := Handling jobs\<rparr>"
  | "e = EndTick" "loop_at w = Handling []" "w' = w\<lparr>loop_at := Selecting\<rparr>" "s' = s"
  | "e = CallStop" "\<not> stopChan_closed w" "w' = w\<lparr>stopChan_closed := True, stop_at := Stopping\<rparr>" "s' = s"
  | "e = WaitDone" "stopChan_closed w" "wait_group w = 0" "\<not> waiter_done w" "w' = w\<lparr>waiter_done := True\<rparr>" "s' = s"
  | "e = StopDone" "stop_at w = Stopping" "waiter_done w" "w' = w\<lparr>stop_at := StopReturned None\<rparr>" "s' = s"
  | err where "e = StopExpired err" "stop_at w = Stopping" "w' = w\<lparr>stop_at := StopReturned (Some err)\<rparr>" "s' = s"
  using assms
  by (cases e)
    (auto simp: worker_step_def split: if_splits prod.splits loop_at.splits list.splits sum.splits)

lemma control_inv_step:
  assumes "worker_step polling fetch handle e (w, s) = Moves (w', s')" "control_inv w"
  shows "control_inv w'"
  using assms by (cases rule: worker_step_cases) (auto simp: control_inv_def running_def)

text \<open>A loop that has returned never moves again.\<close>

lemma returned_step:
  assumes "worker_step polling fetch handle e (w, s) = Moves (w', s')" "loop_at w = Returned"
  shows "loop_at w' = Returned \<and> s' = s \<and> of_stop e"
  using assms by (cases rule: worker_step_cases) auto

lemma run_keeps:
  assumes "worker_run polling fetch handle (w0, s0) es (w, s)" "P w0"
    and "\<And>e w s w' s'. worker_step polling fetch handle e (w, s) = Moves (w', s') \<Longrightarrow> P w \<Longrightarrow> P w'"
  shows "P w"
  using assms(1)
proof (induction es "(w, s)" arbitrary: w s rule: worker_run.induct)
  case (run_own es c1 e)
  then show ?case using assms(3) by (cases c1) blast
qed (use assms(2) in auto)

lemma returned_run:
  assumes "worker_run polling fetch handle (w0, s0) es (w, s)" "loop_at w0 = Returned"
  shows "loop_at w = Returned \<and> list_all of_stop es"
  using assms(1)
proof (induction es "(w, s)" arbitrary: w s rule: worker_run.induct)
  case (run_own es c1 e)
  then show ?case using returned_step by (cases c1) fastforce
qed (use assms(2) in auto)

text \<open>When \<open>Stop\<close> is called after the loop was entered, the wait can end only when the loop has returned.\<close>

lemma stopping_run:
  assumes "worker_run polling fetch handle (w0, s0) es (w, s)"
    "control_inv w0" "loop_at w0 \<noteq> NotStarted" "waiter_done w0 \<Longrightarrow> loop_at w0 = Returned"
  shows "control_inv w \<and> loop_at w \<noteq> NotStarted \<and> (waiter_done w \<longrightarrow> loop_at w = Returned)"
proof (rule run_keeps [OF assms(1)])
  fix e w s w' s'
  assume st: "worker_step polling fetch handle e (w, s) = Moves (w', s')"
    and inv: "control_inv w \<and> loop_at w \<noteq> NotStarted \<and> (waiter_done w \<longrightarrow> loop_at w = Returned)"
  have "control_inv w'" using control_inv_step [OF st] inv by simp
  moreover from st inv have "loop_at w' \<noteq> NotStarted \<and> (waiter_done w' \<longrightarrow> loop_at w' = Returned)"
    by (cases rule: worker_step_cases) (auto simp: control_inv_def running_def)
  ultimately show "control_inv w' \<and> loop_at w' \<noteq> NotStarted \<and> (waiter_done w' \<longrightarrow> loop_at w' = Returned)" ..
qed (use assms in auto)

lemma stop_is_final:
  assumes "worker_run polling fetch handle (new_worker, s0) es1 (w1, s1)" "loop_at w1 \<noteq> NotStarted"
    "worker_step polling fetch handle CallStop (w1, s1) = Moves (w2, s2)"
    "worker_run polling fetch handle (w2, s2) es2 (w, s)" "stop_at w = StopReturned None"
  shows "loop_at w = Returned"
proof -
  have c: "control_inv w1" using assms(1) control_inv_new control_inv_step by (rule run_keeps)
  have w2: "w2 = w1\<lparr>stopChan_closed := True, stop_at := Stopping\<rparr>" "\<not> stopChan_closed w1"
    using assms(3) by (auto simp: worker_step_def split: if_splits)
  have "control_inv w2 \<and> \<not> waiter_done w2 \<and> loop_at w2 \<noteq> NotStarted"
    using c w2 assms(2) by (auto simp: control_inv_def running_def)
  then have "control_inv w \<and> (waiter_done w \<longrightarrow> loop_at w = Returned)"
    using stopping_run [OF assms(4)] by blast
  then show ?thesis using assms(5) by (simp add: control_inv_def)
qed

section \<open>A polling loop ends\<close>

text \<open>How many events a polling worker can still have once its channel is closed.\<close>

definition events_left :: "'job worker \<Rightarrow> nat" where
  "events_left w =
     (case loop_at w of NotStarted \<Rightarrow> 2 | Selecting \<Rightarrow> 1 | Handling jobs \<Rightarrow> length jobs + 2 | Returned \<Rightarrow> 0)
     + of_bool (\<not> waiter_done w) + of_bool (stop_at w = Stopping)"

lemma events_left_step:
  assumes "worker_step True fetch handle e (w, s) = Moves (w', s')" "stopChan_closed w"
  shows "stopChan_closed w' \<and> events_left w' < events_left w"
  using assms by (cases rule: worker_step_cases) (auto simp: events_left_def)

lemma events_left_run:
  assumes "worker_run True fetch handle (w0, s0) es (w, s)" "stopChan_closed w0"
  shows "stopChan_closed w \<and> length es + events_left w \<le> events_left w0"
  using assms(1)
proof (induction es "(w, s)" arbitrary: w s rule: worker_run.induct)
  case (run_own es c1 e)
  then obtain w1 s1 where c1: "c1 = (w1, s1)" "stopChan_closed w1 \<and> length es + events_left w1 \<le> events_left w0"
    by (cases c1) auto
  then show ?case using events_left_step run_own.hyps(3) by fastforce
qed (use assms(2) in auto)

lemma no_more_ticks:
  assumes "worker_run True fetch handle (w0, s0) es (w, s)" "stopChan_closed w0"
  shows "\<forall>i. TakeTick i \<notin> set es"
  using assms(1)
proof (induction es "(w, s)" arbitrary: w s rule: worker_run.induct)
  case (run_own es c1 e)
  then have "stopChan_closed (fst c1)" using events_left_run assms(2) by (cases c1) fastforce
  then show ?case using run_own by (cases c1) (auto simp: worker_step_def)
qed (use assms(2) in auto)

text \<open>It can always go on: as long as the loop has not returned, it or a job of it can move (a job may panic).\<close>

lemma loop_not_stuck:
  assumes "stopChan_closed w" "loop_at w \<noteq> Returned"
  shows "\<exists>e. \<not> of_stop e \<and> worker_step polling fetch handle e (w, s) \<noteq> Blocked"
proof (cases "loop_at w")
  case NotStarted
  then have "worker_step polling fetch handle EnterStart (w, s) \<noteq> Blocked" by (simp add: worker_step_def)
  then show ?thesis by (intro exI [of _ EnterStart]) simp
next
  case Selecting
  then have "worker_step polling fetch handle TakeStop (w, s) \<noteq> Blocked" using assms by (simp add: worker_step_def)
  then show ?thesis by (intro exI [of _ TakeStop]) simp
next
  case (Handling jobs)
  show ?thesis
  proof (cases jobs)
    case Nil
    then have "worker_step polling fetch handle EndTick (w, s) \<noteq> Blocked" using Handling by (simp add: worker_step_def)
    then show ?thesis by (intro exI [of _ EndTick]) simp
  next
    case (Cons job jobs')
    then have "worker_step polling fetch handle (HandleJob j) (w, s) \<noteq> Blocked" for j
      using Handling by (simp add: worker_step_def split: sum.split)
    then show ?thesis by (intro exI [of _ "HandleJob j" for j]) simp
  qed
qed (use assms in simp)

section \<open>Stop and a loop that has not started\<close>

text \<open>
  \<open>wg.Add(1)\<close> is the first statement of the goroutine and not of its creator. So \<open>Stop\<close> can find the group empty, return without an error, and the
  loop begins, and may tick, afterwards.
\<close>

lemma stop_before_start:
  "\<exists>w. worker_run False fetch handle (new_worker, s) [CallStop, WaitDone, StopDone, EnterStart, TakeTick i] (w, snd (fetch i s))
     \<and> stop_at w = StopReturned None \<and> loop_at w = Handling (fst (fetch i s))"
  by (intro exI [of _ "\<lparr>loop_at = Handling (fst (fetch i s)), stopChan_closed = True, wait_group = 1, waiter_done = True,
      stop_at = StopReturned None\<rparr>"] conjI run_events_run)
    (simp_all add: worker_step_def new_worker_def split_beta)

section \<open>A stop in time\<close>

text \<open>The first \<open>x\<close> comes before any \<open>y\<close>.\<close>

definition before :: "'e \<Rightarrow> 'e \<Rightarrow> 'e list \<Rightarrow> bool" where
  "before x y es \<longleftrightarrow> x \<in> set es \<and> y \<notin> set (takeWhile (\<lambda>e. e \<noteq> x) es)"

lemma before_snoc: "before x y (es @ [e]) \<longleftrightarrow> before x y es \<or> x \<notin> set es \<and> y \<notin> set es \<and> e = x"
proof (cases "x \<in> set es")
  case True
  then have "takeWhile (\<lambda>e. e \<noteq> x) (es @ [e]) = takeWhile (\<lambda>e. e \<noteq> x) es" by (auto simp: takeWhile_append)
  then show ?thesis using True by (simp add: before_def)
next
  case False
  then have "takeWhile (\<lambda>e. e \<noteq> x) (es @ [x]) = es" by (auto simp: takeWhile_append)
  then show ?thesis using False by (auto simp: before_def)
qed

lemma before_mem: "before x y es \<Longrightarrow> x \<in> set es"
  by (simp add: before_def)

text \<open>What the events of a run tell of the worker.\<close>

lemma events_tell:
  assumes "worker_run polling fetch handle (new_worker, s0) es (w, s)"
  shows "control_inv w \<and> (stopChan_closed w \<longleftrightarrow> CallStop \<in> set es) \<and> (loop_at w = NotStarted \<longleftrightarrow> EnterStart \<notin> set es)
     \<and> (before EnterStart CallStop es \<longrightarrow> waiter_done w \<longrightarrow> loop_at w = Returned) \<and> (StopDone \<in> set es \<longrightarrow> waiter_done w)"
  using assms
proof (induction es "(w, s)" arbitrary: w s rule: worker_run.induct)
  case run_start
  then show ?case using control_inv_new by (auto simp: new_worker_def before_def)
next
  case (run_own es c1 e)
  obtain w1 s1 where c1: "c1 = (w1, s1)" by (cases c1)
  have st: "worker_step polling fetch handle e (w1, s1) = Moves (w, s)" using run_own.hyps c1 by simp
  have ih: "control_inv w1" "stopChan_closed w1 \<longleftrightarrow> CallStop \<in> set es" "loop_at w1 = NotStarted \<longleftrightarrow> EnterStart \<notin> set es"
    "before EnterStart CallStop es \<longrightarrow> waiter_done w1 \<longrightarrow> loop_at w1 = Returned" "StopDone \<in> set es \<longrightarrow> waiter_done w1"
    using run_own.hyps(2) c1 by auto
  have "control_inv w" using st ih(1) by (rule control_inv_step)
  moreover from st ih(1-3,5) have "(stopChan_closed w \<longleftrightarrow> CallStop \<in> set (es @ [e])) \<and> (loop_at w = NotStarted \<longleftrightarrow> EnterStart \<notin> set (es @ [e]))
     \<and> (StopDone \<in> set (es @ [e]) \<longrightarrow> waiter_done w)"
    by (cases rule: worker_step_cases) auto
  moreover from st ih have "before EnterStart CallStop (es @ [e]) \<longrightarrow> waiter_done w \<longrightarrow> loop_at w = Returned"
    by (cases rule: worker_step_cases) (auto simp: before_snoc control_inv_def running_def dest: before_mem)
  ultimately show ?case by blast
qed auto

section \<open>What a worker does to the shared state\<close>

text \<open>The interface of a worker: if reading its work and handling one job respect a relation, so does every event of it.\<close>

locale worker_task =
  fixes fetch :: "'i \<Rightarrow> 's \<Rightarrow> 'job list \<times> 's"
    and handle :: "'j \<Rightarrow> 'job \<Rightarrow> 's \<Rightarrow> 's result"
    and Q :: "'s \<Rightarrow> 's \<Rightarrow> bool"
  assumes task_refl: "Q s s"
    and fetch_respects: "fetch i s = (jobs, s') \<Longrightarrow> Q s s'"
    and handle_respects: "handle j job s = Inr s' \<Longrightarrow> Q s s'"
begin

lemma event_respects: "worker_step polling fetch handle e (w, s) = Moves (w', s') \<Longrightarrow> Q s s'"
  by (cases rule: worker_step_cases) (auto intro: task_refl fetch_respects handle_respects)

end

end
