(* ===== verification/Service_System.thy ===== *)
theory Service_System
  imports Service_Guarantees Worker_Loop
begin

text \<open>
  The deployed system: any number of processes (\<open>cmd/api/main.go\<close>) on one database and one pair of queues. A process has its key cache and its
  counters, serves requests, and runs the three workers of \<open>internal/infrastructure/transport\<close>, each with its own \<open>Start\<close> and \<open>Stop\<close> (\<open>Worker_Loop\<close>).
  A step is a request, an event of a worker, the start of a process or its end at any moment; so the batches of the workers are interleaved with
  each other and with requests, database transaction by database transaction. What outlives a process is the \<open>world\<close>: the database, and the messages
  that were sent to and deleted from the queues.
\<close>

record world =
  world_db :: database
  world_sent :: "send_message_input list"
  world_deleted :: "string option list"

record memory =
  mem_auth :: auth
  mem_metrics :: metrics

section \<open>The workers\<close>

subsection \<open>Outbox worker\<close>

text \<open>A tick is one job. The event says which sends are refused, which rows are locked, and how the transaction fares.\<close>

definition outbox_tick_job :: "unit \<Rightarrow> world \<times> memory \<Rightarrow> unit list \<times> (world \<times> memory)" where
  "outbox_tick_job i s = ([()], s)"

definition outbox_job ::
  "runtime \<Rightarrow> config \<Rightarrow> (nat \<Rightarrow> send_message_input \<Rightarrow> bool) \<times> (string \<Rightarrow> bool) \<times> txenv \<Rightarrow> unit \<Rightarrow> world \<times> memory
   \<Rightarrow> (world \<times> memory) result" where
  "outbox_job R cfg j job s =
     (let (refuses, locked, X) = j; (wd, m) = s;
          io = \<lparr>send_calls = 0, messages_sent = world_sent wd, counters = mem_metrics m\<rparr>;
          (io', d') = processPendingEvents R cfg refuses locked X io (world_db wd)
      in Inr (wd\<lparr>world_db := d', world_sent := messages_sent io'\<rparr>, m\<lparr>mem_metrics := counters io'\<rparr>))"

definition OutboxWorker_step ::
  "runtime \<Rightarrow> config \<Rightarrow> (unit, (nat \<Rightarrow> send_message_input \<Rightarrow> bool) \<times> (string \<Rightarrow> bool) \<times> txenv) worker_event
   \<Rightarrow> unit worker \<times> world \<times> memory \<Rightarrow> (unit worker \<times> world \<times> memory) outcome" where
  "OutboxWorker_step R cfg = worker_step False outbox_tick_job (outbox_job R cfg)"

subsection \<open>Pending reference worker\<close>

definition pending_items :: "runtime \<Rightarrow> txenv \<Rightarrow> world \<times> memory \<Rightarrow> wager list \<times> (world \<times> memory)" where
  "pending_items R X s =
     (case FindPendingReferences R live_tx X 0 (clock X 0) 20 (world_db (fst s)) of
        Inl err \<Rightarrow> ([], s)
      | Inr items \<Rightarrow> (items, s))"

definition pending_job :: "runtime \<Rightarrow> txenv \<Rightarrow> wager \<Rightarrow> world \<times> memory \<Rightarrow> (world \<times> memory) result" where
  "pending_job R X item s =
     (let (r, d') = ResolvePendingReference R X (txid item) (world_db (fst s))
      in Inr ((fst s)\<lparr>world_db := d'\<rparr>, snd s))"

definition PendingReferenceWorker_step ::
  "runtime \<Rightarrow> (txenv, txenv) worker_event \<Rightarrow> wager worker \<times> world \<times> memory
   \<Rightarrow> (wager worker \<times> world \<times> memory) outcome" where
  "PendingReferenceWorker_step R = worker_step False (pending_items R) (pending_job R)"

subsection \<open>SQS worker\<close>

text \<open>The argument is the answer of \<open>ReceiveMessage\<close>. The pause of three seconds after an error only takes time.\<close>

definition received_messages :: "sqs_message list result \<Rightarrow> world \<times> memory \<Rightarrow> sqs_message list \<times> (world \<times> memory)" where
  "received_messages reply s =
     (let (wd, m) = s in
      case reply of
        Inl err \<Rightarrow> ([], (wd, m\<lparr>mem_metrics := (mem_metrics m)\<lparr>MetricsSQSErrors := MetricsSQSErrors (mem_metrics m) + 1\<rparr>\<rparr>))
      | Inr messages \<Rightarrow> (messages, s))"

definition message_job ::
  "runtime \<Rightarrow> config \<Rightarrow> (nat \<Rightarrow> bool) \<times> txenv \<Rightarrow> sqs_message \<Rightarrow> world \<times> memory \<Rightarrow> (world \<times> memory) result" where
  "message_job R cfg j message s =
     (let (refuses_delete, X) = j; (wd, m) = s;
          c = \<lparr>deletions = world_deleted wd, consumer_counters = mem_metrics m\<rparr> in
      case processSQSEnvelope R cfg refuses_delete X message c (world_db wd) of
        (Inl err, d') \<Rightarrow> Inl err
      | (Inr c', d') \<Rightarrow>
          Inr (wd\<lparr>world_db := d', world_deleted := deletions c'\<rparr>, m\<lparr>mem_metrics := consumer_counters c'\<rparr>))"

definition SQSWorker_step ::
  "runtime \<Rightarrow> config \<Rightarrow> (sqs_message list result, (nat \<Rightarrow> bool) \<times> txenv) worker_event
   \<Rightarrow> sqs_message worker \<times> world \<times> memory \<Rightarrow> (sqs_message worker \<times> world \<times> memory) outcome" where
  "SQSWorker_step R cfg = worker_step True received_messages (message_job R cfg)"

section \<open>Processes\<close>

record process =
  proc_memory :: memory
  outbox_worker :: "unit worker"
  pending_worker :: "wager worker"
  sqs_worker :: "sqs_message worker"

text \<open>
  \<open>database/postgres.go\<close>: the pool, and the hook that pings the database and migrates it. The arguments are the answers of
  \<open>pgxpool\<close> and \<open>golang-migrate\<close>. The hooks that are appended to the life cycle of the application are a list of their names.
\<close>

datatype hook = PoolHook | HTTPServerHook | SQSWorkerHook | OutboxWorkerHook | PendingReferenceWorkerHook

definition NewPostgresPool :: "goerror option \<Rightarrow> goerror option \<Rightarrow> hook list \<Rightarrow> hook list result" where
  "NewPostgresPool parse_error pool_error lc =
     (case parse_error of
        Some err \<Rightarrow> Inl (Wrapped ''failed to parse database connection string: '' err)
      | None \<Rightarrow>
          (case pool_error of
             Some err \<Rightarrow> Inl (Wrapped ''failed to create database pool: '' err)
           | None \<Rightarrow> Inr (lc @ [PoolHook])))"

datatype migration = MigrateOk | MigrateNoChange | MigrateFailed goerror

definition runMigrations :: "goerror option \<Rightarrow> migration \<Rightarrow> unit result" where
  "runMigrations new_error up =
     (case new_error of
        Some err \<Rightarrow> Inl (Wrapped ''failed to create migration instance: '' err)
      | None \<Rightarrow>
          (case up of
             MigrateFailed err \<Rightarrow> Inl (Wrapped ''failed to apply migrations: '' err)
           | _ \<Rightarrow> Inr ()))"

definition pool_OnStart :: "goerror option \<Rightarrow> goerror option \<Rightarrow> migration \<Rightarrow> unit result" where
  "pool_OnStart ping_error new_error up =
     (case ping_error of
        Some err \<Rightarrow> Inl (Wrapped ''failed to ping database: '' err)
      | None \<Rightarrow>
          (case runMigrations new_error up of
             Inl err \<Rightarrow> Inl (Wrapped ''failed to run migrations: '' err)
           | Inr _ \<Rightarrow> Inr ()))"

text \<open>\<open>NewSQSWorker\<close> and \<open>NewOutboxWorker\<close>: the argument is the error of \<open>LoadDefaultConfig\<close>, if any.\<close>

definition NewSQSWorker :: "goerror option \<Rightarrow> sqs_message worker result" where
  "NewSQSWorker aws_error =
     (case aws_error of
        Some err \<Rightarrow> Inl (Wrapped ''failed to load AWS config: '' err)
      | None \<Rightarrow> Inr new_worker)"

definition NewOutboxWorker :: "goerror option \<Rightarrow> unit worker result" where
  "NewOutboxWorker aws_error =
     (case aws_error of
        Some err \<Rightarrow> Inl (Wrapped ''failed to load AWS config: '' err)
      | None \<Rightarrow> Inr new_worker)"

text \<open>
  \<open>main\<close>: what it invokes appends the hook of the server and of each worker; what a function takes is constructed before it is invoked.
\<close>

definition StartHTTPServer :: "hook list \<Rightarrow> hook list" where
  "StartHTTPServer lifecycle = lifecycle @ [HTTPServerHook]"

definition StartSQSWorker :: "hook list \<Rightarrow> hook list" where
  "StartSQSWorker lifecycle = lifecycle @ [SQSWorkerHook]"

definition StartOutboxWorker :: "hook list \<Rightarrow> hook list" where
  "StartOutboxWorker lifecycle = lifecycle @ [OutboxWorkerHook]"

definition StartPendingReferenceWorker :: "hook list \<Rightarrow> hook list" where
  "StartPendingReferenceWorker lifecycle = lifecycle @ [PendingReferenceWorkerHook]"

record boot_env =
  boot_parse_error :: "goerror option"
  boot_pool_error :: "goerror option"
  boot_aws_error :: "goerror option"
  boot_ping_error :: "goerror option"
  boot_migrate_error :: "goerror option"
  boot_migration :: migration
  boot_fetch :: jwks_reply
  boot_time :: int

definition main_app :: "config \<Rightarrow> boot_env \<Rightarrow> (process \<times> hook list) result" where
  "main_app cfg B =
     (case NewPostgresPool (boot_parse_error B) (boot_pool_error B) [] of
        Inl err \<Rightarrow> Inl err
      | Inr lc0 \<Rightarrow>
     (let lc1 = StartHTTPServer lc0 in
      case NewSQSWorker (boot_aws_error B) of
        Inl err \<Rightarrow> Inl err
      | Inr sqs \<Rightarrow>
     (let lc2 = StartSQSWorker lc1 in
      case NewOutboxWorker (boot_aws_error B) of
        Inl err \<Rightarrow> Inl err
      | Inr outbox \<Rightarrow>
          Inr (\<lparr>proc_memory =
                  \<lparr>mem_auth = NewAuthMiddleware cfg (boot_fetch B) (boot_time B),
                   mem_metrics = \<lparr>MetricsWagersProcessed = 0, MetricsSQSErrors = 0, MetricsOutboxPublished = 0,
                     MetricsOutboxErrors = 0\<rparr>\<rparr>,
                outbox_worker = outbox, pending_worker = new_worker, sqs_worker = sqs\<rparr>,
               StartPendingReferenceWorker (StartOutboxWorker lc2)))))"

text \<open>
  A process that has started: its first hook has pinged the database and migrated it (the others cannot fail). It has its keys from the first fetch, or none,
  counters at zero, and three workers whose goroutines have not run yet. \<open>Process_Lifecycle\<close> looks at the hooks one by one.
\<close>

definition start_process :: "config \<Rightarrow> boot_env \<Rightarrow> process result" where
  "start_process cfg B =
     (case main_app cfg B of
        Inl err \<Rightarrow> Inl err
      | Inr (p, lc) \<Rightarrow>
          (case pool_OnStart (boot_ping_error B) (boot_migrate_error B) (boot_migration B) of
             Inl err \<Rightarrow> Inl err
           | Inr _ \<Rightarrow> Inr p))"

section \<open>The system\<close>

record system =
  sys_world :: world
  processes :: "process list"

definition empty_system :: system where
  "empty_system = \<lparr>sys_world = \<lparr>world_db = empty_database, world_sent = [], world_deleted = []\<rparr>, processes = []\<rparr>"

abbreviation system_db :: "system \<Rightarrow> database" where
  "system_db \<sigma> \<equiv> world_db (sys_world \<sigma>)"

definition process_server :: "system \<Rightarrow> process \<Rightarrow> server" where
  "process_server \<sigma> p = \<lparr>server_auth = mem_auth (proc_memory p), server_metrics = mem_metrics (proc_memory p), server_db = system_db \<sigma>\<rparr>"

definition after_request :: "system \<Rightarrow> nat \<Rightarrow> server \<Rightarrow> system" where
  "after_request \<sigma> i s =
     \<sigma>\<lparr>sys_world := (sys_world \<sigma>)\<lparr>world_db := server_db s\<rparr>,
       processes := (processes \<sigma>)[i := (processes \<sigma> ! i)\<lparr>proc_memory := \<lparr>mem_auth = server_auth s, mem_metrics = server_metrics s\<rparr>\<rparr>]\<rparr>"

definition after_event :: "system \<Rightarrow> nat \<Rightarrow> process \<Rightarrow> world \<times> memory \<Rightarrow> system" where
  "after_event \<sigma> i p s = \<sigma>\<lparr>sys_world := fst s, processes := (processes \<sigma>)[i := p\<lparr>proc_memory := snd s\<rparr>]\<rparr>"

inductive system_step :: "runtime \<Rightarrow> config \<Rightarrow> http_lib \<Rightarrow> jwt_lib \<Rightarrow> system \<Rightarrow> system \<Rightarrow> bool"
  for R :: runtime and cfg :: config and H :: http_lib and J :: jwt_lib where
  request: "i < length (processes \<sigma>)
    \<Longrightarrow> ServeHTTP R cfg H J first_of fetch ping X r d1 (process_server \<sigma> (processes \<sigma> ! i)) = (resp, s')
    \<Longrightarrow> system_step R cfg H J \<sigma> (after_request \<sigma> i s')"
| outbox_event: "i < length (processes \<sigma>) \<Longrightarrow> p = processes \<sigma> ! i
    \<Longrightarrow> OutboxWorker_step R cfg eo (outbox_worker p, sys_world \<sigma>, proc_memory p) = Moves (wo, s)
    \<Longrightarrow> system_step R cfg H J \<sigma> (after_event \<sigma> i (p\<lparr>outbox_worker := wo\<rparr>) s)"
| pending_event: "i < length (processes \<sigma>) \<Longrightarrow> p = processes \<sigma> ! i
    \<Longrightarrow> PendingReferenceWorker_step R ep (pending_worker p, sys_world \<sigma>, proc_memory p) = Moves (wp, s)
    \<Longrightarrow> system_step R cfg H J \<sigma> (after_event \<sigma> i (p\<lparr>pending_worker := wp\<rparr>) s)"
| sqs_event: "i < length (processes \<sigma>) \<Longrightarrow> p = processes \<sigma> ! i
    \<Longrightarrow> SQSWorker_step R cfg es (sqs_worker p, sys_world \<sigma>, proc_memory p) = Moves (ws, s)
    \<Longrightarrow> system_step R cfg H J \<sigma> (after_event \<sigma> i (p\<lparr>sqs_worker := ws\<rparr>) s)"
| process_starts: "start_process cfg B = Inr p \<Longrightarrow> system_step R cfg H J \<sigma> (\<sigma>\<lparr>processes := processes \<sigma> @ [p]\<rparr>)"
| process_ends: "system_step R cfg H J \<sigma> (\<sigma>\<lparr>processes := take i (processes \<sigma>) @ drop (Suc i) (processes \<sigma>)\<rparr>)"

inductive_cases system_stepE: "system_step R cfg H J \<sigma> \<sigma>'"

definition system_run :: "runtime \<Rightarrow> config \<Rightarrow> http_lib \<Rightarrow> jwt_lib \<Rightarrow> system \<Rightarrow> system \<Rightarrow> bool" where
  "system_run R cfg H J = (system_step R cfg H J)\<^sup>*\<^sup>*"

section \<open>Every interleaving is a run of the service\<close>

lemma outbox_job_db:
  "outbox_job R cfg (refuses, locked, X) job (wd, m) = Inr s' \<Longrightarrow>
     \<exists>io io'. processPendingEvents R cfg refuses locked X io (world_db wd) = (io', world_db (fst s'))
       \<and> messages_sent io = world_sent wd \<and> messages_sent io' = world_sent (fst s') \<and> world_deleted (fst s') = world_deleted wd"
  by (fastforce simp: outbox_job_def Let_def split: prod.splits)

lemma pending_job_db:
  "pending_job R X item s = Inr s' \<Longrightarrow>
     \<exists>r. ResolvePendingReference R X (txid item) (world_db (fst s)) = (r, world_db (fst s'))
       \<and> world_sent (fst s') = world_sent (fst s) \<and> world_deleted (fst s') = world_deleted (fst s)"
  by (auto simp: pending_job_def split: prod.splits)

lemma message_job_db:
  "message_job R cfg (rd, X) message (wd, m) = Inr s' \<Longrightarrow>
     \<exists>c c'. processSQSEnvelope R cfg rd X message c (world_db wd) = (Inr c', world_db (fst s'))
       \<and> deletions c = world_deleted wd \<and> deletions c' = world_deleted (fst s') \<and> world_sent (fst s') = world_sent wd"
  by (fastforce simp: message_job_def Let_def split: prod.splits sum.splits)

lemma fetches:
  "outbox_tick_job i s = (jobs1, s') \<Longrightarrow> fst s' = fst s"
  "pending_items R X s = (jobs2, s') \<Longrightarrow> fst s' = fst s"
  "received_messages reply s = (jobs3, s') \<Longrightarrow> fst s' = fst s"
  by (auto simp: outbox_tick_job_def pending_items_def received_messages_def split: sum.splits prod.splits)

definition served :: "runtime \<Rightarrow> config \<Rightarrow> world \<times> memory \<Rightarrow> world \<times> memory \<Rightarrow> bool" where
  "served R cfg s s' \<longleftrightarrow> service_run R cfg (world_db (fst s)) (world_db (fst s'))"

interpretation outbox_runs: worker_task outbox_tick_job "outbox_job R cfg" "served R cfg" for R cfg
proof unfold_locales
  fix j job s s' assume "outbox_job R cfg j job s = Inr s'"
  then show "served R cfg s s'"
    using outbox_job_db [of R cfg "fst j" "fst (snd j)" "snd (snd j)" job "fst s" "snd s" s'] processPendingEvents_run
    by (fastforce simp: served_def)
qed (auto simp: served_def run_refl dest: fetches)

interpretation pending_runs: worker_task "pending_items R" "pending_job R" "served R cfg" for R cfg
proof unfold_locales
  fix j job s s' assume "pending_job R j job s = Inr s'"
  then show "served R cfg s s'"
    using pending_job_db [of R j job s s'] run_step [OF resolve_step] by (fastforce simp: served_def)
qed (auto simp: served_def run_refl dest: fetches)

interpretation sqs_runs: worker_task received_messages "message_job R cfg" "served R cfg" for R cfg
proof unfold_locales
  fix j job s s' assume "message_job R cfg j job s = Inr s'"
  then show "served R cfg s s'"
    using message_job_db [of R cfg "fst j" "snd j" job "fst s" "snd s" s'] processSQSEnvelope_run by (fastforce simp: served_def)
qed (auto simp: served_def run_refl dest: fetches)

lemma system_step_run:
  assumes "system_step R cfg H J \<sigma> \<sigma>'"
  shows "service_run R cfg (system_db \<sigma>) (system_db \<sigma>')"
  using assms
proof cases
  case (request i first_of fetch ping X r d1 resp s')
  then show ?thesis using ServeHTTP_run [OF request(3)] by (simp add: after_request_def process_server_def)
next
  case (outbox_event i p eo wo s)
  then show ?thesis
    using outbox_runs.event_respects [OF outbox_event(4) [unfolded OutboxWorker_step_def]] by (simp add: served_def after_event_def)
next
  case (pending_event i p ep wp s)
  then show ?thesis
    using pending_runs.event_respects [OF pending_event(4) [unfolded PendingReferenceWorker_step_def], of cfg]
    by (simp add: served_def after_event_def)
next
  case (sqs_event i p es ws s)
  then show ?thesis
    using sqs_runs.event_respects [OF sqs_event(4) [unfolded SQSWorker_step_def]] by (simp add: served_def after_event_def)
qed (simp_all add: run_refl)

lemma system_run_service:
  assumes "system_run R cfg H J \<sigma> \<sigma>'"
  shows "service_run R cfg (system_db \<sigma>) (system_db \<sigma>')"
  using assms unfolding system_run_def
  by (induction rule: rtranclp_induct) (auto intro: run_refl run_trans system_step_run)

lemma system_reachable:
  "system_run R cfg H J empty_system \<sigma> \<Longrightarrow> reachable R cfg (system_db \<sigma>)"
  unfolding reachable_def using system_run_service [of R cfg H J empty_system \<sigma>] by (simp add: empty_system_def)

section \<open>A batch of pending references\<close>

text \<open>When nothing interferes, the jobs of a tick do together what \<open>processBatch\<close> does.\<close>

lemma pending_jobs:
  "run_events False (pending_items R) (pending_job R) (map (\<lambda>k. HandleJob (env k)) [n..<n + length items])
       (w\<lparr>loop_at := Handling items\<rparr>, (wd, m))
     = Moves (w\<lparr>loop_at := Handling []\<rparr>, (wd\<lparr>world_db := resolve_items R env n items (world_db wd)\<rparr>, m))"
proof (induction items arbitrary: n wd)
  case (Cons item items)
  obtain r d' where r: "ResolvePendingReference R (env n) (txid item) (world_db wd) = (r, d')" by fastforce
  then have job: "pending_job R (env n) item (wd, m) = Inr (wd\<lparr>world_db := d'\<rparr>, m)"
    and rest: "resolve_items R env n (item # items) (world_db wd) = resolve_items R env (Suc n) items d'"
    by (simp_all add: pending_job_def split: sum.split)
  have "[n..<n + length (item # items)] = n # [Suc n..<Suc n + length items]"
    by (simp add: upt_conv_Cons del: upt_Suc)
  then show ?case
    using Cons.IH [of "Suc n" "wd\<lparr>world_db := d'\<rparr>"] job rest by (simp add: worker_step_def del: upt_Suc)
qed simp

lemma pending_tick_is_batch:
  assumes "pending_items R X (wd, m) = (items, s)" "loop_at w = Selecting" "\<not> stopChan_closed w"
  shows "run_events False (pending_items R) (pending_job R)
       (TakeTick X # map (\<lambda>k. HandleJob (env k)) [0..<length items] @ [EndTick]) (w, (wd, m))
     = Moves (w, (wd\<lparr>world_db := processBatch R live_tx X env (world_db wd)\<rparr>, m))"
proof -
  have append: "run_events False (pending_items R) (pending_job R) (es @ es') c =
      (case run_events False (pending_items R) (pending_job R) es c of
         Blocked \<Rightarrow> Blocked | Crashes err \<Rightarrow> Crashes err
       | Moves c' \<Rightarrow> run_events False (pending_items R) (pending_job R) es' c')" for es es' c
    by (induction es arbitrary: c) (simp_all split: outcome.split)
  have s: "s = (wd, m)" and b: "processBatch R live_tx X env (world_db wd) = resolve_items R env 0 items (world_db wd)"
    using assms(1) by (auto simp: pending_items_def processBatch_def split: sum.splits)
  have "w\<lparr>loop_at := Selecting\<rparr> = w" using assms(2) by (cases w) simp
  then show ?thesis
    using assms(1,2) pending_jobs [of R env 0 items w wd m]
    by (simp add: append s b worker_step_def split_beta)
qed

end
