(* ===== verification/Process_Lifecycle.thy ===== *)
theory Process_Lifecycle
  imports Service_System
begin

text \<open>
  \<open>cmd/api/main.go\<close>: one process from its constructors to the end of its stop hooks. The hooks start the goroutines of the server and of the workers and stop
  them; \<open>fx\<close>, which calls the hooks, is not part of the repository, so a run of the process may call them in any order, and what \<open>fx\<close> documents of
  the order is a hypothesis on the run (\<open>fx_order\<close>). The server is the part of \<open>net/http\<close> that \<open>main\<close> uses.
\<close>

section \<open>The HTTP server\<close>

text \<open>
  The goroutine of \<open>OnStart\<close> listens until \<open>Shutdown\<close> closes the listener; any other error asks \<open>fx\<close> to stop the application. \<open>Shutdown\<close> returns when the
  requests that were accepted are answered, or with the error of its context.
\<close>

record http_server =
  serving :: bool
  closing :: bool
  active_requests :: nat
  shutdown_asked :: bool
  shutdown_at :: stop_at

definition new_server :: http_server where
  "new_server = \<lparr>serving = False, closing = False, active_requests = 0, shutdown_asked = False, shutdown_at = NotStopped\<rparr>"

datatype 'i http_event =
    Listen
  | ListenFails goerror
  | Accept
  | Answer_Request 'i
  | CallShutdown
  | ShutdownDone
  | ShutdownExpired goerror

fun server_step ::
  "('i \<Rightarrow> 's \<Rightarrow> 's) \<Rightarrow> 'i http_event \<Rightarrow> http_server \<times> 's \<Rightarrow> (http_server \<times> 's) outcome" where
  "server_step serve Listen (h, s) =
     (if \<not> serving h \<and> \<not> closing h \<and> \<not> shutdown_asked h then Moves (h\<lparr>serving := True\<rparr>, s) else Blocked)"
| "server_step serve (ListenFails err) (h, s) =
     (if closing h \<or> shutdown_asked h then Blocked else Moves (h\<lparr>serving := False, shutdown_asked := True\<rparr>, s))"
| "server_step serve Accept (h, s) =
     (if serving h then Moves (h\<lparr>active_requests := active_requests h + 1\<rparr>, s) else Blocked)"
| "server_step serve (Answer_Request i) (h, s) =
     (if 0 < active_requests h then Moves (h\<lparr>active_requests := active_requests h - 1\<rparr>, serve i s) else Blocked)"
| "server_step serve CallShutdown (h, s) =
     Moves (h\<lparr>serving := False, closing := True, shutdown_at := Stopping\<rparr>, s)"
| "server_step serve ShutdownDone (h, s) =
     (if shutdown_at h = Stopping \<and> active_requests h = 0 then Moves (h\<lparr>shutdown_at := StopReturned None\<rparr>, s) else Blocked)"
| "server_step serve (ShutdownExpired err) (h, s) =
     (if shutdown_at h = Stopping then Moves (h\<lparr>shutdown_at := StopReturned (Some err)\<rparr>, s) else Blocked)"

fun handles_request :: "'i http_event \<Rightarrow> bool" where
  "handles_request Accept = True"
| "handles_request (Answer_Request i) = True"
| "handles_request e = False"

text \<open>After a \<open>Shutdown\<close> that has returned without an error no request is accepted or answered.\<close>

definition server_inv :: "http_server \<Rightarrow> bool" where
  "server_inv h \<longleftrightarrow> (closing h \<longrightarrow> \<not> serving h) \<and> (shutdown_at h \<noteq> NotStopped \<longrightarrow> closing h)
     \<and> (shutdown_at h = StopReturned None \<longrightarrow> active_requests h = 0)"

lemma server_inv_step:
  assumes "server_step serve e (h, s) = Moves (h', s')" "server_inv h"
  shows "server_inv h'"
  using assms by (cases e) (auto simp: server_inv_def split: if_splits)

lemma server_closed_step:
  assumes "server_step serve e (h, s) = Moves (h', s')" "server_inv h" "closing h" "active_requests h = 0"
  shows "closing h' \<and> active_requests h' = 0 \<and> s' = s \<and> \<not> handles_request e"
  using assms by (cases e) (auto simp: server_inv_def split: if_splits)

lemma server_done_step:
  assumes "server_step serve ShutdownDone (h, s) = Moves (h', s')" "server_inv h"
  shows "closing h' \<and> active_requests h' = 0"
  using assms by (auto simp: server_inv_def split: if_splits)

section \<open>The process\<close>

record app =
  app_process :: process
  app_server :: http_server
  app_hooks :: "hook list"
  started_hooks :: "hook list"
  pool_closed :: bool

definition new_app :: "config \<Rightarrow> boot_env \<Rightarrow> app result" where
  "new_app cfg B =
     (case main_app cfg B of
        Inl err \<Rightarrow> Inl err
      | Inr (p, lc) \<Rightarrow>
          Inr \<lparr>app_process = p, app_server = new_server, app_hooks = lc, started_hooks = [], pool_closed = False\<rparr>)"

lemma new_app_hooks:
  "new_app cfg B = Inr a \<Longrightarrow>
     app_hooks a = [PoolHook, HTTPServerHook, SQSWorkerHook, OutboxWorkerHook, PendingReferenceWorkerHook]
     \<and> app_server a = new_server \<and> started_hooks a = [] \<and> \<not> pool_closed a
     \<and> outbox_worker (app_process a) = new_worker \<and> pending_worker (app_process a) = new_worker
     \<and> sqs_worker (app_process a) = new_worker"
  by (auto simp: new_app_def main_app_def Let_def NewPostgresPool_def NewSQSWorker_def NewOutboxWorker_def StartHTTPServer_def
      StartSQSWorker_def StartOutboxWorker_def StartPendingReferenceWorker_def split: sum.splits option.splits)

text \<open>What is taken with a request from outside, and the request itself.\<close>

record request_env =
  rq_first_of :: "(string \<times> rsa_public_key) list \<Rightarrow> rsa_public_key"
  rq_fetch :: jwks_reply
  rq_ping :: "bool option"
  rq_env :: txenv
  rq_request :: http_request
  rq_snapshot :: database

definition serve_request :: "runtime \<Rightarrow> config \<Rightarrow> http_lib \<Rightarrow> jwt_lib \<Rightarrow> request_env \<Rightarrow> world \<times> memory \<Rightarrow> world \<times> memory" where
  "serve_request R cfg H J q s =
     (let (wd, m) = s;
          s' = snd (ServeHTTP R cfg H J (rq_first_of q) (rq_fetch q) (rq_ping q) (rq_env q) (rq_request q) (rq_snapshot q)
            \<lparr>server_auth = mem_auth m, server_metrics = mem_metrics m, server_db = world_db wd\<rparr>)
      in (wd\<lparr>world_db := server_db s'\<rparr>, \<lparr>mem_auth = server_auth s', mem_metrics = server_metrics s'\<rparr>))"

text \<open>\<open>OnStart\<close> of each hook: only that of the pool can fail, the others start a goroutine and return \<open>nil\<close>.\<close>

fun OnStart :: "boot_env \<Rightarrow> hook \<Rightarrow> unit result" where
  "OnStart B PoolHook = pool_OnStart (boot_ping_error B) (boot_migrate_error B) (boot_migration B)"
| "OnStart B HTTPServerHook = Inr ()"
| "OnStart B SQSWorkerHook = Inr ()"
| "OnStart B OutboxWorkerHook = Inr ()"
| "OnStart B PendingReferenceWorkerHook = Inr ()"

datatype app_event =
    CallOnStart hook
  | Server "request_env http_event"
  | SQS "(sqs_message list result, (nat \<Rightarrow> bool) \<times> txenv) worker_event"
  | Outbox "(unit, (nat \<Rightarrow> send_message_input \<Rightarrow> bool) \<times> (string \<Rightarrow> bool) \<times> txenv) worker_event"
  | Pending "(txenv, txenv) worker_event"
  | ClosePool

text \<open>A pool that is closed gives out no connection: \<open>BEGIN\<close> fails.\<close>

definition pool_gives :: "app \<Rightarrow> txenv \<Rightarrow> bool" where
  "pool_gives a X \<longleftrightarrow> (pool_closed a \<longrightarrow> begin_fault X \<noteq> None)"

text \<open>The events that can happen: a goroutine exists when its hook has started it, and a transaction needs a connection.\<close>

fun possible :: "app_event \<Rightarrow> app \<Rightarrow> bool" where
  "possible (CallOnStart h) a = (h \<in> set (app_hooks a) \<and> h \<notin> set (started_hooks a))"
| "possible (Server Listen) a = (HTTPServerHook \<in> set (started_hooks a))"
| "possible (Server (ListenFails err)) a = (HTTPServerHook \<in> set (started_hooks a))"
| "possible (Server (Answer_Request q)) a = pool_gives a (rq_env q)"
| "possible (SQS EnterStart) a = (SQSWorkerHook \<in> set (started_hooks a))"
| "possible (SQS (HandleJob (rd, X))) a = pool_gives a X"
| "possible (Outbox EnterStart) a = (OutboxWorkerHook \<in> set (started_hooks a))"
| "possible (Outbox (HandleJob (refuses, locked, X))) a = pool_gives a X"
| "possible (Pending EnterStart) a = (PendingReferenceWorkerHook \<in> set (started_hooks a))"
| "possible (Pending (HandleJob X)) a = pool_gives a X"
| "possible e a = True"

definition pool_OnStop :: "app \<Rightarrow> app" where
  "pool_OnStop a = a\<lparr>pool_closed := True\<rparr>"

definition in_process :: "app \<Rightarrow> (process \<Rightarrow> process) \<Rightarrow> world \<times> memory \<Rightarrow> app \<times> world" where
  "in_process a f s = (a\<lparr>app_process := (f (app_process a))\<lparr>proc_memory := snd s\<rparr>\<rparr>, fst s)"

fun app_moves :: "runtime \<Rightarrow> config \<Rightarrow> http_lib \<Rightarrow> jwt_lib \<Rightarrow> boot_env \<Rightarrow> app_event \<Rightarrow> app \<times> world \<Rightarrow> (app \<times> world) outcome" where
  "app_moves R cfg H J B (CallOnStart h) (a, wd) =
     (case OnStart B h of
        Inl err \<Rightarrow> Crashes err
      | Inr _ \<Rightarrow> Moves (a\<lparr>started_hooks := started_hooks a @ [h]\<rparr>, wd))"
| "app_moves R cfg H J B (Server e) (a, wd) =
     (case server_step (serve_request R cfg H J) e (app_server a, wd, proc_memory (app_process a)) of
        Blocked \<Rightarrow> Blocked
      | Crashes err \<Rightarrow> Crashes err
      | Moves (h, s) \<Rightarrow> Moves (in_process (a\<lparr>app_server := h\<rparr>) id s))"
| "app_moves R cfg H J B (SQS e) (a, wd) =
     (case SQSWorker_step R cfg e (sqs_worker (app_process a), wd, proc_memory (app_process a)) of
        Blocked \<Rightarrow> Blocked
      | Crashes err \<Rightarrow> Crashes err
      | Moves (w, s) \<Rightarrow> Moves (in_process a (sqs_worker_update (\<lambda>_. w)) s))"
| "app_moves R cfg H J B (Outbox e) (a, wd) =
     (case OutboxWorker_step R cfg e (outbox_worker (app_process a), wd, proc_memory (app_process a)) of
        Blocked \<Rightarrow> Blocked
      | Crashes err \<Rightarrow> Crashes err
      | Moves (w, s) \<Rightarrow> Moves (in_process a (outbox_worker_update (\<lambda>_. w)) s))"
| "app_moves R cfg H J B (Pending e) (a, wd) =
     (case PendingReferenceWorker_step R e (pending_worker (app_process a), wd, proc_memory (app_process a)) of
        Blocked \<Rightarrow> Blocked
      | Crashes err \<Rightarrow> Crashes err
      | Moves (w, s) \<Rightarrow> Moves (in_process a (pending_worker_update (\<lambda>_. w)) s))"
| "app_moves R cfg H J B ClosePool (a, wd) = Moves (pool_OnStop a, wd)"

definition app_step :: "runtime \<Rightarrow> config \<Rightarrow> http_lib \<Rightarrow> jwt_lib \<Rightarrow> boot_env \<Rightarrow> app_event \<Rightarrow> app \<times> world \<Rightarrow> (app \<times> world) outcome" where
  "app_step R cfg H J B e c = (if possible e (fst c) then app_moves R cfg H J B e c else Blocked)"

text \<open>A run of a process: its events in order; between them the rest of the system may change the world.\<close>

inductive app_run :: "runtime \<Rightarrow> config \<Rightarrow> http_lib \<Rightarrow> jwt_lib \<Rightarrow> boot_env \<Rightarrow> app \<times> world \<Rightarrow> app_event list \<Rightarrow> app \<times> world \<Rightarrow> bool"
  for R cfg H J B c where
  app_starts: "app_run R cfg H J B c [] c"
| app_own: "app_run R cfg H J B c es c1 \<Longrightarrow> app_step R cfg H J B e c1 = Moves c2 \<Longrightarrow> app_run R cfg H J B c (es @ [e]) c2"
| app_others: "app_run R cfg H J B c es (a, wd) \<Longrightarrow> app_run R cfg H J B c es (a, wd')"

lemma app_run_split:
  assumes "app_run R cfg H J B c (es @ es') c2"
  obtains c1 where "app_run R cfg H J B c es c1" "app_run R cfg H J B c1 es' c2"
proof -
  have "\<exists>c1. app_run R cfg H J B c es c1 \<and> app_run R cfg H J B c1 es' c2" using assms
  proof (induction "es @ es'" c2 arbitrary: es' rule: app_run.induct)
    case (app_own fs c1 e c2)
    show ?case
    proof (cases es' rule: rev_cases)
      case Nil
      have "app_run R cfg H J B c es c2" using app_run.app_own [OF app_own.hyps(1,3)] app_own.hyps(4) Nil by simp
      then show ?thesis using Nil app_run.app_starts by blast
    next
      case (snoc es'' e')
      then have "fs = es @ es''" "e' = e" using app_own.hyps(4) by auto
      then show ?thesis using app_own.hyps(2,3) snoc app_run.app_own by metis
    qed
  next
    case (app_others fs a wd wd')
    then show ?case using app_run.app_others by blast
  next
    case app_starts
    then show ?case using app_run.app_starts [of R cfg H J B c] by (intro exI [of _ c]) simp
  qed
  then show ?thesis using that by blast
qed

text \<open>Facts of every step hold along a run when what the others do to the world does not matter to them.\<close>

lemma app_run_keeps:
  assumes "app_run R cfg H J B (a0, wd0) es (a, wd)" "P [] a0"
    and "\<And>es e a wd a' wd'. app_step R cfg H J B e (a, wd) = Moves (a', wd') \<Longrightarrow> P es a \<Longrightarrow> P (es @ [e]) a'"
  shows "P es a"
  using assms(1)
proof (induction es "(a, wd)" arbitrary: a wd rule: app_run.induct)
  case (app_own es c1 e)
  then show ?case using assms(3) by (cases c1) blast
qed (use assms(2) in auto)

lemma pool_OnStop_simps [simp]:
  "app_process (pool_OnStop a) = app_process a" "app_server (pool_OnStop a) = app_server a"
  by (simp_all add: pool_OnStop_def)

section \<open>The workers of a process\<close>

text \<open>
  The interface of a goroutine that the process hosts: where its worker is, which events are its own, and that these are the events of \<open>Worker_Loop\<close> while all
  others leave it alone. Everything proved of a worker alone then holds in the process.
\<close>

locale hosted_worker =
  fixes R :: runtime and cfg :: config and H :: http_lib and J :: jwt_lib and B :: boot_env
    and worker_of :: "process \<Rightarrow> 'job worker"
    and own :: "app_event \<Rightarrow> ('i, 'j) worker_event option"
    and polling :: bool
    and fetch :: "'i \<Rightarrow> world \<times> memory \<Rightarrow> 'job list \<times> (world \<times> memory)"
    and handle :: "'j \<Rightarrow> 'job \<Rightarrow> world \<times> memory \<Rightarrow> (world \<times> memory) result"
  assumes own_step: "app_step R cfg H J B e (a, wd) = Moves (a', wd') \<Longrightarrow> own e = Some we
      \<Longrightarrow> worker_step polling fetch handle we (worker_of (app_process a), wd, proc_memory (app_process a))
            = Moves (worker_of (app_process a'), wd', proc_memory (app_process a'))"
    and other_step: "app_step R cfg H J B e (a, wd) = Moves (a', wd') \<Longrightarrow> own e = None
      \<Longrightarrow> worker_of (app_process a') = worker_of (app_process a)"
begin

lemma hosted_run:
  assumes "app_run R cfg H J B (a0, wd0) es (a, wd)"
  shows "worker_run polling fetch handle (worker_of (app_process a0), wd0, proc_memory (app_process a0)) (List.map_filter own es)
     (worker_of (app_process a), wd, proc_memory (app_process a))"
  using assms
proof (induction es "(a, wd)" arbitrary: a wd rule: app_run.induct)
  case (app_own es c1 e)
  obtain a1 wd1 where c1: "c1 = (a1, wd1)" by (cases c1)
  have run: "worker_run polling fetch handle (worker_of (app_process a0), wd0, proc_memory (app_process a0)) (List.map_filter own es)
     (worker_of (app_process a1), wd1, proc_memory (app_process a1))" and st: "app_step R cfg H J B e (a1, wd1) = Moves (a, wd)"
    using app_own.hyps(2,3) c1 by auto
  show ?case
  proof (cases "own e")
    case None
    then show ?thesis using run_others [OF run] other_step [OF st] by (simp add: map_filter_def)
  next
    case (Some we)
    then show ?thesis using run_own [OF run own_step [OF st Some]] by (simp add: map_filter_def)
  qed
next
  case (app_others es a wd wd')
  show ?case using run_others [OF app_others.hyps(2)] .
qed (simp add: map_filter_def run_start)

text \<open>A \<open>Stop\<close> that has returned in time has found the loop returned.\<close>

lemma hosted_returned:
  assumes "app_run R cfg H J B (a0, wd0) es (a, wd)" "worker_of (app_process a0) = new_worker"
    "before EnterStart CallStop (List.map_filter own es)" "StopDone \<in> set (List.map_filter own es)"
  shows "loop_at (worker_of (app_process a)) = Returned"
  using events_tell [OF hosted_run [OF assms(1), unfolded assms(2)]] assms(3,4) by blast

lemma hosted_done:
  assumes "app_step R cfg H J B e (a, wd) = Moves (a', wd')" "loop_at (worker_of (app_process a)) = Returned"
  shows "loop_at (worker_of (app_process a')) = Returned \<and> (\<forall>we. own e = Some we \<longrightarrow> of_stop we \<and> wd' = wd)"
proof (cases "own e")
  case None
  then show ?thesis using other_step [OF assms(1)] assms(2) by simp
next
  case (Some we)
  then show ?thesis using returned_step [OF own_step [OF assms(1) Some] assms(2)] by simp
qed

end

fun outbox_own :: "app_event \<Rightarrow> (unit, (nat \<Rightarrow> send_message_input \<Rightarrow> bool) \<times> (string \<Rightarrow> bool) \<times> txenv) worker_event option" where
  "outbox_own (Outbox e) = Some e"
| "outbox_own e = None"

fun pending_own :: "app_event \<Rightarrow> (txenv, txenv) worker_event option" where
  "pending_own (Pending e) = Some e"
| "pending_own e = None"

fun sqs_own :: "app_event \<Rightarrow> (sqs_message list result, (nat \<Rightarrow> bool) \<times> txenv) worker_event option" where
  "sqs_own (SQS e) = Some e"
| "sqs_own e = None"

lemma app_step_moves: "app_step R cfg H J B e c = Moves c' \<longleftrightarrow> possible e (fst c) \<and> app_moves R cfg H J B e c = Moves c'"
  by (simp add: app_step_def)

lemma app_moves_cases [consumes 1, case_names start server sqs outbox pending close]:
  assumes "app_moves R cfg H J B e (a, wd) = Moves (a', wd')"
  obtains h where "e = CallOnStart h" "OnStart B h = Inr ()" "a' = a\<lparr>started_hooks := started_hooks a @ [h]\<rparr>" "wd' = wd"
  | x h s where "e = Server x" "server_step (serve_request R cfg H J) x (app_server a, wd, proc_memory (app_process a)) = Moves (h, s)"
      "(a', wd') = in_process (a\<lparr>app_server := h\<rparr>) id s"
  | x w s where "e = SQS x" "SQSWorker_step R cfg x (sqs_worker (app_process a), wd, proc_memory (app_process a)) = Moves (w, s)"
      "(a', wd') = in_process a (sqs_worker_update (\<lambda>_. w)) s"
  | x w s where "e = Outbox x" "OutboxWorker_step R cfg x (outbox_worker (app_process a), wd, proc_memory (app_process a)) = Moves (w, s)"
      "(a', wd') = in_process a (outbox_worker_update (\<lambda>_. w)) s"
  | x w s where "e = Pending x" "PendingReferenceWorker_step R x (pending_worker (app_process a), wd, proc_memory (app_process a)) = Moves (w, s)"
      "(a', wd') = in_process a (pending_worker_update (\<lambda>_. w)) s"
  | "e = ClosePool" "a' = pool_OnStop a" "wd' = wd"
  using assms by (cases e) (auto split: sum.splits outcome.splits prod.splits)

interpretation outbox_hosted: hosted_worker R cfg H J B outbox_worker outbox_own False outbox_tick_job "outbox_job R cfg" for R cfg H J B
proof unfold_locales
  fix e a wd a' wd' we
  assume "app_step R cfg H J B e (a, wd) = Moves (a', wd')"
  then have m: "app_moves R cfg H J B e (a, wd) = Moves (a', wd')" by (simp add: app_step_moves)
  show "worker_step False outbox_tick_job (outbox_job R cfg) we (outbox_worker (app_process a), wd, proc_memory (app_process a)) =
      Moves (outbox_worker (app_process a'), wd', proc_memory (app_process a'))" if "outbox_own e = Some we"
    using m that by (cases rule: app_moves_cases) (auto simp: in_process_def OutboxWorker_step_def)
  show "outbox_worker (app_process a') = outbox_worker (app_process a)" if "outbox_own e = None"
    using m that by (cases rule: app_moves_cases) (auto simp: in_process_def)
qed

interpretation pending_hosted: hosted_worker R cfg H J B pending_worker pending_own False "pending_items R" "pending_job R" for R cfg H J B
proof unfold_locales
  fix e a wd a' wd' we
  assume "app_step R cfg H J B e (a, wd) = Moves (a', wd')"
  then have m: "app_moves R cfg H J B e (a, wd) = Moves (a', wd')" by (simp add: app_step_moves)
  show "worker_step False (pending_items R) (pending_job R) we (pending_worker (app_process a), wd, proc_memory (app_process a)) =
      Moves (pending_worker (app_process a'), wd', proc_memory (app_process a'))" if "pending_own e = Some we"
    using m that by (cases rule: app_moves_cases) (auto simp: in_process_def PendingReferenceWorker_step_def)
  show "pending_worker (app_process a') = pending_worker (app_process a)" if "pending_own e = None"
    using m that by (cases rule: app_moves_cases) (auto simp: in_process_def)
qed

interpretation sqs_hosted: hosted_worker R cfg H J B sqs_worker sqs_own True received_messages "message_job R cfg" for R cfg H J B
proof unfold_locales
  fix e a wd a' wd' we
  assume "app_step R cfg H J B e (a, wd) = Moves (a', wd')"
  then have m: "app_moves R cfg H J B e (a, wd) = Moves (a', wd')" by (simp add: app_step_moves)
  show "worker_step True received_messages (message_job R cfg) we (sqs_worker (app_process a), wd, proc_memory (app_process a)) =
      Moves (sqs_worker (app_process a'), wd', proc_memory (app_process a'))" if "sqs_own e = Some we"
    using m that by (cases rule: app_moves_cases) (auto simp: in_process_def SQSWorker_step_def)
  show "sqs_worker (app_process a') = sqs_worker (app_process a)" if "sqs_own e = None"
    using m that by (cases rule: app_moves_cases) (auto simp: in_process_def)
qed

section \<open>The server of a process\<close>

lemma server_of_step:
  assumes "app_step R cfg H J B e (a, wd) = Moves (a', wd')"
  shows "(\<exists>x. e = Server x \<and> server_step (serve_request R cfg H J) x (app_server a, wd, proc_memory (app_process a))
            = Moves (app_server a', wd', proc_memory (app_process a')))
       \<or> (\<forall>x. e \<noteq> Server x) \<and> app_server a' = app_server a"
  using assms [unfolded app_step_moves, THEN conjunct2] by (cases rule: app_moves_cases) (auto simp: in_process_def)

definition server_drained :: "app \<Rightarrow> bool" where
  "server_drained a \<longleftrightarrow> server_inv (app_server a) \<and> closing (app_server a) \<and> active_requests (app_server a) = 0"

lemma drained_step:
  assumes "app_step R cfg H J B e (a, wd) = Moves (a', wd')" "server_drained a"
  shows "server_drained a' \<and> (\<forall>x. e = Server x \<longrightarrow> \<not> handles_request x \<and> wd' = wd)"
  using server_of_step [OF assms(1)] server_inv_step server_closed_step assms(2) unfolding server_drained_def by fastforce

lemma drained_run:
  assumes "app_run R cfg H J B (a0, wd0) es (a, wd)" "app_server a0 = new_server" "Server ShutdownDone \<in> set es"
  shows "server_drained a"
proof -
  have "server_inv (app_server a) \<and> (Server ShutdownDone \<in> set es \<longrightarrow> server_drained a)"
  proof (rule app_run_keeps [OF assms(1)])
    show "server_inv (app_server a0) \<and> (Server ShutdownDone \<in> set [] \<longrightarrow> server_drained a0)"
      by (simp add: assms(2) server_inv_def new_server_def)
  next
    fix es e a wd a' wd'
    assume st: "app_step R cfg H J B e (a, wd) = Moves (a', wd')"
      and ih: "server_inv (app_server a) \<and> (Server ShutdownDone \<in> set es \<longrightarrow> server_drained a)"
    have inv: "server_inv (app_server a')" using server_of_step [OF st] server_inv_step ih by metis
    have "server_drained a'" if "e = Server ShutdownDone"
    proof -
      have "server_step (serve_request R cfg H J) ShutdownDone (app_server a, wd, proc_memory (app_process a))
          = Moves (app_server a', wd', proc_memory (app_process a'))" using server_of_step [OF st] that by simp
      from server_done_step [OF this] ih inv show ?thesis by (simp add: server_drained_def)
    qed
    then show "server_inv (app_server a') \<and> (Server ShutdownDone \<in> set (es @ [e]) \<longrightarrow> server_drained a')"
      using inv drained_step [OF st] ih by auto
  qed
  then show ?thesis using assms(3) by simp
qed

section \<open>The order of the hooks\<close>

text \<open>
  What \<open>fx\<close> documents: the hooks of \<open>OnStart\<close> are called in the order in which they were appended, those of \<open>OnStop\<close> in the reverse order, each when
  the one before has returned.
\<close>

datatype hook_call = Starts hook | Stops hook | HasStopped hook

fun call_of :: "app_event \<Rightarrow> hook_call list" where
  "call_of (CallOnStart h) = [Starts h]"
| "call_of (Server CallShutdown) = [Stops HTTPServerHook]"
| "call_of (Server ShutdownDone) = [HasStopped HTTPServerHook]"
| "call_of (Server (ShutdownExpired err)) = [HasStopped HTTPServerHook]"
| "call_of (SQS CallStop) = [Stops SQSWorkerHook]"
| "call_of (SQS StopDone) = [HasStopped SQSWorkerHook]"
| "call_of (SQS (StopExpired err)) = [HasStopped SQSWorkerHook]"
| "call_of (Outbox CallStop) = [Stops OutboxWorkerHook]"
| "call_of (Outbox StopDone) = [HasStopped OutboxWorkerHook]"
| "call_of (Outbox (StopExpired err)) = [HasStopped OutboxWorkerHook]"
| "call_of (Pending CallStop) = [Stops PendingReferenceWorkerHook]"
| "call_of (Pending StopDone) = [HasStopped PendingReferenceWorkerHook]"
| "call_of (Pending (StopExpired err)) = [HasStopped PendingReferenceWorkerHook]"
| "call_of ClosePool = [Stops PoolHook, HasStopped PoolHook]"
| "call_of e = []"

definition hook_calls :: "app_event list \<Rightarrow> hook_call list" where
  "hook_calls es = concat (map call_of es)"

definition fx_order :: "hook list \<Rightarrow> app_event list \<Rightarrow> bool" where
  "fx_order hooks es \<longleftrightarrow>
     prefix (hook_calls es) (map Starts hooks @ concat (map (\<lambda>h. [Stops h, HasStopped h]) (rev hooks)))"

text \<open>No stop hook runs into the deadline of its context, and each worker was entered before it was stopped.\<close>

fun expires :: "app_event \<Rightarrow> bool" where
  "expires (Server (ShutdownExpired err)) = True"
| "expires (SQS (StopExpired err)) = True"
| "expires (Outbox (StopExpired err)) = True"
| "expires (Pending (StopExpired err)) = True"
| "expires e = False"

definition stopped_in_time :: "app_event list \<Rightarrow> bool" where
  "stopped_in_time es \<longleftrightarrow>
     list_all (\<lambda>e. \<not> expires e) es
     \<and> before (SQS EnterStart) (SQS CallStop) es
     \<and> before (Outbox EnterStart) (Outbox CallStop) es
     \<and> before (Pending EnterStart) (Pending CallStop) es"

lemma before_own:
  assumes "before x y es" "own x = Some u" "\<And>e. own e = Some u \<longleftrightarrow> e = x" "\<And>e. own e = Some v \<longleftrightarrow> e = y"
  shows "before u v (List.map_filter own es)"
  using assms(1)
proof (induction es)
  case (Cons e es)
  show ?case
  proof (cases "e = x")
    case True
    then show ?thesis using assms(2) by (simp add: before_def map_filter_def)
  next
    case False
    then have "before x y es" "e \<noteq> y" "own e \<noteq> Some u" using Cons.prems assms(3) by (auto simp: before_def)
    moreover from this have "own e \<noteq> Some v" using assms(4) by blast
    ultimately show ?thesis using Cons.IH by (cases "own e") (auto simp: before_def map_filter_def)
  qed
qed (simp add: before_def)

lemma prefix_up_to:
  assumes "prefix (xs @ y # ys) zs" "distinct zs"
  shows "xs = takeWhile (\<lambda>z. z \<noteq> y) zs"
proof -
  obtain vs where zs: "zs = xs @ y # vs" using assms(1) by (auto simp: prefix_def)
  then have "\<forall>x \<in> set xs. x \<noteq> y" using assms(2) by auto
  then show ?thesis by (simp add: zs takeWhile_append)
qed

text \<open>When the pool is closed in this order, every other hook has returned from its stop.\<close>

lemma stopped_before_pool:
  assumes "fx_order [PoolHook, HTTPServerHook, SQSWorkerHook, OutboxWorkerHook, PendingReferenceWorkerHook] (es @ [ClosePool])"
    "list_all (\<lambda>e. \<not> expires e) es"
  shows "Server ShutdownDone \<in> set es" "SQS StopDone \<in> set es" "Outbox StopDone \<in> set es" "Pending StopDone \<in> set es"
proof -
  have calls: "hook_calls es = takeWhile (\<lambda>z. z \<noteq> Stops PoolHook)
      (map Starts [PoolHook, HTTPServerHook, SQSWorkerHook, OutboxWorkerHook, PendingReferenceWorkerHook] @ concat (map (\<lambda>h. [Stops h, HasStopped h])
        (rev [PoolHook, HTTPServerHook, SQSWorkerHook, OutboxWorkerHook, PendingReferenceWorkerHook])))"
    by (rule prefix_up_to [where ys = "[HasStopped PoolHook]"]) (use assms(1) in \<open>simp_all add: fx_order_def hook_calls_def\<close>)
  have "\<exists>e \<in> set es. c \<in> set (call_of e)" if "c \<in> set (hook_calls es)" for c
    using that by (auto simp: hook_calls_def)
  then have ex: "\<exists>e \<in> set es. HasStopped h \<in> set (call_of e)"
    if "h \<in> {HTTPServerHook, SQSWorkerHook, OutboxWorkerHook, PendingReferenceWorkerHook}" for h
    using that calls by auto
  have call: "HasStopped h \<in> set (call_of e) \<Longrightarrow> e \<in> set es \<Longrightarrow>
      (case h of PoolHook \<Rightarrow> e = ClosePool | HTTPServerHook \<Rightarrow> e = Server ShutdownDone | SQSWorkerHook \<Rightarrow> e = SQS StopDone
       | OutboxWorkerHook \<Rightarrow> e = Outbox StopDone | PendingReferenceWorkerHook \<Rightarrow> e = Pending StopDone)" for h e
    using assms(2) by (cases e rule: call_of.cases) (auto simp: list_all_iff)
  show "Server ShutdownDone \<in> set es" using ex [of HTTPServerHook] call [of HTTPServerHook] by auto
  show "SQS StopDone \<in> set es" using ex [of SQSWorkerHook] call [of SQSWorkerHook] by auto
  show "Outbox StopDone \<in> set es" using ex [of OutboxWorkerHook] call [of OutboxWorkerHook] by auto
  show "Pending StopDone \<in> set es" using ex [of PendingReferenceWorkerHook] call [of PendingReferenceWorkerHook] by auto
qed

section \<open>A process that has stopped\<close>

fun works :: "app_event \<Rightarrow> bool" where
  "works (Server e) = handles_request e"
| "works (SQS e) = (\<not> of_stop e)"
| "works (Outbox e) = (\<not> of_stop e)"
| "works (Pending e) = (\<not> of_stop e)"
| "works e = False"

definition idle :: "app \<Rightarrow> bool" where
  "idle a \<longleftrightarrow> server_drained a \<and> loop_at (sqs_worker (app_process a)) = Returned
     \<and> loop_at (outbox_worker (app_process a)) = Returned \<and> loop_at (pending_worker (app_process a)) = Returned"

lemma idle_step:
  assumes "app_step R cfg H J B e (a, wd) = Moves (a', wd')" "idle a"
  shows "idle a' \<and> \<not> works e \<and> wd' = wd"
proof -
  have w: "loop_at (sqs_worker (app_process a)) = Returned" "loop_at (outbox_worker (app_process a)) = Returned"
    "loop_at (pending_worker (app_process a)) = Returned" "server_drained a" using assms(2) by (auto simp: idle_def)
  note facts = sqs_hosted.hosted_done [OF assms(1) w(1)] outbox_hosted.hosted_done [OF assms(1) w(2)]
    pending_hosted.hosted_done [OF assms(1) w(3)] drained_step [OF assms(1) w(4)]
  have "\<not> works e \<and> wd' = wd"
  proof (cases e)
    case (CallOnStart h)
    then show ?thesis using assms(1) by (auto simp: app_step_moves split: sum.splits)
  next
    case ClosePool
    then show ?thesis using assms(1) by (auto simp: app_step_moves)
  qed (use facts in auto)
  then show ?thesis using facts by (simp add: idle_def)
qed

lemma idle_run:
  assumes "app_run R cfg H J B (a0, wd0) es (a, wd)" "idle a0"
  shows "idle a \<and> list_all (\<lambda>e. \<not> works e) es"
  by (rule app_run_keeps [OF assms(1)]) (use assms(2) idle_step in fastforce)+

lemma closes_idle:
  assumes boot: "new_app cfg B = Inr a0" and run: "app_run R cfg H J B (a0, wd0) (es @ [ClosePool]) (a, wd)"
    and order: "fx_order (app_hooks a0) (es @ [ClosePool])" and time: "stopped_in_time es"
  shows "idle a"
proof -
  from app_run_split [OF run] obtain c1
    where split: "app_run R cfg H J B (a0, wd0) es c1" "app_run R cfg H J B c1 [ClosePool] (a, wd)" .
  obtain a1 wd1 where "c1 = (a1, wd1)" by (cases c1)
  then have c: "app_run R cfg H J B (a0, wd0) es (a1, wd1)" "app_run R cfg H J B (a1, wd1) [ClosePool] (a, wd)" using split by simp_all
  note new = new_app_hooks [OF boot]
  have stop: "Server ShutdownDone \<in> set es" "SQS StopDone \<in> set es" "Outbox StopDone \<in> set es" "Pending StopDone \<in> set es"
    using stopped_before_pool [OF order [unfolded new [THEN conjunct1]]] time by (simp_all add: stopped_in_time_def)
  have own: "sqs_own e = Some x \<longleftrightarrow> e = SQS x" "outbox_own e = Some y \<longleftrightarrow> e = Outbox y" "pending_own e = Some z \<longleftrightarrow> e = Pending z" for e x y z
    by (cases e; simp)+
  have "before EnterStart CallStop (List.map_filter sqs_own es)"
    by (rule before_own [where x = "SQS EnterStart" and y = "SQS CallStop"]) (use time own in \<open>auto simp: stopped_in_time_def\<close>)
  moreover have "StopDone \<in> set (List.map_filter sqs_own es)" using stop(2) by (force simp: map_filter_def)
  ultimately have sqs: "loop_at (sqs_worker (app_process a1)) = Returned" using sqs_hosted.hosted_returned [OF c(1)] new by blast
  have "before EnterStart CallStop (List.map_filter outbox_own es)"
    by (rule before_own [where x = "Outbox EnterStart" and y = "Outbox CallStop"]) (use time own in \<open>auto simp: stopped_in_time_def\<close>)
  moreover have "StopDone \<in> set (List.map_filter outbox_own es)" using stop(3) by (force simp: map_filter_def)
  ultimately have outbox: "loop_at (outbox_worker (app_process a1)) = Returned" using outbox_hosted.hosted_returned [OF c(1)] new by blast
  have "before EnterStart CallStop (List.map_filter pending_own es)"
    by (rule before_own [where x = "Pending EnterStart" and y = "Pending CallStop"]) (use time own in \<open>auto simp: stopped_in_time_def\<close>)
  moreover have "StopDone \<in> set (List.map_filter pending_own es)" using stop(4) by (force simp: map_filter_def)
  ultimately have "loop_at (pending_worker (app_process a1)) = Returned" using pending_hosted.hosted_returned [OF c(1)] new by blast
  then have "idle a1" using sqs outbox drained_run [OF c(1) _ stop(1)] new by (simp add: idle_def)
  then show ?thesis using idle_run [OF c(2)] by simp
qed

text \<open>At rest: whatever the process can still do is no work and leaves the world as it is.\<close>

definition at_rest :: "runtime \<Rightarrow> config \<Rightarrow> http_lib \<Rightarrow> jwt_lib \<Rightarrow> boot_env \<Rightarrow> app \<Rightarrow> bool" where
  "at_rest R cfg H J B a \<longleftrightarrow>
     (\<forall>e wd a' wd'. app_step R cfg H J B e (a, wd) = Moves (a', wd') \<longrightarrow> \<not> works e \<and> wd' = wd)"

lemma closes_at_rest:
  assumes "new_app cfg B = Inr a0" "app_run R cfg H J B (a0, wd0) (es @ ClosePool # es') (a, wd)"
    "fx_order (app_hooks a0) (es @ [ClosePool])" "stopped_in_time es"
  shows "at_rest R cfg H J B a \<and> list_all (\<lambda>e. \<not> works e) es'"
proof -
  have run: "app_run R cfg H J B (a0, wd0) ((es @ [ClosePool]) @ es') (a, wd)" using assms(2) by simp
  from app_run_split [OF run] obtain c1
    where split: "app_run R cfg H J B (a0, wd0) (es @ [ClosePool]) c1" "app_run R cfg H J B c1 es' (a, wd)" .
  obtain a1 wd1 where c1: "c1 = (a1, wd1)" by (cases c1)
  have "idle a1" using closes_idle [OF assms(1) split(1) [unfolded c1] assms(3,4)] .
  then have "idle a \<and> list_all (\<lambda>e. \<not> works e) es'" using idle_run [OF split(2) [unfolded c1]] by blast
  then show ?thesis unfolding at_rest_def using idle_step by blast
qed

section \<open>A process is a process of the system\<close>

text \<open>Every event of a process is a step of the system of \<open>Service_System\<close>, or leaves the process and the world as they are.\<close>

lemma after_event_process:
  "i < length (processes \<sigma>) \<Longrightarrow> processes (after_event \<sigma> i p s) ! i = p\<lparr>proc_memory := snd s\<rparr> \<and> sys_world (after_event \<sigma> i p s) = fst s"
  by (simp add: after_event_def)

lemma app_step_system:
  assumes "app_step R cfg H J B e (a, wd) = Moves (a', wd')"
    and "i < length (processes \<sigma>)" "processes \<sigma> ! i = app_process a" "sys_world \<sigma> = wd"
  shows "\<exists>\<sigma>'. system_run R cfg H J \<sigma> \<sigma>' \<and> length (processes \<sigma>') = length (processes \<sigma>)
    \<and> processes \<sigma>' ! i = app_process a' \<and> sys_world \<sigma>' = wd'"
proof -
  have still: ?thesis if "app_process a' = app_process a" "wd' = wd"
    using that assms by (auto simp: system_run_def)
  have event: ?thesis if "system_step R cfg H J \<sigma> (after_event \<sigma> i p s)" "app_process a' = p\<lparr>proc_memory := snd s\<rparr>" "wd' = fst s" for p s
    using that after_event_process [OF assms(2), of p s] unfolding system_run_def
    by (intro exI [of _ "after_event \<sigma> i p s"]) (auto simp: after_event_def)
  from assms(1) have "app_moves R cfg H J B e (a, wd) = Moves (a', wd')" by (simp add: app_step_moves)
  then show ?thesis
  proof (cases rule: app_moves_cases)
    case (server x h s)
    show ?thesis
    proof (cases "\<exists>q. x = Answer_Request q")
      case True
      then obtain q where x: "x = Answer_Request q" ..
      define t where "t = snd (ServeHTTP R cfg H J (rq_first_of q) (rq_fetch q) (rq_ping q) (rq_env q) (rq_request q) (rq_snapshot q)
          (process_server \<sigma> (processes \<sigma> ! i)))"
      have "system_step R cfg H J \<sigma> (after_request \<sigma> i t)"
        by (rule request [OF assms(2)]) (simp add: t_def prod_eq_iff)
      moreover have "s = (wd\<lparr>world_db := server_db t\<rparr>, \<lparr>mem_auth = server_auth t, mem_metrics = server_metrics t\<rparr>)"
        using server(2) assms(3,4) x by (auto simp: serve_request_def process_server_def t_def Let_def split: if_splits)
      ultimately show ?thesis
        using server(3) assms(2-4) unfolding system_run_def
        by (intro exI [of _ "after_request \<sigma> i t"]) (auto simp: after_request_def in_process_def)
    next
      case False
      then have "s = (wd, proc_memory (app_process a))" using server(2) by (cases x) (auto split: if_splits)
      then show ?thesis using still server(3) by (simp add: in_process_def)
    qed
  next
    case (sqs x w s)
    then show ?thesis
      using event [OF sqs_event [OF assms(2) refl]] assms(3,4) by (auto simp: in_process_def)
  next
    case (outbox x w s)
    then show ?thesis
      using event [OF outbox_event [OF assms(2) refl]] assms(3,4) by (auto simp: in_process_def)
  next
    case (pending x w s)
    then show ?thesis
      using event [OF pending_event [OF assms(2) refl]] assms(3,4) by (auto simp: in_process_def)
  qed (use still in auto)
qed

text \<open>The process with which a run begins is the one that the system starts when its first hook succeeds.\<close>

lemma new_app_process:
  "new_app cfg B = Inr a \<Longrightarrow> OnStart B PoolHook = Inr () \<Longrightarrow> start_process cfg B = Inr (app_process a)"
  by (auto simp: new_app_def start_process_def split: sum.splits prod.splits)

text \<open>A run, executable, of a process that is alone.\<close>

fun run_app :: "runtime \<Rightarrow> config \<Rightarrow> http_lib \<Rightarrow> jwt_lib \<Rightarrow> boot_env \<Rightarrow> app_event list \<Rightarrow> app \<times> world \<Rightarrow> (app \<times> world) outcome" where
  "run_app R cfg H J B [] c = Moves c"
| "run_app R cfg H J B (e # es) c =
     (case app_step R cfg H J B e c of
        Blocked \<Rightarrow> Blocked
      | Crashes err \<Rightarrow> Crashes err
      | Moves c' \<Rightarrow> run_app R cfg H J B es c')"

lemma run_app_from:
  "app_run R cfg H J B c es c1 \<Longrightarrow> run_app R cfg H J B es' c1 = Moves c2 \<Longrightarrow> app_run R cfg H J B c (es @ es') c2"
proof (induction es' arbitrary: es c1)
  case (Cons e es')
  from Cons.prems(2) obtain c' where c': "app_step R cfg H J B e c1 = Moves c'" "run_app R cfg H J B es' c' = Moves c2"
    by (auto split: outcome.splits)
  then show ?case using Cons.IH [OF app_own [OF Cons.prems(1) c'(1)]] by simp
qed simp

lemma run_app_run: "run_app R cfg H J B es c = Moves c' \<Longrightarrow> app_run R cfg H J B c es c'"
  using run_app_from [OF app_starts] by fastforce

end
