(* ===== verification/Json_Text.thy ===== *)
theory Json_Text
  imports Sql_Store Go_Json
begin

text \<open>
  Everything the program marshals is text that PostgreSQL accepts in a \<open>TEXT\<close> column: well-formed UTF-8 without
  the zero byte, whatever the bytes of the strings in it are.
\<close>

lemma rune_len_le: "rune_len s \<le> length s"
  by (cases s) (auto simp: rune_len.simps Let_def split: list.splits)

lemma tail_cases:
  obtains "r = []" | b where "r = [b]" | b c where "r = [b, c]" | b c d q where "r = b # c # d # q"
  by (metis neq_Nil_conv)

lemma rune_len_append:
  assumes "0 < rune_len s"
  shows "rune_len (s @ t) = rune_len s"
proof (cases s)
  case (Cons a r)
  then show ?thesis
    using assms by (cases r rule: tail_cases) (simp_all add: rune_len.simps Let_def split: if_splits)
qed (use assms in simp)

lemma valid_utf8_append: "valid_utf8 s \<Longrightarrow> valid_utf8 t \<Longrightarrow> valid_utf8 (s @ t)"
proof (induction s rule: valid_utf8.induct)
  case (1 s)
  show ?case
  proof (cases "s = []")
    case False
    then have r: "0 < rune_len s" "valid_utf8 (drop (rune_len s) s)"
      using "1.prems"(1) by (simp_all add: valid_utf8.simps [of s] split: if_splits)
    then have "valid_utf8 (drop (rune_len s) s @ t)" using "1.IH" False "1.prems"(2) by simp
    then show ?thesis
      using r False rune_len_le [of s] rune_len_append [of s t] by (simp add: valid_utf8.simps [of "s @ t"])
  qed (use 1 in simp)
qed

lemma pg_text_append [simp]: "pg_text s \<Longrightarrow> pg_text t \<Longrightarrow> pg_text (s @ t)"
  by (auto simp: pg_text_def valid_utf8_append)

lemma pg_text_graphic: "is_graphic s \<Longrightarrow> pg_text s"
  using graphic_pg_short [of s "length s"] by (simp add: pg_short_def)

lemma pg_text_Cons: "32 < byte_val c \<Longrightarrow> byte_val c < 128 \<Longrightarrow> pg_text s \<Longrightarrow> pg_text (c # s)"
  using pg_text_append [of "[c]" s] pg_text_graphic [of "[c]"] by (simp add: is_graphic_def)

lemma hex_digit_graphic: "d < 16 \<Longrightarrow> 32 < byte_val (hex_digit d) \<and> byte_val (hex_digit d) < 128"
  by (simp add: hex_digit_def)

lemma json_ascii_text:
  assumes "byte_val c < 128"
  shows "pg_text (json_ascii c)"
proof -
  have q: "byte_val (CHR 0x5C) = 92" "byte_val (CHR ''u'') = 117" "byte_val (CHR ''0'') = 48" "byte_val (CHR ''b'') = 98"
    "byte_val (CHR ''f'') = 102" "byte_val (CHR ''n'') = 110" "byte_val (CHR ''r'') = 114" "byte_val (CHR ''t'') = 116"
    by (simp_all add: byte_val_def)
  have e: "pg_text []" by (simp add: pg_text_def)
  have c32: "pg_text [c]" if "\<not> byte_val c < 32"
  proof (cases "byte_val c = 32")
    case True
    then show ?thesis using valid_utf8_ascii [of "[c]"] byte_val_byte_of [of 0]
      by (auto simp: pg_text_def is_ascii_def)
  next
    case False
    then show ?thesis using that assms pg_text_graphic [of "[c]"] by (simp add: is_graphic_def)
  qed
  have h: "byte_val c div 16 < 16" using assms by (simp add: less_mult_imp_div_less)
  have "pg_text (esc_u00 c)"
    using hex_digit_graphic [OF h] hex_digit_graphic [of "byte_val c mod 16"] by (simp add: esc_u00_def pg_text_Cons q e)
  then show ?thesis
    using c32 assms by (auto simp: json_ascii_def Let_def q e intro!: pg_text_Cons)
qed

lemma rune_take:
  assumes "\<not> byte_val (hd s) < 128" "s \<noteq> []" "rune_len s \<noteq> 0"
  shows "rune_len (take (rune_len s) s) = rune_len s" "list_all (\<lambda>c. 128 \<le> byte_val c) (take (rune_len s) s)"
proof -
  obtain a r where s: "s = a # r" using assms(2) by (cases s) auto
  have a: "128 \<le> byte_val a" using assms(1) s by simp
  show "rune_len (take (rune_len s) s) = rune_len s"
    using a assms(3) by (auto simp: s rune_len.simps Let_def split: list.splits if_splits)
  have c: "cont_byte c \<Longrightarrow> 128 \<le> byte_val c" for c by (simp add: cont_byte_def)
  show "list_all (\<lambda>c. 128 \<le> byte_val c) (take (rune_len s) s)"
    using a by (auto simp: s rune_len.simps Let_def dest!: c split: list.splits if_splits)
qed

lemma rune_take_text:
  assumes "\<not> byte_val (hd s) < 128" "s \<noteq> []" "rune_len s \<noteq> 0"
  shows "pg_text (take (rune_len s) s)"
proof -
  let ?t = "take (rune_len s) s"
  have "rune_len ?t = length ?t" using rune_take(1) [OF assms] rune_len_le [of s] by simp
  then have "valid_utf8 ?t" using assms(3) rune_len_le [of s] by (simp add: valid_utf8.simps [of ?t])
  moreover have "byte_of 0 \<notin> set ?t" using rune_take(2) [OF assms] by (auto simp: list_all_iff)
  ultimately show ?thesis by (simp add: pg_text_def)
qed

lemma escapes_text:
  "pg_text (CHR 0x5C # ''ufffd'')" "pg_text (CHR 0x5C # ''u2028'')" "pg_text (CHR 0x5C # ''u2029'')"
  by (rule pg_text_graphic, simp add: is_graphic_def byte_val_def)+

lemma json_chars_text: "pg_text (json_chars s)"
proof (induction s rule: json_chars.induct)
  case (1 s)
  show ?case
  proof (cases "s = []")
    case True
    then show ?thesis by (simp add: json_chars.simps pg_text_def)
  next
    case ne: False
    show ?thesis
    proof (cases "byte_val (hd s) < 128")
      case True
      then show ?thesis using ne 1(1) json_ascii_text by (simp add: json_chars.simps [of s])
    next
      case high: False
      show ?thesis
        using ne high 1(2-) rune_take_text [OF high ne] pg_text_append [OF escapes_text(1)]
          pg_text_append [OF escapes_text(2)] pg_text_append [OF escapes_text(3)]
        by (simp add: json_chars.simps [of s])
    qed
  qed
qed

lemma json_string_text: "pg_text (json_string s)"
proof -
  have q: "pg_text [CHR 0x22]" by (rule pg_text_graphic) (simp add: is_graphic_def byte_val_def)
  show ?thesis
    using pg_text_append [OF q pg_text_append [OF json_chars_text [of s] q]] by (simp add: json_string_def)
qed

lemma show_nat_graphic: "is_graphic (show_nat n)"
  using show_nat_digits [of n] by (auto simp: is_graphic_def is_digit_def list_all_iff)

lemma show_int_text: "pg_text (show_int i)"
  using pg_text_graphic [OF show_nat_graphic] pg_text_append [of "''-''" "show_nat (nat (- i))"] pg_text_graphic [of "''-''"]
  by (simp add: show_int_def is_graphic_def byte_val_def)

lemma punctuation_text: "pg_text ''true''" "pg_text ''false''" "pg_text ''{''" "pg_text ''}''" "pg_text '':''" "pg_text '',''" "pg_text []"
  by (rule pg_text_graphic, simp add: is_graphic_def byte_val_def)+

lemma pg_text_punct: "pg_text s \<Longrightarrow> pg_text (CHR ''{'' # s)" "pg_text s \<Longrightarrow> pg_text (CHR '':'' # s)"
  "pg_text s \<Longrightarrow> pg_text (CHR '','' # s)"
  by (rule pg_text_Cons, simp_all add: byte_val_def)+

lemma show_json_text: "pg_text (show_json v)" "pg_text (json_members kvs)"
  by (induction v and kvs rule: show_json_json_members.induct)
    (simp_all add: json_string_text show_int_text punctuation_text pg_text_punct)

lemma marshal_text: "pg_text (marshal_map kvs)" "pg_text (marshal_opaque_struct x)"
  by (simp_all add: marshal_map_def json_map_def show_json_text del: show_json.simps)
    (simp add: marshal_opaque_struct_def pg_text_punct punctuation_text)

end
