(* ===== verification/Demo_Run.thy ===== *)
theory Demo_Run
  imports Service_Machine Resolve_Effects Json_Text
begin

text \<open>
  A concrete run of the service, on which the properties are applied: a wallet is opened, a bet is placed, the bet is
  refunded, and a refund that arrives before its bet waits. The configuration is the one of an empty environment; the
  clock ticks once a reading; nothing fails. The steps are evaluated by the simplifier; the digests stay symbolic.
\<close>

section \<open>The environment\<close>

definition demo_R :: runtime where
  "demo_R = \<lparr>unicode_upper = (\<lambda>s. s), unicode_lower = (\<lambda>s. s), store_time = (\<lambda>t. t)\<rparr>"

definition demo_cfg :: config where
  "demo_cfg = NewConfig demo_R (\<lambda>key. None)"

definition demo_X :: "int \<Rightarrow> txenv" where
  "demo_X start = \<lparr>begin_fault = None, stmt_fault = (\<lambda>n. None), commit_outcome = CommitOk,
     clock = (\<lambda>n. start + int n)\<rparr>"

definition demo_open :: open_wallet_input where
  "demo_open = \<lparr>ow_PlayerID = ''p1'', ow_InitialAmount = ''100.00'', ow_InitialCurrency = ''BRL''\<rparr>"

definition demo_input :: "string \<Rightarrow> string \<Rightarrow> string \<Rightarrow> string \<Rightarrow> input_dto" where
  "demo_input external k amt ref =
     \<lparr>in_ProviderID = ''pp'', in_ExternalTransactionID = external, in_IdempotencyKey = ''k'' @ external,
      in_PlayerID = ''p1'', in_WalletID = ''wal_p1_brl'', in_RoundID = ''r1'', in_GameID = ''g1'', in_Kind = k,
      in_Amount = amt, in_Currency = ''BRL'', in_ReferenceExternalID = ref\<rparr>"

lemma demo_fault_free: "fault_free (demo_X n)"
  by (simp add: demo_X_def fault_free_def)

section \<open>Evaluation\<close>

text \<open>Texts: numbers, and strings of printable ASCII characters, which every column takes as they are.\<close>

lemma digit_chars:
  "digit_char 0 = CHR ''0''" "digit_char 1 = CHR ''1''" "digit_char (Suc 0) = CHR ''1''" "digit_char 2 = CHR ''2''"
  "digit_char 3 = CHR ''3''" "digit_char 4 = CHR ''4''" "digit_char 5 = CHR ''5''" "digit_char 6 = CHR ''6''"
  "digit_char 7 = CHR ''7''" "digit_char 8 = CHR ''8''" "digit_char 9 = CHR ''9''"
  by (simp_all flip: byte_val_inject) (simp_all add: byte_val_def)

lemma show_nat_eval:
  "show_nat 0 = ''0''"
  "show_nat (Suc 0) = ''1''"
  "show_nat (numeral k) =
     (if numeral k < (10 :: nat) then [digit_char (numeral k)]
      else show_nat (numeral k div 10) @ [digit_char (numeral k mod 10)])"
  by (simp_all add: show_nat.simps digit_chars)

lemma graphic_columns:
  "is_graphic s \<Longrightarrow> length s \<le> n \<Longrightarrow> pg_fits n s" "is_graphic s \<Longrightarrow> length s \<le> n \<Longrightarrow> pg_trunc n s = s"
  "is_graphic s \<Longrightarrow> pg_text s"
  using graphic_pg_short [of s n] graphic_pg_short [of s "length s"]
  by (simp_all add: pg_short_fits pg_short_trunc pg_short_def)

lemma digest_columns: "pg_fits 64 (sha256_hex s)" "pg_trunc 64 (sha256_hex s) = sha256_hex s"
  by (simp_all add: graphic_columns sha256_hex_graphic)

lemmas text_eval =
  digit_chars show_nat_eval show_int_def graphic_columns digest_columns is_graphic_def is_ascii_def byte_val_def
  upper_byte_def lower_byte_def to_upper_def to_lower_def

lemma payload_text: "pg_text (opening_payload w m)" "pg_text (balance_changed_payload R t w dir b)" "pg_text ''{}''"
  by (simp_all only: opening_payload_def balance_changed_payload_def marshal_text)
    (simp add: pg_text_punct punctuation_text)

lemmas json_eval = payload_text marshal_opaque_struct_def

lemmas money_eval =
  NewMoneyFromString_spec decimal_regex_def is_digit_def decimal_value_def checked_money_def in_int64_def digits_val_def
  digit_val_def money_string_nonneg cents_def show_pad2_def NewInternalMoney_def IsZero_def IsNegative_def

lemmas row_eval =
  refuse_def columns_fit_def stored_wallet_def stored_tx_def stored_ledger_def stored_inbox_def stored_outbox_def
  wallet_check_def tx_check_def ledger_check_def outbox_check_def owner_key_def external_key_def ledger_key_def
  inbox_key_def tx_columns_def insert_wallet_def insert_tx_def insert_ledger_def insert_inbox_def insert_outbox_def
  update_wallet_def update_tx_status_def update_where_def wallet_row_of_def tx_row_of_def ledger_row_of_def outbox_row_of_def
  wallet_of_row_def scan_tx_def null_if_empty_def empty_if_null_def wallet_by_id_def tx_by_external_def tx_by_key_def
  tx_by_id_def kind_defs status_defs

lemmas statement_eval =
  ExecuteInTransaction_def act_run exec_stmt_def sql_exec_def sql_query_def wrap_err_def Wallet_Save_def Wallet_Update_def
  FindByIDWithLock_def FindByExternalIDTx_def FindByIdempotencyKey_def FindByIDForUpdate_def scanOne_def
  SaveWithRetryAt_def Tx_Save_def UpdateStatusWithRetryAt_def UpdateStatus_def SaveLedgerEntry_def SaveOutbox_def SaveInbox_def

lemma byte_chars:
  "byte_of 98 = CHR ''b''" "byte_of 114 = CHR ''r''" "byte_of 108 = CHR ''l''"
  by (simp_all flip: byte_val_inject) (simp_all add: byte_val_def)

lemma demo_currencies: "SupportedCurrencies demo_cfg = [''BRL'']"
  by (simp add: demo_cfg_def demo_R_def NewConfig_def Let_def getEnv_def text_eval)

lemmas open_eval =
  OpenWallet_Execute_def wallet_id_for_def NewWallet_def open_body_def opening_wager_def RehydrateWagerTransaction_def
  CalculateAndSetPayloadHash_def saveOutbox_def empty_database_def

lemmas process_eval =
  ProcessTransaction_def ProcessTransactionWithInbox_def prepare_wager_def internal_tx_id_def NewWagerTransaction_def
  external_kind_def check_amount_def CalculateAndSetPayloadHash_def process_body_def process_checked_def lookupExisting_def
  replay_def process_new_def settle_def park_def reject_bet_def finish_def move_funds_def ledger_entry_for_def
  saveOutboxEvent_def output_of_def RehydrateWagerTransaction_def RehydrateWallet_def
  Debit_cases Credit_cases funds_def moved_def TransitionToProcessed_def TransitionToPendingReference_def IsTerminal_def

lemmas resolve_eval = ResolvePendingReference_def resolve_body_def resolve_credit_def

lemmas demo_eval =
  demo_R_def demo_X_def demo_input_def demo_currencies text_eval json_eval money_eval row_eval byte_chars word_sless_alt
  statement_eval Let_def

text \<open>The continuation of a statement is evaluated after the statement.\<close>

lemma lazy_cong:
  "m = m' \<Longrightarrow> act_bind m f = act_bind m' f"
  "m = m' \<Longrightarrow> act_try m h f = act_try m' h f"
  "exec_stmt g = exec_stmt g" "sql_exec e = sql_exec e" "sql_query ps q = sql_query ps q"
  by simp_all

section \<open>A wallet is opened\<close>

definition demo_opening :: wager where
  "demo_opening = \<lparr>txid = ''tx_opening_wal_p1_brl'', providerID = ''INTERNAL'', externalTransactionID = ''opening_wal_p1_brl'',
     idempotencyKey = ''opening:wal_p1_brl'', payloadHash = '''', walletID = ''wal_p1_brl'', wplayerID = ''p1'',
     roundID = ''INTERNAL'', gameID = ''INTERNAL'', kind = ''OPENING'', wmoney = \<lparr>amount = 10000, currency = ''BRL''\<rparr>,
     referenceExternalID = '''', status = ''PROCESSED'', failureCode = '''', idempotentReplay = False,
     createdAt = 1001, updatedAt = 1002\<rparr>"

definition demo_opening_row :: tx_row where
  "demo_opening_row = tx_row_of demo_R (demo_opening\<lparr>payloadHash := sha256_hex (canonicalJSON demo_opening)\<rparr>) None"

definition demo_wallet :: "int64 \<Rightarrow> int64 \<Rightarrow> int \<Rightarrow> wallet_row" where
  "demo_wallet amt ver upd = \<lparr>w_id = ''wal_p1_brl'', w_player_id = ''p1'', w_currency = ''BRL'', w_amount = amt,
     w_version = ver, w_created_at = 1000, w_updated_at = upd\<rparr>"

definition demo_event :: "string \<Rightarrow> string \<Rightarrow> string \<Rightarrow> string \<Rightarrow> int \<Rightarrow> outbox_row" where
  "demo_event i agg name payload now = \<lparr>o_id = i, o_aggregate_id = agg, o_event_type = name, o_payload = payload,
     o_attempts = 0, o_status = ''PENDING'', o_next_send_at = now, o_created_at = now, o_published_at = None\<rparr>"

definition demo1 :: database where
  "demo1 = \<lparr>wallets = [demo_wallet 10000 1 1000], wager_transactions = [demo_opening_row],
     wallet_ledger_entries =
       [\<lparr>l_id = ''led_tx_opening_wal_p1_brl'', l_wallet_id = ''wal_p1_brl'', l_transaction_id = ''tx_opening_wal_p1_brl'',
         l_direction = ''CREDIT'', l_amount = 10000, l_balance_before = 0, l_balance_after = 10000, l_created_at = 1003\<rparr>],
     inbox_messages = [],
     outbox_events =
       [demo_event ''evt_wal_p1_brl_1004'' ''wal_p1_brl'' ''WALLET_OPENED'' ''{}'' 1004,
        demo_event ''evt_wal_p1_brl_1005'' ''wal_p1_brl'' ''WalletBalanceChanged''
          (opening_payload \<lparr>wid = ''wal_p1_brl'', playerID = ''p1'', balance = \<lparr>amount = 10000, currency = ''BRL''\<rparr>,
             version = 1, wcreatedAt = 1000, wupdatedAt = 1000\<rparr> \<lparr>amount = 10000, currency = ''BRL''\<rparr>) 1005]\<rparr>"

lemmas demo1_eval = demo1_def demo_event_def demo_wallet_def demo_opening_row_def demo_opening_def

lemma demo_opened:
  "OpenWallet_Execute demo_R demo_cfg (demo_X 1000) demo_open empty_database =
     (Inr \<lparr>owo_ID = ''wal_p1_brl'', owo_PlayerID = ''p1'',
           owo_Balance = \<lparr>dto_Amount = ''100.00'', dto_Currency = ''BRL''\<rparr>, owo_Version = 1\<rparr>, demo1)"
  by (simp add: demo_eval open_eval demo_open_def demo1_eval cong: lazy_cong)

section \<open>A bet is placed\<close>

text \<open>A new wager of the run, before its hash is set; its stored row; the ledger entry of a movement.\<close>

definition demo_wager :: "string \<Rightarrow> string \<Rightarrow> int64 \<Rightarrow> string \<Rightarrow> int \<Rightarrow> wager" where
  "demo_wager external k amt ref now =
     \<lparr>txid = ''tx_pp_'' @ external, providerID = ''pp'', externalTransactionID = external, idempotencyKey = ''k'' @ external,
      payloadHash = '''', walletID = ''wal_p1_brl'', wplayerID = ''p1'', roundID = ''r1'', gameID = ''g1'', kind = k,
      wmoney = \<lparr>amount = amt, currency = ''BRL''\<rparr>, referenceExternalID = ref, status = ''PENDING'', failureCode = '''',
      idempotentReplay = False, createdAt = now, updatedAt = now\<rparr>"

definition demo_stored :: "wager \<Rightarrow> string \<Rightarrow> int \<Rightarrow> wager" where
  "demo_stored t st upd = t\<lparr>payloadHash := sha256_hex (canonicalJSON t), status := st, updatedAt := upd\<rparr>"

definition demo_entry :: "string \<Rightarrow> string \<Rightarrow> int64 \<Rightarrow> int64 \<Rightarrow> int64 \<Rightarrow> int \<Rightarrow> ledger_row" where
  "demo_entry i dir amt before after now =
     \<lparr>l_id = ''led_'' @ i, l_wallet_id = ''wal_p1_brl'', l_transaction_id = i, l_direction = dir, l_amount = amt,
      l_balance_before = before, l_balance_after = after, l_created_at = now\<rparr>"

definition demo_bet :: wager where
  "demo_bet = demo_stored (demo_wager ''b1'' ''BET'' 3000 '''' 2000) ''PROCESSED'' 2002"

definition demo_funds :: "int64 \<Rightarrow> int64 \<Rightarrow> int \<Rightarrow> wallet" where
  "demo_funds amt ver upd = \<lparr>wid = ''wal_p1_brl'', playerID = ''p1'', balance = \<lparr>amount = amt, currency = ''BRL''\<rparr>,
     version = ver, wcreatedAt = 1000, wupdatedAt = upd\<rparr>"

definition demo2 :: database where
  "demo2 = demo1\<lparr>wallets := [demo_wallet 7000 2 2001],
     wager_transactions := [demo_opening_row, tx_row_of demo_R demo_bet None],
     wallet_ledger_entries := wallet_ledger_entries demo1 @ [demo_entry ''tx_pp_b1'' ''DEBIT'' 3000 10000 7000 2003],
     outbox_events := outbox_events demo1 @
       [demo_event ''evt_wal_p1_brl_2004'' ''wal_p1_brl'' ''WalletBalanceChanged''
          (balance_changed_payload demo_R demo_bet (demo_funds 7000 2 2001) ''DEBIT'' 10000) 2004,
        demo_event ''evt_tx_pp_b1_2005'' ''tx_pp_b1'' ''WagerTransactionProcessed'' ''{}'' 2005]\<rparr>"

lemmas demo2_eval =
  demo1_eval demo2_def demo_bet_def demo_wager_def demo_stored_def demo_entry_def demo_funds_def

lemma demo_bet_run:
  "ProcessTransaction demo_R demo_cfg (demo_X 2000) (demo_input ''b1'' ''BET'' ''30.00'' '''') demo1 =
     (Inr \<lparr>out_TransactionID = ''tx_pp_b1'', out_Status = ''PROCESSED'',
           out_Balance = \<lparr>dto_Amount = ''70.00'', dto_Currency = ''BRL''\<rparr>, out_IdempotentReplay = False\<rparr>, demo2)"
  by (simp add: demo_eval process_eval demo2_eval cong: lazy_cong)

section \<open>A refund\<close>

text \<open>A refund of 50.00 for the bet of 30.00, which the service accepts.\<close>

definition demo_refund :: "string \<Rightarrow> int \<Rightarrow> int \<Rightarrow> wager" where
  "demo_refund st now upd = demo_stored (demo_wager ''f1'' ''REFUND'' 5000 ''b1'' now) st upd"

definition demo3 :: database where
  "demo3 = demo2\<lparr>wallets := [demo_wallet 12000 3 3001],
     wager_transactions := wager_transactions demo2 @ [tx_row_of demo_R (demo_refund ''PROCESSED'' 3000 3002) None],
     wallet_ledger_entries := wallet_ledger_entries demo2 @ [demo_entry ''tx_pp_f1'' ''CREDIT'' 5000 7000 12000 3003],
     outbox_events := outbox_events demo2 @
       [demo_event ''evt_wal_p1_brl_3004'' ''wal_p1_brl'' ''WalletBalanceChanged''
          (balance_changed_payload demo_R (demo_refund ''PROCESSED'' 3000 3002) (demo_funds 12000 3 3001) ''CREDIT'' 7000) 3004,
        demo_event ''evt_tx_pp_f1_3005'' ''tx_pp_f1'' ''WagerTransactionProcessed'' ''{}'' 3005]\<rparr>"

lemma demo_refund_run:
  "ProcessTransaction demo_R demo_cfg (demo_X 3000) (demo_input ''f1'' ''REFUND'' ''50.00'' ''b1'') demo2 =
     (Inr \<lparr>out_TransactionID = ''tx_pp_f1'', out_Status = ''PROCESSED'',
           out_Balance = \<lparr>dto_Amount = ''120.00'', dto_Currency = ''BRL''\<rparr>, out_IdempotentReplay = False\<rparr>, demo3)"
  by (simp add: demo_eval process_eval demo2_eval demo3_def demo_refund_def cong: lazy_cong)

section \<open>The refund arrives first\<close>

definition demo_parked :: database where
  "demo_parked = demo1\<lparr>
     wager_transactions := [demo_opening_row,
       tx_row_of demo_R (demo_refund ''PENDING_REFERENCE'' 1500 1501) (Some 5000001502)],
     outbox_events := outbox_events demo1 @
       [demo_event ''evt_tx_pp_f1_1503'' ''tx_pp_f1'' ''WagerTransactionPendingReference'' ''{}'' 1503]\<rparr>"

lemma demo_parked_run:
  "ProcessTransaction demo_R demo_cfg (demo_X 1500) (demo_input ''f1'' ''REFUND'' ''50.00'' ''b1'') demo1 =
     (Inr \<lparr>out_TransactionID = ''tx_pp_f1'', out_Status = ''PENDING_REFERENCE'',
           out_Balance = \<lparr>dto_Amount = ''100.00'', dto_Currency = ''BRL''\<rparr>, out_IdempotentReplay = False\<rparr>, demo_parked)"
  by (simp add: demo_eval process_eval demo2_eval demo_parked_def demo_refund_def cong: lazy_cong)

definition demo_parked_bet :: database where
  "demo_parked_bet = demo_parked\<lparr>wallets := [demo_wallet 7000 2 2001],
     wager_transactions := wager_transactions demo_parked @ [tx_row_of demo_R demo_bet None],
     wallet_ledger_entries := wallet_ledger_entries demo1 @ [demo_entry ''tx_pp_b1'' ''DEBIT'' 3000 10000 7000 2003],
     outbox_events := outbox_events demo_parked @
       [demo_event ''evt_wal_p1_brl_2004'' ''wal_p1_brl'' ''WalletBalanceChanged''
          (balance_changed_payload demo_R demo_bet (demo_funds 7000 2 2001) ''DEBIT'' 10000) 2004,
        demo_event ''evt_tx_pp_b1_2005'' ''tx_pp_b1'' ''WagerTransactionProcessed'' ''{}'' 2005]\<rparr>"

lemma demo_parked_bet_run:
  "ProcessTransaction demo_R demo_cfg (demo_X 2000) (demo_input ''b1'' ''BET'' ''30.00'' '''') demo_parked =
     (Inr \<lparr>out_TransactionID = ''tx_pp_b1'', out_Status = ''PROCESSED'',
           out_Balance = \<lparr>dto_Amount = ''70.00'', dto_Currency = ''BRL''\<rparr>, out_IdempotentReplay = False\<rparr>, demo_parked_bet)"
  by (simp add: demo_eval process_eval demo2_eval demo_parked_def demo_parked_bet_def demo_refund_def cong: lazy_cong)

text \<open>The worker resolves it.\<close>

definition demo_resolved :: database where
  "demo_resolved = demo_parked_bet\<lparr>wallets := [demo_wallet 12000 3 3000],
     wager_transactions := [demo_opening_row, tx_row_of demo_R (demo_refund ''PROCESSED'' 1500 3001) None,
       tx_row_of demo_R demo_bet None],
     wallet_ledger_entries := wallet_ledger_entries demo_parked_bet @ [demo_entry ''tx_pp_f1'' ''CREDIT'' 5000 7000 12000 3002],
     outbox_events := outbox_events demo_parked_bet @
       [demo_event ''evt_tx_pp_f1_3003'' ''tx_pp_f1'' ''WagerTransactionProcessed'' ''{}'' 3003,
        demo_event ''evt_wal_p1_brl_3004'' ''wal_p1_brl'' ''WalletBalanceChanged''
          (balance_changed_payload demo_R (demo_refund ''PROCESSED'' 1500 3001) (demo_funds 12000 3 3000) ''CREDIT'' 7000) 3004]\<rparr>"

lemma demo_resolve_run:
  "ResolvePendingReference demo_R (demo_X 3000) ''tx_pp_f1'' demo_parked_bet = (Inr (), demo_resolved)"
  by (simp add: demo_eval process_eval resolve_eval demo2_eval demo_parked_def demo_parked_bet_def demo_resolved_def
      demo_refund_def cong: lazy_cong)

section \<open>Reachability\<close>

lemma demo1_reachable: "reachable demo_R demo_cfg demo1"
  unfolding reachable_def by (rule run_step) (rule open_step [OF demo_opened])

lemma demo2_run: "service_run demo_R demo_cfg demo1 demo2"
  using demo_bet_run unfolding ProcessTransaction_def by (rule run_step [OF wager_step])

lemma demo3_run: "service_run demo_R demo_cfg demo2 demo3"
  using demo_refund_run unfolding ProcessTransaction_def by (rule run_step [OF wager_step])

lemma demo2_reachable: "reachable demo_R demo_cfg demo2"
  by (rule reachable_run [OF demo1_reachable demo2_run])

lemma demo3_reachable: "reachable demo_R demo_cfg demo3"
  by (rule reachable_run [OF demo2_reachable demo3_run])

lemma demo_parked_reachable: "reachable demo_R demo_cfg demo_parked"
  using demo_parked_run unfolding ProcessTransaction_def
  by (rule reachable_run [OF demo1_reachable run_step [OF wager_step]])

lemma demo_parked_bet_reachable: "reachable demo_R demo_cfg demo_parked_bet"
  using demo_parked_bet_run unfolding ProcessTransaction_def
  by (rule reachable_run [OF demo_parked_reachable run_step [OF wager_step]])

end
