(* ===== verification/Json_Reading.thy ===== *)
theory Json_Reading
  imports Go_Json_Decode Json_Text
begin

text \<open>
  Reading inverts writing: the decoder of \<open>encoding/json\<close> reads what its encoder has written of strings that are well-formed
  UTF-8, and every string that it returns is well-formed, whatever bytes the text holds.
\<close>

section \<open>Strings\<close>

text \<open>The text \<open>w\<close> stands for \<open>t\<close> inside a string.\<close>

definition reads :: "string \<Rightarrow> string \<Rightarrow> bool" where
  "reads w t \<longleftrightarrow> (\<forall>r. read_string (w @ r) = map_option (\<lambda>(a, b). (t @ a, b)) (read_string r))"

lemma reads_append: "reads w t \<Longrightarrow> reads w' t' \<Longrightarrow> reads (w @ w') (t @ t')"
  by (simp add: reads_def option.map_comp o_def prod.case_distrib case_prod_unfold)

lemma reads_Nil: "reads [] []"
  by (simp add: reads_def case_prod_unfold option.map_ident)

lemma reads_plain: "32 \<le> byte_val c \<Longrightarrow> byte_val c < 128 \<Longrightarrow> byte_val c \<noteq> 34 \<Longrightarrow> byte_val c \<noteq> 92 \<Longrightarrow> reads [c] [c]"
  by (simp add: reads_def read_string.simps [of "c # _"])

lemma reads_rune:
  assumes "\<not> byte_val (hd s) < 128" "s \<noteq> []" "rune_len s \<noteq> 0"
  shows "reads (take (rune_len s) s) (take (rune_len s) s)"
  unfolding reads_def
proof
  fix r
  let ?t = "take (rune_len s) s"
  have t: "rune_len ?t = rune_len s" "length ?t = rune_len s" "?t \<noteq> []" "hd ?t = hd s"
    using rune_take(1) [OF assms] rune_len_le [of s] assms(2,3) by (simp_all add: hd_conv_nth)
  have n: "rune_len (?t @ r) = rune_len s" using rune_len_append [of ?t r] t(1) assms(3) by simp
  have h: "hd (?t @ r) = hd s" using t(3,4) by (simp add: hd_append)
  have "read_string (?t @ r) = map_option (\<lambda>(a, q). (take (rune_len s) (?t @ r) @ a, q)) (read_string (drop (rune_len s) (?t @ r)))"
    using assms(1,3) t(3) unfolding read_string.simps [of "?t @ r"] n h by (simp add: not_less)
  also have "take (rune_len s) (?t @ r) = ?t" using t(2) by simp
  also have "drop (rune_len s) (?t @ r) = r" using t(2) by simp
  finally show "read_string (?t @ r) = map_option (\<lambda>(a, b). (?t @ a, b)) (read_string r)" .
qed

lemma reads_short: "byte_val c \<noteq> 117 \<Longrightarrow> short_escape c = Some x \<Longrightarrow> reads [CHR 0x5C, c] [x]"
  by (simp add: reads_def read_string.simps [of "CHR 0x5C # _"] byte_val_def)

lemma reads_u:
  assumes "hex4 u = Some n" "length u = 4" "n < 0xD800 \<or> 0xE000 \<le> n"
  shows "reads (CHR 0x5C # CHR ''u'' # u) (encode_rune n)"
proof -
  obtain a b c d where u: "u = [a, b, c, d]"
    using assms(2) by (auto simp: length_Suc_conv eval_nat_numeral)
  have "hex4 (u @ r) = Some n" "unescape_u n q = (encode_rune n, 0)" for r q
    using assms by (auto simp: u unescape_u_def)
  then show ?thesis
    by (simp add: reads_def read_string.simps [of "CHR 0x5C # _"] u byte_val_def)
qed

lemma hex_val_digit: "d < 16 \<Longrightarrow> hex_val (hex_digit d) = Some d"
  by (simp add: hex_val_def hex_digit_def)

lemma reads_esc:
  assumes "byte_val c < 128"
  shows "reads (esc_u00 c) [c]"
proof -
  let ?u = "[CHR ''0'', CHR ''0'', hex_digit (byte_val c div 16), hex_digit (byte_val c mod 16)]"
  have "hex_val (CHR ''0'') = Some 0" by (simp add: hex_val_def byte_val_def)
  then have "hex4 ?u = Some (byte_val c)"
    using assms by (simp add: hex_val_digit)
  then show ?thesis using reads_u [of ?u] assms by (simp add: esc_u00_def encode_rune_def)
qed

lemma reads_ascii:
  assumes "byte_val c < 128"
  shows "reads (json_ascii c) [c]"
proof -
  have short: "reads [CHR 0x5C, CHR ''b''] [byte_of 8]" "reads [CHR 0x5C, CHR ''f''] [byte_of 12]"
    "reads [CHR 0x5C, CHR ''n''] [byte_of 10]" "reads [CHR 0x5C, CHR ''r''] [byte_of 13]"
    "reads [CHR 0x5C, CHR ''t''] [byte_of 9]"
    by (rule reads_short, simp_all add: short_escape_def byte_val_def)+
  have c: "byte_val c = n \<Longrightarrow> c = byte_of n" for n by (metis byte_of_byte_val)
  have quote: "reads [CHR 0x5C, c] [c]" if "byte_val c = 34 \<or> byte_val c = 92"
    using that by (intro reads_short) (auto simp: short_escape_def)
  show ?thesis
    using assms short quote reads_esc [OF assms] reads_plain [of c]
    by (auto simp: json_ascii_def Let_def dest!: c)
qed

text \<open>The two separators that the encoder escapes.\<close>

lemma separator:
  assumes "prefix (map byte_of [0xE2, 0x80, x]) s" "0x80 \<le> x" "x \<le> 0xBF"
  shows "rune_len s = 3 \<and> take 3 s = map byte_of [0xE2, 0x80, x]"
  using assms by (auto simp: prefix_def rune_len.simps Let_def cont_byte_def)

lemma reads_separators:
  "reads (CHR 0x5C # ''u2028'') (map byte_of [0xE2, 0x80, 0xA8])"
  "reads (CHR 0x5C # ''u2029'') (map byte_of [0xE2, 0x80, 0xA9])"
proof -
  have "hex4 ''2028'' = Some 0x2028" "hex4 ''2029'' = Some 0x2029" by (simp_all add: hex_val_def byte_val_def)
  moreover have "encode_rune 0x2028 = map byte_of [0xE2, 0x80, 0xA8]" "encode_rune 0x2029 = map byte_of [0xE2, 0x80, 0xA9]"
    by (simp_all add: encode_rune_def)
  ultimately show "reads (CHR 0x5C # ''u2028'') (map byte_of [0xE2, 0x80, 0xA8])"
    "reads (CHR 0x5C # ''u2029'') (map byte_of [0xE2, 0x80, 0xA9])"
    using reads_u [of "''2028''" "0x2028"] reads_u [of "''2029''" "0x2029"] by simp_all
qed

lemma reads_json_chars: "valid_utf8 s \<Longrightarrow> reads (json_chars s) s"
proof (induction s rule: json_chars.induct)
  case (1 s)
  show ?case
  proof (cases "s = []")
    case True
    then show ?thesis by (simp add: json_chars.simps reads_Nil)
  next
    case ne: False
    show ?thesis
    proof (cases "byte_val (hd s) < 128")
      case True
      obtain a r where s: "s = a # r" using ne by (cases s) auto
      have "valid_utf8 r" using "1.prems" True s by (simp add: valid_utf8.simps [of "a # r"])
      then have "reads (json_chars r) r" using "1.IH"(1) ne True s by simp
      from reads_append [OF reads_ascii this] show ?thesis using True s by (simp add: json_chars.simps [of "a # r"])
    next
      case high: False
      let ?n = "rune_len s"
      have len: "?n \<noteq> 0" and rest: "valid_utf8 (drop ?n s)"
        using "1.prems" ne by (simp_all add: valid_utf8.simps [of s] split: if_splits)
      consider (ls) "prefix (map byte_of [0xE2, 0x80, 0xA8]) s"
        | (ps) "\<not> prefix (map byte_of [0xE2, 0x80, 0xA8]) s" "prefix (map byte_of [0xE2, 0x80, 0xA9]) s"
        | (other) "\<not> prefix (map byte_of [0xE2, 0x80, 0xA8]) s" "\<not> prefix (map byte_of [0xE2, 0x80, 0xA9]) s" by blast
      then show ?thesis
      proof cases
        case ls
        have n: "?n = 3" "take 3 s = map byte_of [0xE2, 0x80, 0xA8]" using separator [OF ls] by simp_all
        have "reads (json_chars (drop 3 s)) (drop 3 s)" using "1.IH"(3) ne high len rest ls n by simp
        from reads_append [OF reads_separators(1) this, folded n(2), unfolded append_take_drop_id] show ?thesis
          using ls ne high len by (simp add: json_chars.simps [of s])
      next
        case ps
        have n: "?n = 3" "take 3 s = map byte_of [0xE2, 0x80, 0xA9]" using separator [OF ps(2)] by simp_all
        have "reads (json_chars (drop 3 s)) (drop 3 s)" using "1.IH"(4) ne high len rest ps n by simp
        from reads_append [OF reads_separators(2) this, folded n(2), unfolded append_take_drop_id] show ?thesis
          using ps ne high len by (simp add: json_chars.simps [of s])
      next
        case other
        have "reads (json_chars (drop ?n s)) (drop ?n s)" using "1.IH"(5) [OF ne high len other] rest by simp
        from reads_append [OF reads_rune [OF high ne len] this] show ?thesis
          using other ne high len by (simp add: json_chars.simps [of s])
      qed
    qed
  qed
qed

text \<open>A string that the encoder has written is read back, with what follows its closing quote.\<close>

lemma read_json_string:
  assumes "valid_utf8 s"
  shows "read_string (json_chars s @ CHR 0x22 # r) = Some (s, r)"
proof -
  have "read_string (CHR 0x22 # r) = Some ([], r)" by (simp add: read_string.simps [of "CHR 0x22 # _"] byte_val_def)
  then show ?thesis using reads_json_chars [OF assms] by (simp add: reads_def)
qed

lemma json_string_cancel:
  assumes "valid_utf8 s" "valid_utf8 s'" "json_string s @ r = json_string s' @ r'"
  shows "s = s' \<and> r = r'"
proof -
  have "json_chars s @ CHR 0x22 # r = json_chars s' @ CHR 0x22 # r'" using assms(3) by (simp add: json_string_def)
  then have "read_string (json_chars s @ CHR 0x22 # r) = read_string (json_chars s' @ CHR 0x22 # r')" by (rule arg_cong)
  then show ?thesis unfolding read_json_string [OF assms(1)] read_json_string [OF assms(2)] by simp
qed

section \<open>Values\<close>

text \<open>The document that a value is written as, the depth of its objects, and that its strings are well-formed UTF-8.\<close>

fun doc_of :: "json_value \<Rightarrow> json_doc" and docs_of :: "(string \<times> json_value) list \<Rightarrow> (string \<times> json_doc) list" where
  "doc_of (JString s) = DString s"
| "doc_of (JInt i) = DNumber (show_int i)"
| "doc_of (JBool b) = DBool b"
| "doc_of (JObject kvs) = DObject (docs_of kvs)"
| "docs_of [] = []"
| "docs_of ((k, v) # kvs) = (k, doc_of v) # docs_of kvs"

fun nesting :: "json_value \<Rightarrow> nat" and nestings :: "(string \<times> json_value) list \<Rightarrow> nat" where
  "nesting (JObject kvs) = Suc (nestings kvs)"
| "nesting v = 0"
| "nestings [] = 0"
| "nestings ((k, v) # kvs) = max (nesting v) (nestings kvs)"

fun utf8_value :: "json_value \<Rightarrow> bool" and utf8_members :: "(string \<times> json_value) list \<Rightarrow> bool" where
  "utf8_value (JString s) = valid_utf8 s"
| "utf8_value (JInt i) = True"
| "utf8_value (JBool b) = True"
| "utf8_value (JObject kvs) = utf8_members kvs"
| "utf8_members [] = True"
| "utf8_members ((k, v) # kvs) = (valid_utf8 k \<and> utf8_value v \<and> utf8_members kvs)"

text \<open>What may follow a value: a number goes on with any of these bytes.\<close>

definition ends_value :: "string \<Rightarrow> bool" where
  "ends_value r \<longleftrightarrow> r = [] \<or> \<not> is_digit (hd r) \<and> hd r \<notin> {CHR ''.'', CHR ''e'', CHR ''E''}"

lemma read_digits_all:
  assumes "list_all is_digit ds" "ds \<noteq> []" "r = [] \<or> \<not> is_digit (hd r)"
  shows "read_digits (ds @ r) = Some (ds, r)"
proof -
  have "takeWhile is_digit r = []" "dropWhile is_digit r = r" using assms(3) by (cases r; auto)+
  then show ?thesis
    using assms(1,2) by (simp add: read_digits_def list_all_iff takeWhile_append2 dropWhile_append2)
qed

lemma show_nat_zero: "hd (show_nat n) = CHR ''0'' \<Longrightarrow> show_nat n = ''0''"
proof (induction n rule: show_nat.induct)
  case (1 n)
  show ?case
  proof (cases "n < 10")
    case True
    then have n: "show_nat n = [digit_char n]" by (simp add: show_nat.simps [of n])
    then show ?thesis using "1.prems" by simp
  next
    case False
    have "show_nat (n div 10) = ''0''" using 1 False by (simp add: show_nat.simps [of n] hd_append)
    then have "n div 10 = 0" using digits_val_show_nat [of "n div 10"] by (simp add: digit_val_def byte_val_def)
    then show ?thesis using False by simp
  qed
qed

lemma read_integer_nat:
  assumes "ends_value r"
  shows "read_integer (show_nat n @ r) = Some (show_nat n, r)"
proof -
  have r: "r = [] \<or> \<not> is_digit (hd r)" using assms by (auto simp: ends_value_def)
  obtain c ds where s: "show_nat n = c # ds" using show_nat_nonempty [of n] by (cases "show_nat n") auto
  show ?thesis
  proof (cases "c = CHR ''0''")
    case True
    then have "ds = []" using show_nat_zero [of n] s by simp
    then show ?thesis using True by (simp add: read_integer_def s)
  next
    case False
    then show ?thesis
      using read_digits_all [OF show_nat_digits show_nat_nonempty r, of n] by (simp add: read_integer_def s)
  qed
qed

lemma read_number_int:
  assumes "ends_value r"
  shows "read_number (show_int i @ r) = Some (show_int i, r)"
proof -
  have tail: "read_fraction r = Some ([], r)" "read_exponent r = Some ([], r)"
    using assms by (auto simp: ends_value_def read_fraction_def read_exponent_def split: list.split)
  show ?thesis
  proof (cases "i < 0")
    case True
    then show ?thesis using read_integer_nat [OF assms] tail by (simp add: read_number_def show_int_def)
  next
    case False
    obtain c q where s: "show_nat (nat i) = c # q" using show_nat_nonempty [of "nat i"] by (cases "show_nat (nat i)") auto
    then have "c \<noteq> CHR ''-''" using show_nat_digits [of "nat i"] by auto
    then show ?thesis
      using False read_integer_nat [OF assms, of "nat i"] tail by (simp add: read_number_def show_int_def s)
  qed
qed

lemma no_space: "skip_spaces (c # r) = c # r" if "byte_val c \<notin> {9, 10, 13, 32}"
  using that by (simp add: skip_spaces_def json_space_def)

lemma read_written_key:
  assumes "valid_utf8 k"
  shows "read_key (json_string k @ CHR '':'' # r) = Some (k, r)"
  using read_json_string [OF assms, of "CHR '':'' # r"]
  by (simp add: read_key_def json_string_def no_space byte_val_def)

lemma read_written_string:
  assumes "valid_utf8 t"
  shows "read_value d (json_string t @ r) = Some (DString t, r)"
  using read_json_string [OF assms, of r]
  by (simp add: read_value.simps [of d "CHR 0x22 # _"] json_string_def no_space byte_val_def read_scalar_def)

lemma read_written_int:
  assumes "ends_value r"
  shows "read_value d (show_int i @ r) = Some (DNumber (show_int i), r)"
proof -
  obtain c q where s: "show_int i = c # q" and c: "is_digit c \<or> c = CHR ''-''"
  proof (cases "i < 0")
    case True
    then show ?thesis using that by (simp add: show_int_def)
  next
    case False
    obtain c q where "show_nat (nat i) = c # q" using show_nat_nonempty [of "nat i"] by (cases "show_nat (nat i)") auto
    then show ?thesis using that show_nat_digits [of "nat i"] False by (simp add: show_int_def)
  qed
  have n: "byte_val c \<notin> {9, 10, 13, 32, 34}" "c \<notin> {CHR ''['', CHR ''{'', CHR ''t'', CHR ''f'', CHR ''n''}"
    using c by (auto simp: is_digit_def byte_val_def)
  have "read_number (c # q @ r) = Some (c # q, r)" using read_number_int [OF assms, of i] s by simp
  then show ?thesis
    using n no_space [of c "q @ r"] by (simp add: s read_value.simps [of d "c # q @ r"] read_scalar_def)
qed

lemma read_written_bool:
  "read_value d (''true'' @ r) = Some (DBool True, r)" "read_value d (''false'' @ r) = Some (DBool False, r)"
  using no_space [of "CHR ''t''"] no_space [of "CHR ''f''"]
  by (simp_all add: read_value.simps [of d "_ # _"] read_scalar_def literal_at_def byte_val_def)

lemma json_members_head: "kvs \<noteq> [] \<Longrightarrow> \<exists>q. json_members kvs = CHR 0x22 # q"
  by (cases kvs rule: json_members.cases) (auto simp: json_string_def)

lemma ends_value_punct: "ends_value (CHR '','' # r)" "ends_value (CHR ''}'' # r)"
  by (simp_all add: ends_value_def is_digit_def byte_val_def)

lemma read_written:
  "utf8_value v \<Longrightarrow> d + nesting v \<le> max_nesting \<Longrightarrow> ends_value r \<Longrightarrow>
     read_value d (show_json v @ r) = Some (doc_of v, r)"
  "utf8_members kvs \<Longrightarrow> kvs \<noteq> [] \<Longrightarrow> d + nestings kvs \<le> max_nesting \<Longrightarrow>
     read_members d (json_members kvs @ CHR ''}'' # r) = Some (docs_of kvs, r)"
proof (induction v and kvs arbitrary: d r and d r rule: show_json_json_members.induct)
  case (1 s)
  then show ?case by (simp add: read_written_string)
next
  case (2 i)
  then show ?case by (simp add: read_written_int)
next
  case (3 b)
  then show ?case using read_written_bool [of d r] by simp
next
  case (4 kvs)
  have d: "\<not> max_nesting \<le> d" using "4.prems" by simp
  show ?case
  proof (cases "kvs = []")
    case True
    then show ?thesis
      using d by (simp add: read_value.simps [of d "_ # _"] no_space byte_val_def)
  next
    case False
    obtain q where q: "json_members kvs = CHR 0x22 # q" using json_members_head [OF False] by blast
    have "read_members (Suc d) (json_members kvs @ CHR ''}'' # r) = Some (docs_of kvs, r)"
      using "4.IH" "4.prems" False by simp
    then show ?thesis
      using d by (simp add: read_value.simps [of d "_ # _"] no_space byte_val_def q)
  qed
next
  case 5
  then show ?case by simp
next
  case (6 k v)
  have "read_value d (show_json v @ CHR ''}'' # r) = Some (doc_of v, CHR ''}'' # r)"
    using "6.IH" "6.prems" by (simp add: ends_value_punct)
  then show ?case
    using "6.prems" by (simp add: read_members_eq read_written_key no_space byte_val_def)
next
  case (7 k v kv kvs)
  have "read_value d (show_json v @ CHR '','' # json_members (kv # kvs) @ CHR ''}'' # r)
      = Some (doc_of v, CHR '','' # json_members (kv # kvs) @ CHR ''}'' # r)"
    using "7.IH"(1) "7.prems" by (simp add: ends_value_punct)
  moreover have "read_members d (json_members (kv # kvs) @ CHR ''}'' # r) = Some (docs_of (kv # kvs), r)"
    using "7.IH"(2) "7.prems" by simp
  ultimately show ?case
    using "7.prems" by (simp add: read_members_eq [of d "_ @ _"] read_written_key no_space byte_val_def)
qed

section \<open>Every decoded string is well-formed\<close>

lemma rune_len_3:
  assumes "h < 16" "m < 64" "l < 64" "h = 0 \<longrightarrow> 32 \<le> m" "h = 13 \<longrightarrow> m < 32"
  shows "rune_len [byte_of (0xE0 + h), byte_of (0x80 + m), byte_of (0x80 + l)] = 3"
  using assms by (auto simp: rune_len.simps cont_byte_def Let_def)

lemma rune_len_4:
  assumes "h < 5" "m < 64" "l < 64" "k < 64" "h = 0 \<longrightarrow> 16 \<le> m" "h = 4 \<longrightarrow> m < 16"
  shows "rune_len [byte_of (0xF0 + h), byte_of (0x80 + m), byte_of (0x80 + l), byte_of (0x80 + k)] = 4"
  using assms by (auto simp: rune_len.simps cont_byte_def Let_def)

lemma encode_rune_utf8:
  assumes "n < 0xD800 \<or> 0xE000 \<le> n \<and> n < 0x110000"
  shows "valid_utf8 (encode_rune n)"
proof -
  have one: "valid_utf8 s" if "rune_len s = length s" "s \<noteq> []" for s
    using that by (simp add: valid_utf8.simps [of s])
  consider (a) "n < 0x80" | (b) "0x80 \<le> n" "n < 0x800" | (c) "0x800 \<le> n" "n < 0x10000" | (d) "0x10000 \<le> n" by linarith
  then show ?thesis
  proof cases
    case a
    then show ?thesis by (intro one) (simp_all add: encode_rune_def)
  next
    case b
    then have "2 \<le> n div 64" "n div 64 < 32" by linarith+
    then show ?thesis using b by (intro one) (simp_all add: encode_rune_def rune_len.simps cont_byte_def)
  next
    case c
    define q where "q = n div 64"
    have q: "n div 4096 = q div 64" by (simp add: q_def div_mult2_eq [of n 64 64, simplified])
    have bounds: "32 \<le> q" "q < 1024" "q < 864 \<or> 896 \<le> q" using c assms unfolding q_def by linarith+
    have e: "q div 64 * 64 + q mod 64 = q" by simp
    have "q div 64 < 16" using bounds by linarith
    moreover have "32 \<le> q mod 64" if "q div 64 = 0" using that bounds e by linarith
    moreover have "q mod 64 < 32" if "q div 64 = 13" using that bounds e by linarith
    ultimately have "rune_len (encode_rune n) = 3"
      using c rune_len_3 [of "q div 64" "q mod 64" "n mod 64"] by (simp add: encode_rune_def q q_def [symmetric])
    then show ?thesis using c by (intro one) (simp_all add: encode_rune_def)
  next
    case d
    define p where "p = n div 4096"
    have p: "n div 262144 = p div 64" by (simp add: p_def div_mult2_eq [of n 4096 64, simplified])
    have bounds: "16 \<le> p" "p < 272" using d assms unfolding p_def by linarith+
    have e: "p div 64 * 64 + p mod 64 = p" by simp
    have "p div 64 < 5" using bounds by linarith
    moreover have "16 \<le> p mod 64" if "p div 64 = 0" using that bounds e by linarith
    moreover have "p mod 64 < 16" if "p div 64 = 4" using that bounds e by linarith
    ultimately have "rune_len (encode_rune n) = 4"
      using d rune_len_4 [of "p div 64" "p mod 64" "n div 64 mod 64" "n mod 64"]
      by (simp add: encode_rune_def p p_def [symmetric])
    then show ?thesis using d by (intro one) (simp_all add: encode_rune_def)
  qed
qed

lemma hex4_bound: "hex4 s = Some n \<Longrightarrow> n < 0x10000"
proof -
  have v: "hex_val c = Some x \<Longrightarrow> x < 16" for c x by (auto simp: hex_val_def Let_def split: if_splits)
  assume "hex4 s = Some n"
  then show ?thesis
    by (cases s rule: hex4.cases) (auto dest!: v split: option.splits)
qed

lemma unescape_u_utf8:
  assumes "n < 0x10000" "unescape_u n rest = (t, k)"
  shows "valid_utf8 t"
proof -
  have r: "valid_utf8 replacement_char"
    using encode_rune_utf8 [of "0xFFFD"] by (simp add: encode_rune_def replacement_char_def)
  show ?thesis
  proof (cases "n < 0xD800 \<or> 0xE000 \<le> n")
    case True
    then show ?thesis using assms encode_rune_utf8 [of n] by (auto simp: unescape_u_def)
  next
    case False
    then have "valid_utf8 (encode_rune (0x10000 + (n - 0xD800) * 1024 + (m - 0xDC00)))"
      if "n < 0xDC00" "0xDC00 \<le> m" "m < 0xE000" for m
      using that by (intro encode_rune_utf8) linarith
    then show ?thesis using assms(2) False r by (auto simp: unescape_u_def split: option.splits if_splits)
  qed
qed

lemma utf8_rune: "rune_len s \<noteq> 0 \<Longrightarrow> s \<noteq> [] \<Longrightarrow> valid_utf8 (take (rune_len s) s)"
proof (cases "byte_val (hd s) < 128")
  case True
  assume "s \<noteq> []"
  then show ?thesis using True by (cases s) (simp_all add: valid_utf8_ascii is_ascii_def)
next
  case False
  assume "rune_len s \<noteq> 0" "s \<noteq> []"
  then show ?thesis using rune_take_text [OF False] by (simp add: pg_text_def)
qed

lemma read_string_utf8: "read_string s = Some (t, r) \<Longrightarrow> valid_utf8 t"
proof (induction s arbitrary: t r rule: measure_induct_rule [of length])
  case (less s)
  show ?case
  proof (cases s)
    case (Cons c q)
    have rep: "valid_utf8 replacement_char"
      using encode_rune_utf8 [of "0xFFFD"] by (simp add: encode_rune_def replacement_char_def)
    have sub: "valid_utf8 (w @ t')" if "read_string p = Some (t', r')" "length p < length s" "valid_utf8 w" for p t' r' w
      using valid_utf8_append [OF that(3) less.IH [OF that(2,1)]] .
    have one: "valid_utf8 [x]" if "byte_val x < 128" for x using that by (intro valid_utf8_ascii) (simp add: is_ascii_def)
    have short: "byte_val x < 128" if "short_escape y = Some x" for x y
      using that by (auto simp: short_escape_def Let_def split: if_splits)
    have drop: "length (drop (rune_len s) s) < length s" if "rune_len s \<noteq> 0" using that Cons by simp
    show ?thesis
    proof (cases "byte_val c = 92")
      case False
      then show ?thesis
        using less.prems drop sub [of q _ r "[c]"] sub [of q _ r replacement_char]
          sub [of "drop (rune_len s) s" _ r "take (rune_len s) s"] one rep utf8_rune [of s]
        unfolding read_string.simps [of s] by (auto simp: Cons map_rest_Some split: if_splits)
    next
      case True
      then obtain e p where q: "q = e # p" using less.prems Cons by (cases q) (auto simp: read_string.simps [of "[c]"])
      show ?thesis
      proof (cases "byte_val e = 117")
        case u: True
        obtain n where n: "hex4 p = Some n" using less.prems True u by (cases "hex4 p") (auto simp: read_string.simps [of "c # e # p"] Cons q)
        obtain w k where w: "unescape_u n (drop 4 p) = (w, k)" by fastforce
        have "valid_utf8 w" using unescape_u_utf8 [OF hex4_bound [OF n] w] .
        then show ?thesis
          using less.prems True u n w sub [of "drop (4 + k) p" _ r w]
          by (auto simp: read_string.simps [of "c # e # p"] Cons q map_rest_Some)
      next
        case False
        obtain x where x: "short_escape e = Some x"
          using less.prems True False by (cases "short_escape e") (auto simp: read_string.simps [of "c # e # p"] Cons q)
        then show ?thesis
          using less.prems True False sub [of p _ r "[x]"] one [OF short [OF x]]
          by (auto simp: read_string.simps [of "c # e # p"] Cons q map_rest_Some)
      qed
    qed
  qed (use less.prems in \<open>simp add: read_string.simps\<close>)
qed

text \<open>All strings of a document.\<close>

fun doc_utf8 :: "json_doc \<Rightarrow> bool" where
  "doc_utf8 (DString s) = valid_utf8 s"
| "doc_utf8 (DArray vs) = list_all doc_utf8 vs"
| "doc_utf8 (DObject kvs) = list_all (\<lambda>(k, v). valid_utf8 k \<and> doc_utf8 v) kvs"
| "doc_utf8 v = True"

lemma read_key_utf8: "read_key s = Some (k, r) \<Longrightarrow> valid_utf8 k"
  by (auto simp: read_key_def dest: read_string_utf8 split: list.splits if_splits option.splits)

lemma read_scalar_utf8: "read_scalar s = Some (v, r) \<Longrightarrow> doc_utf8 v"
  by (auto simp: read_scalar_def literal_at_def map_rest_Some dest: read_string_utf8 split: list.splits if_splits)

lemma read_value_utf8:
  "read_value d s = Some (v, r) \<Longrightarrow> doc_utf8 v"
  "read_elements d s = Some (vs, r) \<Longrightarrow> list_all doc_utf8 vs"
  "read_members d s = Some (kvs, r) \<Longrightarrow> list_all (\<lambda>(k, v). valid_utf8 k \<and> doc_utf8 v) kvs"
proof (induction d s and d s and d s arbitrary: v r and vs r and kvs r
    rule: read_value_read_elements_read_members.induct)
  case (1 d s)
  obtain c q where s: "skip_spaces s = c # q"
    using "1.prems" unfolding read_value.simps [of d s] by (cases "skip_spaces s") auto
  note eq = "1.prems" [unfolded read_value.simps [of d s] s list.case]
  show ?case
  proof (cases "c = CHR ''['' \<or> c = CHR ''{''")
    case False
    then show ?thesis using eq read_scalar_utf8 [of "c # q" v r] by simp
  next
    case True
    then have d: "\<not> max_nesting \<le> d" using eq by (auto split: if_splits)
    obtain x p where x: "skip_spaces q = x # p" using True eq by (cases "skip_spaces q") (auto split: if_splits)
    show ?thesis
    proof (cases "c = CHR ''[''")
      case arr: True
      then show ?thesis using eq d "1.IH"(1) [OF s arr d x] by (auto simp: x map_rest_Some split: if_splits)
    next
      case obj: False
      then have c: "c = CHR ''{''" using True by simp
      then show ?thesis using eq d "1.IH"(2) [OF s obj c d x] by (auto simp: x map_rest_Some split: if_splits)
    qed
  qed
next
  case (2 d s)
  obtain v q where v: "read_value d s = Some (v, q)"
    using "2.prems" unfolding read_elements.simps [of d s] by (cases "read_value d s") auto
  obtain c p where c: "skip_spaces q = c # p"
    using "2.prems" unfolding read_elements.simps [of d s] v by (cases "skip_spaces q") auto
  show ?case
    using "2.prems" "2.IH"(1) [OF v] "2.IH"(2) [OF v refl c]
    unfolding read_elements.simps [of d s] v option.case prod.case c list.case
    by (auto simp: map_rest_Some split: if_splits)
next
  case (3 d s)
  obtain k t where k: "read_key s = Some (k, t)"
    using "3.prems" unfolding read_members.simps [of d s] by (cases "read_key s") auto
  obtain v q where v: "read_value d t = Some (v, q)"
    using "3.prems" unfolding read_members.simps [of d s] k by (cases "read_value d t") auto
  obtain c p where c: "skip_spaces q = c # p"
    using "3.prems" unfolding read_members.simps [of d s] k option.case prod.case v by (cases "skip_spaces q") auto
  show ?case
    using "3.prems" "3.IH"(1) [OF k refl v] "3.IH"(2) [OF k refl v refl c] read_key_utf8 [OF k]
    unfolding read_members.simps [of d s] k option.case prod.case v c list.case
    by (auto simp: map_rest_Some split: if_splits)
qed

lemma json_text_utf8: "json_text s = Some v \<Longrightarrow> doc_utf8 v"
  by (auto simp: json_text_def dest: read_value_utf8 split: option.splits if_splits)

lemma json_first_utf8: "json_first s err = Some v \<Longrightarrow> doc_utf8 v"
  by (auto simp: json_first_def dest: read_value_utf8 split: option.splits if_splits)

section \<open>Decoding\<close>

text \<open>A decoder that keeps \<open>P\<close> on documents with well-formed strings.\<close>

definition decodes :: "('r \<Rightarrow> bool) \<Rightarrow> 'r decoder \<Rightarrow> bool" where
  "decodes P dec \<longleftrightarrow> (\<forall>v r r'. doc_utf8 v \<longrightarrow> P r \<longrightarrow> dec v r = Some r' \<longrightarrow> P r')"

lemma decodes_text: "(\<And>t r. valid_utf8 t \<Longrightarrow> P r \<Longrightarrow> P (upd (\<lambda>_. t) r)) \<Longrightarrow> decodes P (text_field upd)"
  by (auto simp: decodes_def text_field_def split: json_doc.splits)

lemma decodes_members:
  assumes "list_all (\<lambda>(n, dec). decodes P dec) fs"
    and "list_all (\<lambda>(k, v). valid_utf8 k \<and> doc_utf8 v) kvs" "P r" "decode_members fs kvs r = Some r'"
  shows "P r'"
  using assms(2-4)
proof (induction kvs arbitrary: r)
  case (Cons kv kvs)
  obtain k v where kv: "kv = (k, v)" by (cases kv)
  show ?case
  proof (cases "field_for fs k")
    case None
    then show ?thesis using Cons by (simp add: kv)
  next
    case (Some dec)
    then have "\<exists>n. (n, dec) \<in> set fs"
      by (auto simp: field_for_def find_Some_iff split: option.splits dest!: map_of_SomeD) (metis nth_mem)
    then have dec: "decodes P dec" using assms(1) by (auto simp: list_all_iff)
    obtain r1 where r1: "dec v r = Some r1" using Cons.prems(3) Some by (cases "dec v r") (auto simp: kv)
    then have "P r1" using dec Cons.prems(1,2) unfolding decodes_def kv by auto
    then show ?thesis using Cons Some r1 by (simp add: kv)
  qed
qed simp

lemma decodes_struct: "list_all (\<lambda>(n, dec). decodes P dec) fs \<Longrightarrow> decodes P (decode_struct fs)"
  by (auto simp: decodes_def decode_struct_def intro: decodes_members split: json_doc.splits)

end
