(* ===== verification/Payload_Laws.thy ===== *)
theory Payload_Laws
  imports Wager_Transaction Json_Reading
begin

text \<open>
  The canonical payload determines the fields it is built from: a JSON string is read back up to its
  closing quote, so two payloads that are equal have equal fields. On ill-formed UTF-8 this does not hold: \<open>encoding/json\<close>
  replaces every bad byte by U+FFFD.
\<close>

section \<open>The payload of a transaction\<close>

lemma canonicalJSON_sorted:
  "canonicalJSON t = show_json (JObject
     [(''amount'', JString (money_string (wmoney t))),
      (''currency'', JString (currency (wmoney t))),
      (''externalTransactionID'', JString (externalTransactionID t)),
      (''gameID'', JString (gameID t)),
      (''kind'', JString (kind t)),
      (''playerID'', JString (wplayerID t)),
      (''providerID'', JString (providerID t)),
      (''referenceExternalID'', JString (referenceExternalID t)),
      (''roundID'', JString (roundID t)),
      (''walletID'', JString (walletID t))])"
proof -
  have "sort_key fst (payload_map t) =
     [(''amount'', JString (money_string (wmoney t))),
      (''currency'', JString (currency (wmoney t))),
      (''externalTransactionID'', JString (externalTransactionID t)),
      (''gameID'', JString (gameID t)),
      (''kind'', JString (kind t)),
      (''playerID'', JString (wplayerID t)),
      (''providerID'', JString (providerID t)),
      (''referenceExternalID'', JString (referenceExternalID t)),
      (''roundID'', JString (roundID t)),
      (''walletID'', JString (walletID t))]"
    by (simp add: payload_map_def sort_key_def)
  then show ?thesis by (simp add: canonicalJSON_def marshal_map_def json_map_def)
qed

text \<open>The strings of a transaction are well-formed UTF-8, as every string is that the JSON decoder returns.\<close>

definition utf8_fields :: "wager \<Rightarrow> bool" where
  "utf8_fields t \<longleftrightarrow>
     valid_utf8 (providerID t) \<and> valid_utf8 (externalTransactionID t) \<and> valid_utf8 (wplayerID t)
     \<and> valid_utf8 (walletID t) \<and> valid_utf8 (roundID t) \<and> valid_utf8 (gameID t) \<and> valid_utf8 (kind t)
     \<and> valid_utf8 (currency (wmoney t)) \<and> valid_utf8 (referenceExternalID t)"

definition same_payload :: "wager \<Rightarrow> wager \<Rightarrow> bool" where
  "same_payload t t' \<longleftrightarrow>
     providerID t = providerID t' \<and> externalTransactionID t = externalTransactionID t' \<and> wplayerID t = wplayerID t'
     \<and> walletID t = walletID t' \<and> roundID t = roundID t' \<and> gameID t = gameID t' \<and> kind t = kind t'
     \<and> wmoney t = wmoney t' \<and> referenceExternalID t = referenceExternalID t'"

lemma money_string_utf8:
  assumes "0 \<le> cents m"
  shows "valid_utf8 (money_string m)"
proof -
  obtain ds d1 d2 where "money_string m = ds @ CHR ''.'' # [d1, d2]" "list_all is_digit ds" "is_digit d1" "is_digit d2"
    using assms by (rule money_string_form) blast
  then have "is_ascii (money_string m)"
    using is_digit_graphic by (auto simp: is_ascii_def list_all_iff byte_val_def)
  then show ?thesis by (rule valid_utf8_ascii)
qed

lemma member_cancel:
  assumes "valid_utf8 v" "valid_utf8 v'"
    "json_members ((k, JString v) # kv # kvs) = json_members ((k, JString v') # kv' # kvs')"
  shows "v = v' \<and> json_members (kv # kvs) = json_members (kv' # kvs')"
proof -
  have "json_string v @ CHR '','' # json_members (kv # kvs) = json_string v' @ CHR '','' # json_members (kv' # kvs')"
    using assms(3) by simp
  from json_string_cancel [OF assms(1,2) this] show ?thesis by simp
qed

lemma last_member_cancel:
  assumes "valid_utf8 v" "valid_utf8 v'" "json_members [(k, JString v)] = json_members [(k, JString v')]"
  shows "v = v'"
  using json_string_cancel [OF assms(1,2), of "[]" "[]"] assms(3) by simp

lemma canonicalJSON_inj:
  assumes "canonicalJSON t = canonicalJSON t'" "utf8_fields t" "utf8_fields t'"
    "0 \<le> cents (wmoney t)" "0 \<le> cents (wmoney t')"
  shows "same_payload t t'"
proof -
  note u = assms(2,3) [unfolded utf8_fields_def] money_string_utf8 [OF assms(4)] money_string_utf8 [OF assms(5)]
  have e0: "json_members [(''amount'', JString (money_string (wmoney t))),
      (''currency'', JString (currency (wmoney t))), (''externalTransactionID'', JString (externalTransactionID t)),
      (''gameID'', JString (gameID t)), (''kind'', JString (kind t)), (''playerID'', JString (wplayerID t)),
      (''providerID'', JString (providerID t)), (''referenceExternalID'', JString (referenceExternalID t)),
      (''roundID'', JString (roundID t)), (''walletID'', JString (walletID t))]
    = json_members [(''amount'', JString (money_string (wmoney t'))),
      (''currency'', JString (currency (wmoney t'))), (''externalTransactionID'', JString (externalTransactionID t')),
      (''gameID'', JString (gameID t')), (''kind'', JString (kind t')), (''playerID'', JString (wplayerID t')),
      (''providerID'', JString (providerID t')), (''referenceExternalID'', JString (referenceExternalID t')),
      (''roundID'', JString (roundID t')), (''walletID'', JString (walletID t'))]"
    using assms(1) unfolding canonicalJSON_sorted show_json.simps(4) by blast
  note e1 = member_cancel [OF _ _ e0]
  have c1: "money_string (wmoney t) = money_string (wmoney t')" using e1 u by blast
  note e2 = member_cancel [OF _ _ conjunct2 [OF e1]]
  have c2: "currency (wmoney t) = currency (wmoney t')" using e2 u by blast
  note e3 = member_cancel [OF _ _ conjunct2 [OF e2]]
  have c3: "externalTransactionID t = externalTransactionID t'" using e3 u by blast
  note e4 = member_cancel [OF _ _ conjunct2 [OF e3]]
  have c4: "gameID t = gameID t'" using e4 u by blast
  note e5 = member_cancel [OF _ _ conjunct2 [OF e4]]
  have c5: "kind t = kind t'" using e5 u by blast
  note e6 = member_cancel [OF _ _ conjunct2 [OF e5]]
  have c6: "wplayerID t = wplayerID t'" using e6 u by blast
  note e7 = member_cancel [OF _ _ conjunct2 [OF e6]]
  have c7: "providerID t = providerID t'" using e7 u by blast
  note e8 = member_cancel [OF _ _ conjunct2 [OF e7]]
  have c8: "referenceExternalID t = referenceExternalID t'" using e8 u by blast
  note e9 = member_cancel [OF _ _ conjunct2 [OF e8]]
  have c9: "roundID t = roundID t'" using e9 u by blast
  have c10: "walletID t = walletID t'" using last_member_cancel [OF _ _ conjunct2 [OF e9]] u by blast
  have "amount (wmoney t) = amount (wmoney t')" using c1 assms(4,5) by (rule money_string_inj)
  with c2 have "wmoney t = wmoney t'" by (simp add: money.equality)
  with c3 c4 c5 c6 c7 c8 c9 c10 show ?thesis by (simp add: same_payload_def)
qed

lemma same_payload_canonical: "same_payload t t' \<Longrightarrow> canonicalJSON t = canonicalJSON t'"
  by (simp add: same_payload_def canonicalJSON_def payload_map_def)

end
