(* ===== verification/Request_Laws.thy ===== *)
theory Request_Laws
  imports Service_Guarantees Payload_Laws
begin

text \<open>
  What the three decoders of requests and messages promise: a document as the README describes it is read into the fields it
  was written from, and every string that a decoder returns is well-formed UTF-8. So for requests the
  payload hash identifies the payload.
\<close>

section \<open>The documents of the README\<close>

definition wallet_request :: "wallet_body \<Rightarrow> json_value" where
  "wallet_request b = JObject
     [(''playerId'', JString (wb_PlayerID b)),
      (''initialBalance'', JObject [(''amount'', JString (wb_Amount b)), (''currency'', JString (wb_Currency b))])]"

definition wager_request :: "wager_body \<Rightarrow> json_value" where
  "wager_request b = JObject
     [(''providerId'', JString (gb_ProviderID b)),
      (''externalTransactionId'', JString (gb_ExternalTransactionID b)),
      (''playerId'', JString (gb_PlayerID b)),
      (''walletId'', JString (gb_WalletID b)),
      (''roundId'', JString (gb_RoundID b)),
      (''gameId'', JString (gb_GameID b)),
      (''kind'', JString (gb_Kind b)),
      (''money'', JObject [(''amount'', JString (gb_Amount b)), (''currency'', JString (gb_Currency b))]),
      (''referenceExternalTransactionId'', JString (gb_ReferenceExternalID b))]"

definition wager_message :: "envelope_sqs \<Rightarrow> json_value" where
  "wager_message e = JObject
     [(''messageId'', JString (EnvMessageID e)),
      (''type'', JString (EnvType e)),
      (''occurredAt'', JString (EnvOccurredAt e)),
      (''data'', JObject
         [(''providerId'', JString (EnvProviderID e)),
          (''externalTransactionId'', JString (EnvExternalTransactionID e)),
          (''idempotencyKey'', JString (EnvIdempotencyKey e)),
          (''playerId'', JString (EnvPlayerID e)),
          (''walletId'', JString (EnvWalletID e)),
          (''roundId'', JString (EnvRoundID e)),
          (''gameId'', JString (EnvGameID e)),
          (''kind'', JString (EnvKind e)),
          (''money'', JObject [(''amount'', JString (EnvAmount e)), (''currency'', JString (EnvCurrency e))]),
          (''referenceExternalTransactionId'', JString (EnvReferenceExternalID e))])]"

lemma written_document:
  assumes "utf8_value v" "nesting v \<le> max_nesting" "is_container (doc_of v)"
  shows "json_text (show_json v) = Some (doc_of v)" "json_first (show_json v) err = Some (doc_of v)"
proof -
  have "read_value 0 (show_json v @ []) = Some (doc_of v, [])"
    by (rule read_written(1)) (use assms in \<open>simp_all add: ends_value_def\<close>)
  then show "json_text (show_json v) = Some (doc_of v)" "json_first (show_json v) err = Some (doc_of v)"
    using assms(3) by (simp_all add: json_text_def json_first_def skip_spaces_def)
qed

lemma request_shapes:
  "nesting (wallet_request b) \<le> max_nesting" "is_container (doc_of (wallet_request b))"
  "nesting (wager_request g) \<le> max_nesting" "is_container (doc_of (wager_request g))"
  "nesting (wager_message e) \<le> max_nesting" "is_container (doc_of (wager_message e))"
  by (simp_all add: wallet_request_def wager_request_def wager_message_def max_nesting_def)

lemmas decode_simps = decode_struct_def field_for_def text_field_def

lemma wallet_request_read:
  assumes "utf8_value (wallet_request b)"
  shows "decode_wallet_body (show_json (wallet_request b)) = Some b"
  unfolding decode_wallet_body_def written_document(1) [OF assms request_shapes(1,2)]
  by (simp add: wallet_request_def wallet_fields_def decode_simps)

lemma wager_request_read:
  assumes "utf8_value (wager_request b)"
  shows "decode_wager_body (show_json (wager_request b)) err = Some b"
  unfolding decode_wager_body_def written_document(2) [OF assms request_shapes(3,4)]
  by (simp add: wager_request_def wager_fields_def empty_wager_body_def decode_simps)

lemma wager_message_read:
  assumes "utf8_value (wager_message e)"
  shows "unmarshal_envelope (show_json (wager_message e)) = Some e"
  unfolding unmarshal_envelope_def written_document(1) [OF assms request_shapes(5,6)]
  by (simp add: wager_message_def envelope_fields_def empty_envelope_def decode_simps)

section \<open>What a decoder returns\<close>

definition utf8_wager :: "wager_body \<Rightarrow> bool" where
  "utf8_wager b \<longleftrightarrow>
     valid_utf8 (gb_ProviderID b) \<and> valid_utf8 (gb_ExternalTransactionID b) \<and> valid_utf8 (gb_PlayerID b)
     \<and> valid_utf8 (gb_WalletID b) \<and> valid_utf8 (gb_RoundID b) \<and> valid_utf8 (gb_GameID b) \<and> valid_utf8 (gb_Kind b)
     \<and> valid_utf8 (gb_Amount b) \<and> valid_utf8 (gb_Currency b) \<and> valid_utf8 (gb_ReferenceExternalID b)"

lemma decode_wager_utf8:
  assumes "decode_wager_body raw err = Some b"
  shows "utf8_wager b"
proof -
  obtain v where v: "json_first raw err = Some v" "decode_struct wager_fields v empty_wager_body = Some b"
    using assms by (auto simp: decode_wager_body_def split: option.splits)
  have "decodes utf8_wager (decode_struct wager_fields)"
    unfolding wager_fields_def
    by (intro decodes_struct; simp; intro conjI decodes_text decodes_struct; simp?; (intro conjI decodes_text)?)
      (simp_all add: utf8_wager_def)
  moreover have "utf8_wager empty_wager_body" by (simp add: utf8_wager_def empty_wager_body_def)
  ultimately show ?thesis using v json_first_utf8 [OF v(1)] unfolding decodes_def by blast
qed

section \<open>Requests with one payload\<close>

text \<open>The fields of a request that its transaction takes as they are.\<close>

definition same_request :: "wager_body \<Rightarrow> wager_body \<Rightarrow> bool" where
  "same_request b b' \<longleftrightarrow>
     gb_ProviderID b = gb_ProviderID b' \<and> gb_ExternalTransactionID b = gb_ExternalTransactionID b'
     \<and> gb_PlayerID b = gb_PlayerID b' \<and> gb_WalletID b = gb_WalletID b' \<and> gb_RoundID b = gb_RoundID b'
     \<and> gb_GameID b = gb_GameID b' \<and> gb_Kind b = gb_Kind b' \<and> gb_ReferenceExternalID b = gb_ReferenceExternalID b'"

lemma prepared_request:
  assumes "prepare_wager R cfg now (wager_input b key) = Inr t"
  shows "providerID t = gb_ProviderID b" "externalTransactionID t = gb_ExternalTransactionID b"
    "wplayerID t = gb_PlayerID b" "walletID t = gb_WalletID b" "roundID t = gb_RoundID b" "gameID t = gb_GameID b"
    "kind t = gb_Kind b" "referenceExternalID t = gb_ReferenceExternalID b"
  using assms
  by (auto simp: prepare_wager_Inr CalculateAndSetPayloadHash_def new_wager_def RehydrateWagerTransaction_def wager_input_def)

lemma request_utf8:
  assumes "decode_wager_body raw err = Some b" "is_ascii (gb_Currency b)"
    "prepare_wager R cfg now (wager_input b key) = Inr t"
  shows "utf8_fields t"
proof -
  note b = decode_wager_utf8 [OF assms(1), unfolded utf8_wager_def]
  have "currency (wmoney t) = trim_space (to_upper R (gb_Currency b))"
    using prepared_money(1) [OF assms(3)] NewMoneyFromString_Inr(2) by (simp add: wager_input_def)
  moreover have "is_ascii (trim_space (to_upper R (gb_Currency b)))"
    using is_ascii_map_upper [OF assms(2)] trim_space_sublist [of "map upper_byte (gb_Currency b)"] assms(2)
    by (auto simp: to_upper_def is_ascii_def list_all_iff)
  ultimately have "valid_utf8 (currency (wmoney t))" using valid_utf8_ascii by simp
  then show ?thesis using b by (simp add: utf8_fields_def prepared_request [OF assms(3)])
qed

lemma request_payloads:
  assumes "decode_wager_body raw err = Some b" "is_ascii (gb_Currency b)"
    "prepare_wager R cfg now (wager_input b key) = Inr t"
    and "decode_wager_body raw' err' = Some b'" "is_ascii (gb_Currency b')"
    "prepare_wager R cfg now' (wager_input b' key') = Inr t'"
  shows "canonicalJSON t = canonicalJSON t' \<longleftrightarrow> same_request b b' \<and> wmoney t = wmoney t'"
proof -
  have "canonicalJSON t = canonicalJSON t' \<longleftrightarrow> same_payload t t'"
    using canonicalJSON_inj [OF _ request_utf8 [OF assms(1-3)] request_utf8 [OF assms(4-6)]
        prepared_money(2) [OF assms(3)] prepared_money(2) [OF assms(6)]] same_payload_canonical by blast
  then show ?thesis
    by (auto simp: same_payload_def same_request_def prepared_request [OF assms(3)] prepared_request [OF assms(6)])
qed

end
