(* ===== verification/Demo_Requests.thy ===== *)
theory Demo_Requests
  imports Demo_Run Request_Laws
begin

text \<open>
  The bet of the concrete run, as it arrives over HTTP and from the queue: both bodies are the documents of the README with its fields, which the decoders of
  the service read back. The digest of a message stays symbolic.
\<close>

section \<open>A message from the queue\<close>

definition demo_envelope :: envelope_sqs where
  "demo_envelope = \<lparr>EnvMessageID = ''m1'', EnvType = ''WagerTransactionRequested'', EnvOccurredAt = '''', EnvProviderID = ''pp'',
     EnvExternalTransactionID = ''b1'', EnvIdempotencyKey = ''kb1'', EnvPlayerID = ''p1'', EnvWalletID = ''wal_p1_brl'',
     EnvRoundID = ''r1'', EnvGameID = ''g1'', EnvKind = ''BET'', EnvAmount = ''30.00'', EnvCurrency = ''BRL'',
     EnvReferenceExternalID = ''''\<rparr>"

definition demo_message_text :: string where
  "demo_message_text = show_json (wager_message demo_envelope)"

definition demo_message :: sqs_message where
  "demo_message = \<lparr>MsgBody = Some demo_message_text, MsgMessageId = Some ''m1'', MsgReceiptHandle = Some ''r1''\<rparr>"

lemma demo_message_read: "unmarshal_envelope demo_message_text = Some demo_envelope"
  unfolding demo_message_text_def
  by (rule wager_message_read) (simp add: wager_message_def demo_envelope_def valid_utf8_ascii is_ascii_def byte_val_def)

definition demo_consumer :: consumer where
  "demo_consumer = \<lparr>deletions = [], consumer_counters = \<lparr>MetricsWagersProcessed = 0, MetricsSQSErrors = 0,
     MetricsOutboxPublished = 0, MetricsOutboxErrors = 0\<rparr>\<rparr>"

definition demo_claim :: inbox_claim where
  "demo_claim = \<lparr>ConsumerName = ''sqs_wager_consumer'', MessageID = ''m1'', ClaimPayloadHash = sha256_hex demo_message_text\<rparr>"

definition demo_claimed :: database where
  "demo_claimed = demo2\<lparr>inbox_messages :=
     [\<lparr>i_message_id = ''m1'', i_consumer_name = ''sqs_wager_consumer'', i_payload_hash = sha256_hex demo_message_text\<rparr>]\<rparr>"

lemma demo_claimed_run:
  "ProcessTransactionWithInbox demo_R demo_cfg (demo_X 2000) (demo_input ''b1'' ''BET'' ''30.00'' '''') (Some demo_claim) demo1 =
     (Inr \<lparr>out_TransactionID = ''tx_pp_b1'', out_Status = ''PROCESSED'',
           out_Balance = \<lparr>dto_Amount = ''70.00'', dto_Currency = ''BRL''\<rparr>, out_IdempotentReplay = False\<rparr>, demo_claimed)"
  by (simp add: demo_eval process_eval demo2_eval demo_claim_def demo_claimed_def cong: lazy_cong)

lemma demo_message_input:
  "envelope_input demo_envelope = demo_input ''b1'' ''BET'' ''30.00'' ''''"
  "sqs_claim demo_message demo_message_text demo_envelope = demo_claim"
  by (simp_all add: envelope_input_def demo_envelope_def demo_input_def sqs_claim_def message_id_def demo_message_def demo_claim_def)

lemma demo_message_known:
  "inbox_tab.lookup (pg_trunc 100 ''sqs_wager_consumer'', pg_trunc 64 ''m1'') demo_claimed =
     Some \<lparr>i_message_id = ''m1'', i_consumer_name = ''sqs_wager_consumer'', i_payload_hash = sha256_hex demo_message_text\<rparr>"
  by (simp add: inbox_tab.lookup_def demo_claimed_def inbox_key_def graphic_columns is_graphic_def byte_val_def)

lemma demo_message_run:
  "processSQSEnvelope demo_R demo_cfg (\<lambda>n. False) (demo_X 2000) demo_message demo_consumer demo1 =
     (Inr (deleteMessage (\<lambda>n. False) demo_message (add_processed demo_consumer)), demo_claimed)"
  using demo_claimed_run demo_message_input demo_message_read by (simp add: processSQSEnvelope_def demo_message_def)

section \<open>A request\<close>

definition demo_body :: wager_body where
  "demo_body = \<lparr>gb_ProviderID = ''pp'', gb_ExternalTransactionID = ''b1'', gb_PlayerID = ''p1'', gb_WalletID = ''wal_p1_brl'',
     gb_RoundID = ''r1'', gb_GameID = ''g1'', gb_Kind = ''BET'', gb_Amount = ''30.00'', gb_Currency = ''BRL'',
     gb_ReferenceExternalID = ''''\<rparr>"

definition demo_request :: http_request where
  "demo_request = \<lparr>req_method = ''POST'', req_path = ''/wagering/transactions'', req_authorization = ''Bearer tok'',
     req_idempotency_key = ''kb1'', req_body = show_json (wager_request demo_body), req_body_error = None\<rparr>"

definition demo_http :: http_lib where
  "demo_http = \<lparr>driver_text = (\<lambda>s. s), json_error_text = (\<lambda>s. ''unexpected end of JSON input'')\<rparr>"

lemma demo_body_utf8: "utf8_value (wager_request demo_body)"
  by (simp add: wager_request_def demo_body_def valid_utf8_ascii is_ascii_def byte_val_def)

lemma demo_request_read: "decode_wager_body (req_body demo_request) (req_body_error demo_request) = Some demo_body"
  using wager_request_read [OF demo_body_utf8] by (simp add: demo_request_def)

lemma demo_handled:
  "\<exists>resp c'. handleProcessTransaction demo_R demo_cfg demo_http (demo_X 2000) (Some ''pp'') demo_request (consumer_counters demo_consumer) demo1
     = (resp, c', demo2) \<and> status_code resp = 200"
proof -
  have k: "trim_space (req_idempotency_key demo_request) \<noteq> ''''"
    by (simp add: demo_request_def is_graphic_def byte_val_def)
  have i: "wager_input demo_body (req_idempotency_key demo_request) = demo_input ''b1'' ''BET'' ''30.00'' ''''"
    by (simp add: wager_input_def demo_body_def demo_request_def demo_input_def)
  have "gb_ProviderID demo_body = ''pp''" by (simp add: demo_body_def)
  then show ?thesis using k i demo_request_read demo_bet_run by (simp add: handleProcessTransaction_def Let_def)
qed

section \<open>A server\<close>

definition demo_key :: rsa_public_key where
  "demo_key = \<lparr>RsaN = 3233, RsaE = 17\<rparr>"

definition demo_jwt :: jwt_lib where
  "demo_jwt = \<lparr>jwt_decode = (\<lambda>s. Inr \<lparr>TokenAlg = ''RS256'', TokenKid = Some (ClaimString ''k1''),
       TokenClaims = [''azp'' \<mapsto> ClaimString ''pp-service'']\<rparr>),
     jwt_signed_by = (\<lambda>s key. key = demo_key), jwt_claims_error = (\<lambda>issuer claims. None)\<rparr>"

text \<open>The identity provider is down; the key is in the cache.\<close>

definition demo_fetch :: jwks_reply where
  "demo_fetch = FetchReply 500 '''' None"

definition demo_server :: "database \<Rightarrow> server" where
  "demo_server d = \<lparr>server_auth = \<lparr>auth_keys = [(''k1'', demo_key)], fetchedAt = Some 1000\<rparr>,
     server_metrics = consumer_counters demo_consumer, server_db = d\<rparr>"

lemma demo_served:
  "\<exists>resp s'. ServeHTTP demo_R demo_cfg demo_http demo_jwt (\<lambda>ks. snd (hd ks)) demo_fetch None (demo_X 2000) demo_request demo1
     (demo_server demo1) = (resp, s') \<and> server_db s' = demo2"
proof -
  have a: "Authenticate demo_R demo_cfg demo_jwt (\<lambda>ks. snd (hd ks)) demo_fetch (clock (demo_X 2000) 0)
      (req_path demo_request) (req_authorization demo_request) (server_auth (demo_server demo1))
    = (PassOn (Some ''pp''), server_auth (demo_server demo1))"
    by (simp add: Authenticate_def demo_request_def verifyAndExtractProvider_def jwt_parse_def demo_jwt_def token_key_def
        keyForKid_def keys_stale_def demo_server_def demo_X_def provider_of_claims_def provider_of_client_def
        text_eval byte_chars)
  have r: "route (req_method demo_request) (req_path demo_request) = ProcessWager"
    by (simp add: route_def demo_request_def)
  obtain resp c' where "handleProcessTransaction demo_R demo_cfg demo_http (demo_X 2000) (Some ''pp'') demo_request
      (consumer_counters demo_consumer) demo1 = (resp, c', demo2)" using demo_handled by blast
  then show ?thesis using a r by (simp add: ServeHTTP_def demo_server_def Let_def)
qed

end
