(* ===== verification/Delivery.thy ===== *)
theory Delivery
  imports Service_System
begin

text \<open>
  What the outbox promises to the outside: an event is marked as published only after its message was handed to the queue, in every state that the
  system can reach, with any number of processes, whatever statements, commits or sends fail and whenever a process ends; and it is tried a bounded number of
  times: each failed attempt is counted, the last one gives the event up, and a published or given up event is never touched again.
\<close>

section \<open>New events are pending\<close>

definition fresh_events :: "database \<Rightarrow> database \<Rightarrow> bool" where
  "fresh_events d d' \<longleftrightarrow> 
     (\<exists>es. outbox_events d' = outbox_events d @ es
       \<and> (\<forall>e \<in> set es. o_status e = ''PENDING'' \<and> o_attempts e = 0 \<and> o_published_at e = None))"

lemma pending_status_stored:
  assumes "o_status e = ''PENDING''"
  shows "o_status (stored_outbox e) = ''PENDING''" "o_attempts (stored_outbox e) = o_attempts e"
    "o_published_at (stored_outbox e) = o_published_at e"
  using assms graphic_pg_short [of "''PENDING''" 20]
  by (simp_all add: stored_outbox_def pg_short_trunc is_graphic_def byte_val_def)

interpretation fresh: resolution_frame fresh_events
proof unfold_locales
  fix d d' d'' :: database
  show "fresh_events d d' \<Longrightarrow> fresh_events d' d'' \<Longrightarrow> fresh_events d d''" by (fastforce simp: fresh_events_def)
next
  fix e d d' assume "insert_outbox e d = Inr d'" "o_status e = ''PENDING''" "o_attempts e = 0" "o_published_at e = None"
  then show "fresh_events d d'" using pending_status_stored [of e]
    by (auto simp: fresh_events_def insert_outbox_def refuse_def Let_def split: if_splits)
qed (auto simp: fresh_events_def inr_dest dest!: update_wallet_rows update_status_rows)

context statement_frame
begin

lemma create_wallet_respects: "handleCreateWallet R cfg H X r d = (resp, d') \<Longrightarrow> Q d d'"
  by (auto simp: handleCreateWallet_def Q_refl split: option.splits sum.splits prod.splits dest: open_respects)

lemma process_request_respects:
  assumes "handleProcessTransaction R cfg H X p r c d = (resp, c', d')"
  shows "Q d d'"
proof (cases "d' = d")
  case False
  then obtain provider where "p = Some provider" using assms process_without_provider by (cases p) auto
  then obtain body res where "ProcessTransaction R cfg X (wager_input body (req_idempotency_key r)) d = (res, d')"
    using process_for_provider assms False by blast
  then show ?thesis unfolding ProcessTransaction_def by (rule process_respects)
qed (simp add: Q_refl)

lemma request_respects:
  "ServeHTTP R cfg H J first_of fetch ping X r d1 s = (resp, s') \<Longrightarrow> Q (server_db s) (server_db s')"
  by (auto simp: ServeHTTP_def Let_def Q_refl intro: create_wallet_respects process_request_respects
      split: prod.splits auth_decision.splits endpoint.splits)

lemma message_respects: "processSQSEnvelope R cfg rd X m c d = (r, d') \<Longrightarrow> Q d d'"
  using processSQSEnvelope_db [of R cfg rd X m c d r d'] Q_refl process_respects by blast

end

section \<open>The rows after a batch\<close>

lemma due_pending:
  assumes "outbox_tab.unique d" "e \<in> set (outbox_events d)" "o_id e \<in> o_id ` set (due_events R locked now n d)"
  shows "o_status e = ''PENDING''"
proof -
  obtain r where r: "r \<in> set (due_events R locked now n d)" "o_id r = o_id e" using assms(3) by auto
  then have "r = e" using outbox_tab.unique_eq [OF assms(1) _ assms(2)] due_events_mem [OF r(1)] by simp
  then show ?thesis using due_events_mem [OF r(1)] by simp
qed

text \<open>A row is as it was before the batch, or it was pending and the batch has touched it.\<close>

lemma batch_row:
  assumes run: "processPendingEvents R cfg refuses locked X io d = (io', d')" and u: "outbox_tab.unique d"
    and e': "e' \<in> set (outbox_events d')"
  obtains "e' \<in> set (outbox_events d)"
  | e io1 where "e \<in> set (outbox_events d)" "o_status e = ''PENDING''" "touched R cfg io1 e e'"
      "set (messages_sent io1) \<subseteq> set (messages_sent io')"
proof (cases "d' = d")
  case True
  then show ?thesis using that(1) e' by simp
next
  case False
  then obtain now io1 where eff: "batch_effect R cfg (o_id ` set (due_events R locked now 10 d)) io1 (outbox_events d) (outbox_events d')"
    and sent: "set (messages_sent io1) \<subseteq> set (messages_sent io')"
    using processPendingEvents_effect [OF run u] by blast
  obtain e where e: "e \<in> set (outbox_events d)"
    "if o_id e \<in> o_id ` set (due_events R locked now 10 d) then touched R cfg io1 e e' else e' = e"
    using e' eff unfolding batch_effect_def by (rule list_all2_right)
  then show ?thesis using that due_pending [OF u e(1)] sent by (cases "o_id e \<in> o_id ` set (due_events R locked now 10 d)") auto
qed

text \<open>A row that is not pending stays.\<close>

lemma batch_keeps_row:
  assumes run: "processPendingEvents R cfg refuses locked X io d = (io', d')" and u: "outbox_tab.unique d"
    and e: "e \<in> set (outbox_events d)" "o_status e \<noteq> ''PENDING''"
  shows "e \<in> set (outbox_events d')"
proof (cases "d' = d")
  case False
  then obtain now io1 where eff: "batch_effect R cfg (o_id ` set (due_events R locked now 10 d)) io1 (outbox_events d) (outbox_events d')"
    using processPendingEvents_effect [OF run u] by blast
  obtain e' where "e' \<in> set (outbox_events d')"
    "if o_id e \<in> o_id ` set (due_events R locked now 10 d) then touched R cfg io1 e e' else e' = e"
    using e(1) eff unfolding batch_effect_def by (rule list_all2_left)
  moreover have "o_id e \<notin> o_id ` set (due_events R locked now 10 d)" using due_pending [OF u e(1)] e(2) by blast
  ultimately show ?thesis by simp
qed (use e in simp)

section \<open>The attempts of an event\<close>

definition attempt_limit :: "config \<Rightarrow> int" where
  "attempt_limit cfg = max 1 (OutboxMaxAttempts cfg)"

definition attempts_ok :: "config \<Rightarrow> outbox_row \<Rightarrow> bool" where
  "attempts_ok cfg r \<longleftrightarrow>
     o_status r \<in> {''PENDING'', ''PUBLISHED'', ''FAILED''} \<and> 0 \<le> o_attempts r \<and> o_attempts r \<le> attempt_limit cfg
     \<and> (o_status r = ''FAILED'' \<longleftrightarrow> o_attempts r = attempt_limit cfg)
     \<and> (o_status r = ''PUBLISHED'' \<longleftrightarrow> o_published_at r \<noteq> None)"

lemma touched_attempts:
  assumes "touched R cfg io r r'" "o_status r = ''PENDING''" "attempts_ok cfg r"
  shows "attempts_ok cfg r'"
proof -
  have a: "0 \<le> o_attempts r" "o_attempts r < attempt_limit cfg" "o_published_at r = None"
    using assms(2,3) by (auto simp: attempts_ok_def)
  have "attempts_ok cfg (publish_row n r)" for n
    using a by (simp add: attempts_ok_def publish_row_def)
  moreover have "attempts_ok cfg (retry_row n (OutboxMaxAttempts cfg) r)" for n
    using a assms(2) by (cases "OutboxMaxAttempts cfg \<le> o_attempts r + 1") (auto simp: attempts_ok_def retry_row_def attempt_limit_def)
  ultimately show ?thesis using assms(1) by (auto simp: touched_def)
qed

lemma fresh_attempts: "fresh_events d d' \<Longrightarrow> list_all (attempts_ok cfg) (outbox_events d) \<Longrightarrow> list_all (attempts_ok cfg) (outbox_events d')"
  by (auto simp: fresh_events_def attempts_ok_def attempt_limit_def list_all_iff)

lemma step_attempts:
  assumes "service_step R cfg d d'" "outbox_tab.unique d" "list_all (attempts_ok cfg) (outbox_events d)"
  shows "list_all (attempts_ok cfg) (outbox_events d')"
  using assms(1)
proof (rule service_stepE)
  fix refuses locked X io io' assume run: "processPendingEvents R cfg refuses locked X io d = (io', d')"
  have "attempts_ok cfg e'" if "e' \<in> set (outbox_events d')" for e'
    by (rule batch_row [OF run assms(2) that]) (use assms(3) touched_attempts in \<open>auto simp: list_all_iff\<close>)
  then show ?thesis by (simp add: list_all_iff)
qed (auto intro: fresh_attempts [OF _ assms(3)] fresh.process_respects fresh.resolve_respects fresh.open_respects)

lemma reachable_attempts:
  assumes "reachable R cfg d"
  shows "list_all (attempts_ok cfg) (outbox_events d)"
  using assms unfolding reachable_def service_run_def
proof (induction rule: rtranclp_induct)
  case base
  show ?case by (simp add: empty_database_def)
next
  case (step d1 d2)
  have "reachable R cfg d1" using step.hyps(1) by (simp add: reachable_def service_run_def)
  then show ?case using step_attempts [OF step.hyps(2) _ step.IH] reachable_ids by blast
qed

text \<open>Published or given up, a row is final.\<close>

lemma step_settled_event:
  assumes "service_step R cfg d d'" "outbox_tab.unique d" "r \<in> set (outbox_events d)" "o_status r \<noteq> ''PENDING''"
  shows "r \<in> set (outbox_events d')"
proof -
  have grows: "r \<in> set (outbox_events d')" if "fresh_events d d'"
    using that assms(3) by (auto simp: fresh_events_def)
  show ?thesis
    by (rule service_stepE [OF assms(1)])
      (auto intro: grows fresh.process_respects fresh.resolve_respects fresh.open_respects batch_keeps_row [OF _ assms(2-4)])
qed

lemma run_settled_event:
  assumes "service_run R cfg d d'" "reachable R cfg d" "r \<in> set (outbox_events d)" "o_status r \<noteq> ''PENDING''"
  shows "r \<in> set (outbox_events d')"
  using assms(1) unfolding service_run_def
proof (induction rule: rtranclp_induct)
  case (step d1 d2)
  have "reachable R cfg d1" using reachable_run [OF assms(2)] step.hyps(1) by (simp add: service_run_def)
  then show ?case using step_settled_event [OF step.hyps(2) _ step.IH assms(4)] reachable_ids by blast
qed (rule assms(3))

section \<open>Published events were sent\<close>

definition sent_of :: "config \<Rightarrow> outbox_row \<Rightarrow> send_message_input" where
  "sent_of cfg r = send_input cfg (event_of_row r)"

definition delivered :: "config \<Rightarrow> world \<Rightarrow> bool" where
  "delivered cfg wd \<longleftrightarrow>
     (\<forall>e \<in> set (outbox_events (world_db wd)). o_status e = ''PUBLISHED'' \<longrightarrow> sent_of cfg e \<in> set (world_sent wd))"

lemma sent_of_publish [simp]: "sent_of cfg (publish_row now r) = sent_of cfg r"
  by (simp add: sent_of_def send_input_def event_of_row_def publish_row_def Let_def)

lemma retry_not_published: "o_status r = ''PENDING'' \<Longrightarrow> o_status (retry_row now n r) \<noteq> ''PUBLISHED''"
  by (simp add: retry_row_def)

lemma fresh_delivered:
  assumes "fresh_events (world_db wd) (world_db wd')" "world_sent wd' = world_sent wd" "delivered cfg wd"
  shows "delivered cfg wd'"
  using assms by (auto simp: fresh_events_def delivered_def)

lemma publish_events_sends:
  "publish_events R cfg refuses tx es io X s = (Inr (err, io'), s') \<Longrightarrow> set (messages_sent io) \<subseteq> set (messages_sent io')"
proof (induction es arbitrary: io s)
  case (Cons e es)
  then show ?case
    by (fastforce simp: Let_def act_run add_outbox_error_def add_outbox_published_def split: if_splits prod.splits sum.splits)
qed (simp add: act_run)

lemma publish_events_fst:
  "fst (publish_events R cfg refuses tx es io X s) = Inr (err, io') \<Longrightarrow> set (messages_sent io) \<subseteq> set (messages_sent io')"
  using publish_events_sends by (metis prod.collapse)

lemma processPendingEvents_sends:
  assumes "processPendingEvents R cfg refuses locked X io d = (io', d')"
  shows "set (messages_sent io) \<subseteq> set (messages_sent io')"
proof -
  have "set (messages_sent io) \<subseteq> set (messages_sent (publisher_after R cfg refuses locked X io d))"
    by (auto simp: publisher_after_def publish_batch_def act_run split: sum.split prod.split
        dest!: publish_events_fst)
  moreover have "messages_sent io' = messages_sent (publisher_after R cfg refuses locked X io d)"
    using assms by (auto simp: processPendingEvents_def Let_def add_outbox_error_def split: prod.splits sum.splits)
  ultimately show ?thesis by simp
qed

lemma batch_delivered:
  assumes "processPendingEvents R cfg refuses locked X io (world_db wd) = (io', world_db wd')"
    "outbox_tab.unique (world_db wd)" "messages_sent io = world_sent wd" "messages_sent io' = world_sent wd'"
    "set (world_sent wd) \<subseteq> set (world_sent wd')" "delivered cfg wd"
  shows "delivered cfg wd'"
  unfolding delivered_def
proof (intro ballI impI)
  fix e' assume e': "e' \<in> set (outbox_events (world_db wd'))" "o_status e' = ''PUBLISHED''"
  from assms(1,2) e'(1) show "sent_of cfg e' \<in> set (world_sent wd')"
  proof (rule batch_row)
    assume "e' \<in> set (outbox_events (world_db wd))"
    then show ?thesis using assms(5,6) e'(2) by (auto simp: delivered_def)
  next
    fix e io1 assume e: "o_status e = ''PENDING''" "touched R cfg io1 e e'" "set (messages_sent io1) \<subseteq> set (messages_sent io')"
    have "e' \<noteq> retry_row n k e" for n k using e(1) e'(2) retry_not_published by auto
    then obtain now' where "e' = publish_row now' e" "sent_of cfg e \<in> set (messages_sent io1)"
      using e(2) unfolding touched_def sent_of_def by blast
    then show ?thesis using e(3) assms(4) by auto
  qed
qed

section \<open>In every state of the system\<close>

definition delivers :: "runtime \<Rightarrow> config \<Rightarrow> world \<times> memory \<Rightarrow> world \<times> memory \<Rightarrow> bool" where
  "delivers R cfg s s' \<longleftrightarrow>
     (reachable R cfg (world_db (fst s)) \<longrightarrow> delivered cfg (fst s) \<longrightarrow> delivered cfg (fst s'))"

interpretation outbox_delivers: worker_task outbox_tick_job "outbox_job R cfg" "delivers R cfg" for R cfg
proof unfold_locales
  fix j job s s' assume job: "outbox_job R cfg j job s = Inr s'"
  obtain io io' where "processPendingEvents R cfg (fst j) (fst (snd j)) (snd (snd j)) io (world_db (fst s)) = (io', world_db (fst s'))"
    "messages_sent io = world_sent (fst s)" "messages_sent io' = world_sent (fst s')"
    using outbox_job_db [of R cfg "fst j" "fst (snd j)" "snd (snd j)" job "fst s" "snd s" s'] job by auto
  then show "delivers R cfg s s'"
    using batch_delivered processPendingEvents_sends reachable_ids unfolding delivers_def by metis
qed (auto simp: delivers_def dest: fetches)

interpretation pending_delivers: worker_task "pending_items R" "pending_job R" "delivers R cfg" for R cfg
proof unfold_locales
  fix j job s s' assume "pending_job R j job s = Inr s'"
  then show "delivers R cfg s s'"
    using pending_job_db [of R j job s s'] fresh.resolve_respects fresh_delivered unfolding delivers_def by metis
qed (auto simp: delivers_def dest: fetches)

interpretation sqs_delivers: worker_task received_messages "message_job R cfg" "delivers R cfg" for R cfg
proof unfold_locales
  fix j job s s' assume "message_job R cfg j job s = Inr s'"
  then show "delivers R cfg s s'"
    using message_job_db [of R cfg "fst j" "snd j" job "fst s" "snd s" s'] fresh.message_respects fresh_delivered
    unfolding delivers_def by (metis prod.collapse)
qed (auto simp: delivers_def dest: fetches)

lemma system_step_delivered:
  assumes "system_step R cfg H J \<sigma> \<sigma>'" "reachable R cfg (system_db \<sigma>)" "delivered cfg (sys_world \<sigma>)"
  shows "delivered cfg (sys_world \<sigma>')"
  using assms(1)
proof cases
  case (request i first_of fetch ping X r d1 resp s')
  then have "fresh_events (system_db \<sigma>) (server_db s')" using fresh.request_respects [OF request(3)] by (simp add: process_server_def)
  then show ?thesis using fresh_delivered [OF _ _ assms(3)] request(1) by (simp add: after_request_def)
next
  case (outbox_event i p eo wo s)
  then show ?thesis
    using outbox_delivers.event_respects [OF outbox_event(4) [unfolded OutboxWorker_step_def]] assms(2,3)
    by (simp add: delivers_def after_event_def)
next
  case (pending_event i p ep wp s)
  then show ?thesis
    using pending_delivers.event_respects [OF pending_event(4) [unfolded PendingReferenceWorker_step_def], of cfg] assms(2,3)
    by (simp add: delivers_def after_event_def)
next
  case (sqs_event i p es ws s)
  then show ?thesis
    using sqs_delivers.event_respects [OF sqs_event(4) [unfolded SQSWorker_step_def]] assms(2,3)
    by (simp add: delivers_def after_event_def)
qed (use assms(3) in simp_all)

lemma run_delivered:
  assumes "system_run R cfg H J \<sigma> \<sigma>'" "reachable R cfg (system_db \<sigma>)" "delivered cfg (sys_world \<sigma>)"
  shows "delivered cfg (sys_world \<sigma>')"
  using assms(1) unfolding system_run_def
proof (induction rule: rtranclp_induct)
  case (step \<sigma>1 \<sigma>2)
  have "service_run R cfg (system_db \<sigma>) (system_db \<sigma>1)" using system_run_service step.hyps(1) unfolding system_run_def by blast
  then show ?case using system_step_delivered reachable_run assms(2) step by blast
qed (rule assms(3))

end
