(* ===== verification/Demo_System.thy ===== *)
theory Demo_System
  imports Demo_Requests Delivery
begin

text \<open>
  The concrete run as one of the system: a process on the database with the new wallet, whose outbox worker publishes the two events of the
  wallet, and whose SQS worker takes the bet from the queue and is then stopped.
\<close>

section \<open>The outbox worker\<close>

definition demo_published :: database where
  "demo_published = demo1\<lparr>outbox_events := map (publish_row 5001) (take 1 (outbox_events demo1)) @ map (publish_row 5002) (drop 1 (outbox_events demo1))\<rparr>"

definition demo_sent :: "send_message_input list" where
  "demo_sent = map (sent_of demo_cfg) (outbox_events demo1)"

lemma event_of_row_simps: "oe_ID (event_of_row r) = o_id r" "oe_Attempts (event_of_row r) = o_attempts r"
  by (simp_all add: event_of_row_def)

lemmas publish_eval =
  processPendingEvents_def publisher_after_def publish_closure_def publish_batch_def FindPendingOutboxEvents_def due_events_def
  event_of_row_simps add_outbox_published_def MarkOutboxAsPublished_def publish_row_def

lemma demo_publish_run:
  "processPendingEvents demo_R demo_cfg (\<lambda>n m. False) (\<lambda>i. False) (demo_X 5000)
     \<lparr>send_calls = 0, messages_sent = [], counters = c\<rparr> demo1 =
   (\<lparr>send_calls = 2, messages_sent = demo_sent, counters = c\<lparr>MetricsOutboxPublished := MetricsOutboxPublished c + 2\<rparr>\<rparr>, demo_published)"
  by (simp add: demo_eval publish_eval demo1_eval demo_published_def demo_sent_def sent_of_def cong: lazy_cong)

section \<open>An update after the read\<close>

text \<open>The wallet is read from the first state and written, with a debit of 30.00, to the state that the outbox worker left behind.\<close>

definition demo_debited :: wallet where
  "demo_debited = \<lparr>wid = ''wal_p1_brl'', playerID = ''p1'', balance = \<lparr>amount = 7000, currency = ''BRL''\<rparr>, version = 2,
     wcreatedAt = 1000, wupdatedAt = 5500\<rparr>"

lemma demo_late_update:
  "\<exists>s'. Wallet_Update demo_R live_tx demo_debited (w_version (demo_wallet 10000 1 1000)) (demo_X 6000) (start_session demo_published 0) = (Inr (), s')"
  by (simp add: demo_eval Wallet_Update_def update_wallet_def demo_debited_def demo_published_def demo1_eval start_session_def)

lemma demo_published_step: "service_run demo_R demo_cfg demo1 demo_published"
  by (rule run_step [OF outbox_step [OF demo_publish_run]])

section \<open>The process\<close>

definition demo_memory :: memory where
  "demo_memory = \<lparr>mem_auth = server_auth (demo_server demo1), mem_metrics = consumer_counters demo_consumer\<rparr>"

definition demo_process :: process where
  "demo_process = \<lparr>proc_memory = demo_memory, outbox_worker = new_worker, pending_worker = new_worker, sqs_worker = new_worker\<rparr>"

text \<open>A system of one process.\<close>

definition demo_system :: "database \<Rightarrow> send_message_input list \<Rightarrow> string option list \<Rightarrow> process \<Rightarrow> system" where
  "demo_system d sent deleted p =
     \<lparr>sys_world = \<lparr>world_db = d, world_sent = sent, world_deleted = deleted\<rparr>, processes = [p]\<rparr>"

lemma demo_moves:
  "OutboxWorker_step R cfg eo (outbox_worker p, sys_world (demo_system d sent del p), proc_memory p)
       = Moves (wo, sys_world (demo_system d' sent' del' p'), m)
     \<Longrightarrow> system_step R cfg H J (demo_system d sent del p) (demo_system d' sent' del' (p\<lparr>outbox_worker := wo, proc_memory := m\<rparr>))"
  "SQSWorker_step R cfg es (sqs_worker p, sys_world (demo_system d sent del p), proc_memory p)
       = Moves (ws, sys_world (demo_system d' sent' del' p'), m)
     \<Longrightarrow> system_step R cfg H J (demo_system d sent del p) (demo_system d' sent' del' (p\<lparr>sqs_worker := ws, proc_memory := m\<rparr>))"
  using outbox_event [of 0 "demo_system d sent del p" p R cfg eo wo _ H J] sqs_event [of 0 "demo_system d sent del p" p R cfg es ws _ H J]
  by (fastforce simp: demo_system_def after_event_def)+

lemma demo_process_simps [simp]: "outbox_worker demo_process = new_worker" "proc_memory demo_process = demo_memory"
  by (simp_all add: demo_process_def)

section \<open>The outbox worker publishes\<close>

definition demo_ticked :: memory where
  "demo_ticked = demo_memory\<lparr>mem_metrics := (mem_metrics demo_memory)\<lparr>MetricsOutboxPublished := 2\<rparr>\<rparr>"

lemma demo_outbox_moves:
  "OutboxWorker_step demo_R demo_cfg EnterStart (new_worker, s) = Moves (new_worker\<lparr>loop_at := Selecting, wait_group := 1\<rparr>, s)"
  "OutboxWorker_step demo_R demo_cfg (TakeTick ()) (new_worker\<lparr>loop_at := Selecting, wait_group := 1\<rparr>, s)
     = Moves (new_worker\<lparr>loop_at := Handling [()], wait_group := 1\<rparr>, s)"
  "OutboxWorker_step demo_R demo_cfg (HandleJob (\<lambda>n m. False, \<lambda>i. False, demo_X 5000))
       (new_worker\<lparr>loop_at := Handling [()], wait_group := 1\<rparr>, sys_world (demo_system demo1 [] [] p), demo_memory)
     = Moves (new_worker\<lparr>loop_at := Handling [], wait_group := 1\<rparr>, sys_world (demo_system demo_published demo_sent [] p), demo_ticked)"
  by (simp_all add: OutboxWorker_step_def worker_step_def new_worker_def outbox_tick_job_def outbox_job_def demo_system_def
      demo_publish_run demo_ticked_def demo_memory_def demo_consumer_def)

definition demo_published_system :: system where
  "demo_published_system = demo_system demo_published demo_sent []
     (demo_process\<lparr>outbox_worker := new_worker\<lparr>loop_at := Handling [], wait_group := 1\<rparr>, proc_memory := demo_ticked\<rparr>)"

lemma demo_system_run:
  "system_run demo_R demo_cfg H J (demo_system demo1 [] [] demo_process) demo_published_system"
proof -
  let ?p1 = "demo_process\<lparr>outbox_worker := new_worker\<lparr>loop_at := Selecting, wait_group := 1\<rparr>, proc_memory := demo_memory\<rparr>"
  let ?p2 = "demo_process\<lparr>outbox_worker := new_worker\<lparr>loop_at := Handling [()], wait_group := 1\<rparr>, proc_memory := demo_memory\<rparr>"
  let ?S = "\<lambda>p. demo_system demo1 [] [] p"
  have "system_step demo_R demo_cfg H J (?S demo_process) (?S ?p1)"
    using demo_moves(1) [of demo_R demo_cfg EnterStart demo_process demo1 "[]" "[]" _ demo1 "[]" "[]" demo_process demo_memory H J]
      demo_outbox_moves(1) by simp
  moreover have "system_step demo_R demo_cfg H J (?S ?p1) (?S ?p2)"
    using demo_moves(1) [of demo_R demo_cfg "TakeTick ()" ?p1 demo1 "[]" "[]" _ demo1 "[]" "[]" ?p1 demo_memory H J]
      demo_outbox_moves(2) by simp
  moreover have "system_step demo_R demo_cfg H J (?S ?p2) demo_published_system"
    using demo_moves(1) [of demo_R demo_cfg "HandleJob (\<lambda>n m. False, \<lambda>i. False, demo_X 5000)" ?p2 demo1 "[]" "[]" _ demo_published demo_sent "[]" ?p2 demo_ticked H J]
      demo_outbox_moves(3) by (simp add: demo_published_system_def)
  ultimately show ?thesis unfolding system_run_def by (meson converse_rtranclp_into_rtranclp rtranclp.rtrancl_refl)
qed

section \<open>The SQS worker is stopped\<close>

text \<open>The stop comes while a message is being processed.\<close>

definition demo_world :: "world \<times> memory" where
  "demo_world = (sys_world (demo_system demo1 [] [] demo_process), demo_memory)"

lemma demo_message_moves:
  "message_job demo_R demo_cfg (\<lambda>n. False, demo_X 2000) demo_message demo_world
     = Inr (sys_world (demo_system demo_claimed [] [Some ''r1''] demo_process),
         demo_memory\<lparr>mem_metrics := (mem_metrics demo_memory)\<lparr>MetricsWagersProcessed := 1\<rparr>\<rparr>)"
  using demo_message_run
  by (simp add: message_job_def demo_world_def demo_system_def demo_memory_def demo_consumer_def deleteMessage_def add_processed_def
      demo_message_def)

definition demo_taking :: "sqs_message worker" where
  "demo_taking = new_worker\<lparr>loop_at := Handling [demo_message], wait_group := 1\<rparr>"

lemma demo_taking_run:
  "worker_run True received_messages (message_job demo_R demo_cfg) (new_worker, demo_world)
     [EnterStart, TakeTick (Inr [demo_message])] (demo_taking, demo_world)"
  by (rule run_events_run)
    (simp add: worker_step_def new_worker_def received_messages_def demo_world_def demo_taking_def)

definition demo_stopping :: "sqs_message worker" where
  "demo_stopping = demo_taking\<lparr>stopChan_closed := True, stop_at := Stopping\<rparr>"

definition demo_stopped :: "sqs_message worker" where
  "demo_stopped = \<lparr>loop_at = Returned, stopChan_closed = True, wait_group = 0, waiter_done = True, stop_at = StopReturned None\<rparr>"

lemma demo_stop_call:
  "worker_step True received_messages (message_job demo_R demo_cfg) CallStop (demo_taking, demo_world) = Moves (demo_stopping, demo_world)"
  by (simp add: worker_step_def demo_taking_def demo_stopping_def new_worker_def)

definition demo_after :: "world \<times> memory" where
  "demo_after = (sys_world (demo_system demo_claimed [] [Some ''r1''] demo_process),
     demo_memory\<lparr>mem_metrics := (mem_metrics demo_memory)\<lparr>MetricsWagersProcessed := 1\<rparr>\<rparr>)"

lemma demo_stopped_run:
  "worker_run True received_messages (message_job demo_R demo_cfg) (demo_stopping, demo_world)
     [HandleJob (\<lambda>n. False, demo_X 2000), EndTick, TakeStop, WaitDone, StopDone] (demo_stopped, demo_after)"
  by (rule run_events_run)
    (simp add: worker_step_def new_worker_def demo_taking_def demo_stopping_def demo_stopped_def demo_message_moves demo_after_def)

end
