(* ===== verification/Demo_Shutdown.thy ===== *)
theory Demo_Shutdown
  imports Process_Lifecycle Demo_System
begin

text \<open>
  The concrete run as the whole life of a process: it starts on the database with the new wallet, publishes the events of the wallet, receives no message,
  answers a probe while its workers are being stopped, and closes the pool.
\<close>

definition demo_boot :: boot_env where
  "demo_boot = \<lparr>boot_parse_error = None, boot_pool_error = None, boot_aws_error = None, boot_ping_error = None, boot_migrate_error = None,
     boot_migration = MigrateNoChange, boot_fetch = FetchFailed (ErrorString ''no route''), boot_time = 1000\<rparr>"

definition demo_fresh :: process where
  "demo_fresh = \<lparr>proc_memory = \<lparr>mem_auth = NewAuthMiddleware demo_cfg (boot_fetch demo_boot) (boot_time demo_boot),
       mem_metrics = \<lparr>MetricsWagersProcessed = 0, MetricsSQSErrors = 0, MetricsOutboxPublished = 0, MetricsOutboxErrors = 0\<rparr>\<rparr>,
     outbox_worker = new_worker, pending_worker = new_worker, sqs_worker = new_worker\<rparr>"

definition demo_app :: app where
  "demo_app = \<lparr>app_process = demo_fresh, app_server = new_server,
     app_hooks = [PoolHook, HTTPServerHook, SQSWorkerHook, OutboxWorkerHook, PendingReferenceWorkerHook], started_hooks = [], pool_closed = False\<rparr>"

lemma demo_app_new: "new_app demo_cfg demo_boot = Inr demo_app"
  by (simp add: new_app_def main_app_def Let_def NewPostgresPool_def NewSQSWorker_def NewOutboxWorker_def StartHTTPServer_def
      StartSQSWorker_def StartOutboxWorker_def StartPendingReferenceWorker_def demo_app_def demo_fresh_def demo_boot_def)

definition demo_probe :: request_env where
  "demo_probe = \<lparr>rq_first_of = (\<lambda>ks. snd (hd ks)), rq_fetch = FetchFailed (ErrorString ''no route''), rq_ping = None, rq_env = demo_X 2000,
     rq_request = \<lparr>req_method = ''GET'', req_path = ''/health/live'', req_authorization = [], req_idempotency_key = [],
       req_body = [], req_body_error = None\<rparr>, rq_snapshot = demo1\<rparr>"

lemma demo_probe_served: "serve_request R cfg H J demo_probe s = s"
  by (cases s) (simp add: serve_request_def demo_probe_def ServeHTTP_def Authenticate_def route_def Let_def)

definition demo_life :: "app_event list" where
  "demo_life =
     [CallOnStart PoolHook, CallOnStart HTTPServerHook, CallOnStart SQSWorkerHook, CallOnStart OutboxWorkerHook,
      CallOnStart PendingReferenceWorkerHook, Server Listen, SQS EnterStart, Outbox EnterStart, Pending EnterStart,
      Server Accept, Outbox (TakeTick ()), Outbox (HandleJob (\<lambda>n m. False, \<lambda>i. False, demo_X 5000)), SQS (TakeTick (Inr [])),
      Pending CallStop, Server (Answer_Request demo_probe), Pending TakeStop, Pending WaitDone, Pending StopDone,
      Outbox CallStop, Outbox EndTick, Outbox TakeStop, Outbox WaitDone, Outbox StopDone,
      SQS CallStop, SQS EndTick, SQS TakeStop, SQS WaitDone, SQS StopDone, Server CallShutdown, Server ShutdownDone]"

definition demo_start :: world where
  "demo_start = sys_world (demo_system demo1 [] [] demo_process)"

definition demo_end :: world where
  "demo_end = sys_world (demo_system demo_published demo_sent [] demo_process)"

definition demo_returned :: "'job worker" where
  "demo_returned = \<lparr>loop_at = Returned, stopChan_closed = True, wait_group = 0, waiter_done = True, stop_at = StopReturned None\<rparr>"

definition demo_at_rest :: app where
  "demo_at_rest = demo_app\<lparr>
     app_process := \<lparr>proc_memory = (proc_memory demo_fresh)\<lparr>mem_metrics := (mem_metrics (proc_memory demo_fresh))\<lparr>MetricsOutboxPublished := 2\<rparr>\<rparr>,
       outbox_worker = demo_returned, pending_worker = demo_returned, sqs_worker = demo_returned\<rparr>,
     app_server := \<lparr>serving = False, closing = True, active_requests = 0, shutdown_asked = False, shutdown_at = StopReturned None\<rparr>,
     started_hooks := app_hooks demo_app, pool_closed := True\<rparr>"

lemma demo_outbox_job:
  "outbox_job demo_R demo_cfg (\<lambda>n m. False, \<lambda>i. False, demo_X 5000) job (demo_start, m)
     = Inr (demo_end, m\<lparr>mem_metrics := (mem_metrics m)\<lparr>MetricsOutboxPublished := MetricsOutboxPublished (mem_metrics m) + 2\<rparr>\<rparr>)"
  by (simp add: outbox_job_def demo_start_def demo_end_def demo_system_def demo_publish_run)

lemma demo_life_run:
  "run_app demo_R demo_cfg H J demo_boot (demo_life @ [ClosePool]) (demo_app, demo_start) = Moves (demo_at_rest, demo_end)"
  by (simp add: demo_life_def app_step_def in_process_def demo_app_def demo_fresh_def demo_at_rest_def demo_boot_def pool_OnStart_def runMigrations_def
      pool_OnStop_def new_server_def new_worker_def OutboxWorker_step_def SQSWorker_step_def PendingReferenceWorker_step_def worker_step_def
      outbox_tick_job_def received_messages_def demo_outbox_job demo_probe_served pool_gives_def demo_returned_def)

end
