(* ===== verification/Progress.thy ===== *)
theory Progress
  imports Service_Guarantees Json_Text
begin

text \<open>
  That the service does answer: in an environment without faults a valid wager whose identifiers are new and fit their columns is always settled. The
  other theories say what a successful run has done; here runs are shown to succeed, statement by statement, with a
  predicate for total correctness in the style of a weakest precondition.
\<close>

section \<open>Runs that succeed\<close>

definition succeeds :: "txenv \<Rightarrow> 'a action \<Rightarrow> session \<Rightarrow> ('a \<Rightarrow> session \<Rightarrow> bool) \<Rightarrow> bool" where
  "succeeds X m s P \<longleftrightarrow> (\<exists>a s'. m X s = (Inr a, s') \<and> \<not> aborted s' \<and> P a s')"

lemma succeeds_mono: "succeeds X m s P \<Longrightarrow> (\<And>a s'. \<not> aborted s' \<Longrightarrow> P a s' \<Longrightarrow> Q a s') \<Longrightarrow> succeeds X m s Q"
  by (auto simp: succeeds_def)

lemma succeeds_return: "\<not> aborted s \<Longrightarrow> P a s \<Longrightarrow> succeeds X (act_return a) s P"
  by (simp add: succeeds_def act_return_def)

lemma succeeds_now: "\<not> aborted s \<Longrightarrow> P (clock X (ticks s)) (s\<lparr>ticks := Suc (ticks s)\<rparr>) \<Longrightarrow> succeeds X act_now s P"
  by (simp add: succeeds_def act_now_def)

lemma succeeds_pure: "r = Inr a \<Longrightarrow> \<not> aborted s \<Longrightarrow> P a s \<Longrightarrow> succeeds X (act_pure r) s P"
  by (simp add: succeeds_def act_pure_def)

lemma succeeds_bind:
  assumes "succeeds X m s (\<lambda>a s'. succeeds X (f a) s' P)"
  shows "succeeds X (act_bind m f) s P"
  using assms by (fastforce simp: succeeds_def act_run)

lemma succeeds_try:
  assumes "succeeds X m s (\<lambda>a s'. succeeds X (f a) s' P)"
  shows "succeeds X (act_try m h f) s P"
  using assms by (fastforce simp: succeeds_def act_run)

lemma succeeds_wrap: "succeeds X m s P \<Longrightarrow> succeeds X (wrap_err msg m) s P"
  by (fastforce simp: succeeds_def wrap_err_def act_run)

lemma succeeds_exec:
  assumes "fault_free X" "\<not> aborted s" "f (db s) = Inr d" "P () (s\<lparr>stmts := Suc (stmts s), db := d\<rparr>)"
  shows "succeeds X (sql_exec f) s P"
  using assms by (simp add: succeeds_def sql_exec_run)

lemma succeeds_stmt:
  assumes "fault_free X" "\<not> aborted s" "f (db s) = Inr (a, d)" "P a (s\<lparr>stmts := Suc (stmts s), db := d\<rparr>)"
  shows "succeeds X (exec_stmt f) s P"
  using assms by (simp add: succeeds_def exec_stmt_def Let_def fault_free_def)

lemma succeeds_query:
  assumes "fault_free X" "\<not> aborted s" "list_all pg_text ps" "P (q (db s)) (s\<lparr>stmts := Suc (stmts s)\<rparr>)"
  shows "succeeds X (sql_query ps q) s P"
  using assms by (simp add: succeeds_def sql_query_run)

lemma succeeds_execute:
  assumes "fault_free X" "succeeds X (body live_tx) (start_session d n) (\<lambda>a s'. True)"
  shows "\<exists>a d'. ExecuteInTransaction X n body d = (Inr a, d')"
  using assms Execute_body_ok [of body X d n] by (fastforce simp: succeeds_def fault_free_def)

section \<open>Identifiers of events\<close>

definition event_id :: "string \<Rightarrow> int \<Rightarrow> string" where
  "event_id aggregate now = ''evt_'' @ aggregate @ ''_'' @ show_int now"

lemma show_int_no_underscore: "CHR ''_'' \<notin> set (show_int i)"
proof -
  have "CHR ''_'' \<notin> set (show_nat n)" for n
    using show_nat_digits [of n] by (auto simp: list_all_iff is_digit_def byte_val_def)
  then show ?thesis by (simp add: show_int_def)
qed

text \<open>The text after the last underscore is the time.\<close>

lemma event_id_time: "event_id a m = event_id b n \<Longrightarrow> m = n"
proof -
  have tail: "takeWhile (\<lambda>c. c \<noteq> CHR ''_'') (rev (event_id x i)) = rev (show_int i)" for x i
    using show_int_no_underscore [of i] by (subst event_id_def) (auto simp: takeWhile_append2 takeWhile_tail)
  assume "event_id a m = event_id b n"
  then have "rev (show_int m) = rev (show_int n)" by (metis tail)
  then show ?thesis by (simp add: show_int_inj)
qed

text \<open>A call reads the clock at most eight times: what follows says something of its first eight readings only.\<close>

definition readings :: nat where
  "readings = 8"

definition event_room :: "txenv \<Rightarrow> string \<Rightarrow> database \<Rightarrow> bool" where
  "event_room X aggregate d \<longleftrightarrow>
     pg_short 64 aggregate
     \<and> list_all (\<lambda>n. pg_short 64 (event_id aggregate (clock X n)) \<and> event_id aggregate (clock X n) \<notin> o_id ` set (outbox_events d))
         [0..<readings]"

lemma succeeds_event:
  assumes "fault_free X" "\<not> aborted s" "pg_short 64 a" "pg_short 64 (event_id a (clock X (ticks s)))"
    "event_id a (clock X (ticks s)) \<notin> o_id ` set (outbox_events (db s))" "pg_short 100 name" "pg_text payload"
    and P: "\<And>e s'. o_id e = event_id a (clock X (ticks s)) \<Longrightarrow> db s' = add_events [e] (db s) \<Longrightarrow> \<not> aborted s'
      \<Longrightarrow> ticks s' = Suc (ticks s) \<Longrightarrow> P () s'"
  shows "succeeds X (saveOutboxEvent R live_tx a name payload) s P"
proof -
  let ?e = "\<lparr>oe_ID = event_id a (clock X (ticks s)), oe_AggregateID = a, oe_EventType = name, oe_Payload = payload,
    oe_Status = ''PENDING'', oe_Attempts = 0, oe_NextSendAt = clock X (ticks s), oe_CreatedAt = clock X (ticks s)\<rparr>"
  have pend: "pg_short 20 ''PENDING''" by (rule graphic_pg_short) (simp_all add: is_graphic_def byte_val_def)
  have "insert_outbox (outbox_row_of R ?e) (db s) = Inr (add_events [stored_outbox (outbox_row_of R ?e)] (db s))"
    using assms(3-7) pend
    by (simp add: insert_outbox_Inr add_events_def columns_fit_def outbox_row_of_def stored_outbox_def pg_short_fits pg_short_trunc
        outbox_check_def)
  moreover have "o_id (stored_outbox (outbox_row_of R ?e)) = event_id a (clock X (ticks s))"
    using assms(4) by (simp add: stored_outbox_def outbox_row_of_def pg_short_trunc)
  ultimately show ?thesis
    unfolding saveOutboxEvent_def SaveOutbox_def guard_tx_live event_id_def [symmetric]
    using assms(1,2) by (intro succeeds_bind succeeds_now succeeds_exec P) auto
qed

section \<open>Room for a new transaction\<close>

definition room_for :: "txenv \<Rightarrow> input_dto \<Rightarrow> database \<Rightarrow> bool" where
  "room_for X input d \<longleftrightarrow>
     uncut input \<and> pg_short 255 (in_IdempotencyKey input) \<and> pg_short 64 (in_PlayerID input)
     \<and> pg_short 64 (in_RoundID input) \<and> pg_short 64 (in_GameID input) \<and> pg_short 64 (in_ReferenceExternalID input)
     \<and> pg_short 64 (''led_'' @ internal_tx_id input)
     \<and> internal_tx_id input \<notin> t_id ` set (wager_transactions d)
     \<and> ''led_'' @ internal_tx_id input \<notin> l_id ` set (wallet_ledger_entries d)
     \<and> distinct (map (clock X) [0..<readings]) \<and> event_room X (in_WalletID input) d \<and> event_room X (internal_tx_id input) d"

text \<open>What a validated transaction has besides the fields of \<open>prepared_fields\<close>.\<close>

lemma prepared_rest:
  assumes "prepare_wager R cfg now input = Inr t"
  shows "roundID t = in_RoundID input" "gameID t = in_GameID input" "referenceExternalID t = in_ReferenceExternalID input"
    "failureCode t = ''''" "pg_short 64 (payloadHash t)" "kind t \<noteq> KindLoss \<Longrightarrow> 0 < cents (wmoney t)"
  using assms graphic_pg_short [OF sha256_hex_graphic]
  by (auto simp: prepare_wager_Inr CalculateAndSetPayloadHash_def new_wager_def RehydrateWagerTransaction_def
      valid_wager_fields_def)

definition settled_as :: "wager \<Rightarrow> transaction_status \<Rightarrow> string \<Rightarrow> int \<Rightarrow> wager" where
  "settled_as t st code now = t\<lparr>status := st, failureCode := code, updatedAt := now\<rparr>"

lemma short_constants:
  "pg_short 30 ''PROCESSED''" "pg_short 30 ''REJECTED''" "pg_short 30 ''PENDING_REFERENCE''" "pg_short 50 ''INSUFFICIENT_BALANCE''"
  "pg_short 20 ''BET''" "pg_short 20 ''WIN''" "pg_short 20 ''LOSS''" "pg_short 20 ''REFUND''" "pg_short 20 ''ROLLBACK''"
  "pg_short 6 ''DEBIT''" "pg_short 6 ''CREDIT''"
  "pg_short 100 ''WalletBalanceChanged''" "pg_short 100 ''WagerTransactionProcessed''" "pg_short 100 ''WagerTransactionRejected''"
  "pg_short 100 ''WagerTransactionPendingReference''"
  by (rule graphic_pg_short; simp add: is_graphic_def byte_val_def)+

lemma insert_new_tx:
  assumes t: "prepare_wager R cfg now input = Inr t" and room: "room_for X input d" and none: "existing_for input d = None"
    and w: "wallet_by_id (in_WalletID input) d = Some q" and cur: "pg_short 3 (currency (wmoney t))"
    and st: "st \<in> {StatusProcessed, StatusRejected, StatusPendingReference}" "code \<in> {'''', ''INSUFFICIENT_BALANCE''}"
  shows "insert_tx (tx_row_of R (settled_as t st code u) retry) d = Inr (add_tx R (settled_as t st code u) retry d)"
proof -
  let ?r = "tx_row_of R (settled_as t st code u) retry"
  note f = prepared_fields [OF t] prepared_rest [OF t]
  have k: "kind t \<in> {''BET'', ''WIN'', ''LOSS'', ''REFUND'', ''ROLLBACK''}" using prepared_money(3) [OF t] by (simp add: kind_defs)
  have st': "st \<in> {''PROCESSED'', ''REJECTED'', ''PENDING_REFERENCE''}" using st by (auto simp: status_defs)
  have short: "pg_short 20 (kind t)" "pg_short 30 st" "code \<noteq> [] \<Longrightarrow> pg_short 50 code"
    using k st' st(2) short_constants by auto
  have cols: "list_all (\<lambda>(n, s). pg_short n s) (tx_columns ?r)"
    using room f(1-4,6-8,10-14) cur short by (simp add: room_for_def uncut_def tx_columns_def tx_row_of_def settled_as_def null_if_empty_def)
  have fits: "columns_fit (tx_columns ?r)"
    using cols by (auto simp: columns_fit_def list_all_iff pg_short_fits)
  have r: "stored_tx ?r = ?r"
    using cols by (auto simp: stored_tx_def tx_columns_def pg_short_trunc split: option.splits)
  have "q \<in> set (wallets d) \<and> w_id q = in_WalletID input"
    using w by (auto simp: wallet_by_id_def dest: find_SomeD)
  then have wal: "in_WalletID input \<in> w_id ` set (wallets d)" by (metis imageI)
  have "tx_check ?r" using k st' by (auto simp: tx_check_def tx_row_of_def settled_as_def)
  moreover have "tx_by_external (in_ProviderID input) (in_ExternalTransactionID input) d = None"
    "tx_by_key (in_IdempotencyKey input) d = None"
    using none by (auto simp: existing_for_def split: option.splits)
  then have "external_key ?r \<notin> external_key ` set (wager_transactions d)"
    "t_idempotency_key ?r \<notin> t_idempotency_key ` set (wager_transactions d)"
    using f by (auto simp: tx_by_external_def tx_by_key_def find_None_iff external_key_def tx_row_of_def settled_as_def)
  moreover have "t_id ?r \<notin> t_id ` set (wager_transactions d)"
    using room f by (simp add: room_for_def tx_row_of_def settled_as_def)
  moreover have "t_wallet_id ?r \<in> w_id ` set (wallets d)"
    using wal f(2) by (simp add: tx_row_of_def settled_as_def)
  ultimately show ?thesis using fits r by (simp add: insert_tx_Inr add_tx_def)
qed

section \<open>The statements of a settlement\<close>

lemma succeeds_save:
  assumes "fault_free X" "\<not> aborted s" "insert_tx (tx_row_of R p retry) (db s) = Inr d"
    and P: "\<And>s'. db s' = d \<Longrightarrow> ticks s' = ticks s \<Longrightarrow> \<not> aborted s' \<Longrightarrow> P () s'"
  shows "succeeds X (SaveWithRetryAt R live_tx p retry) s P"
  unfolding SaveWithRetryAt_def guard_tx_live
  using assms by (intro succeeds_try succeeds_exec succeeds_return) auto

definition movement :: "string \<Rightarrow> int \<Rightarrow> int \<Rightarrow> int \<Rightarrow> bool" where
  "movement dir amt before after \<longleftrightarrow>
     (dir = ''CREDIT'' \<and> after = before + amt \<or> dir = ''DEBIT'' \<and> after = before - amt)
     \<and> 0 < amt \<and> 0 \<le> before \<and> 0 \<le> after"

lemma succeeds_move:
  assumes X: "fault_free X" "\<not> aborted s"
    and w: "wid w = w_id q" "version w = w_version q + 1" "q \<in> set (wallets (db s))" "pg_short 64 (w_id q)" "0 < sint (version w)"
    and m: "movement dir (cents (wmoney p)) (sint (w_amount q)) (cents (balance w))"
    and fresh: "''led_'' @ txid p \<notin> l_id ` set (wallet_ledger_entries (db s))"
      "(w_id q, txid p) \<notin> ledger_key ` set (wallet_ledger_entries (db s))"
      "txid p \<in> t_id ` set (wager_transactions (db s))"
    and short: "pg_short 64 (''led_'' @ txid p)" "pg_short 64 (txid p)"
    and P: "\<And>s'. outbox_events (db s') = outbox_events (db s) \<Longrightarrow> ticks s' = Suc (ticks s) \<Longrightarrow> \<not> aborted s' \<Longrightarrow> P () s'"
  shows "succeeds X (move_funds R live_tx p w dir (w_version q) (w_amount q)) s P"
proof -
  let ?upd = "update_where (\<lambda>r. w_id r = wid w \<and> w_version r = w_version q)
    (\<lambda>r. r\<lparr>w_amount := amount (balance w), w_version := version w, w_updated_at := store_time R (wupdatedAt w)\<rparr>)"
  let ?d = "(db s)\<lparr>wallets := ?upd (wallets (db s))\<rparr>"
  define n where "n = length (filter (\<lambda>r. w_id r = wid w \<and> w_version r = w_version q) (wallets (db s)))"
  have "filter (\<lambda>r. w_id r = wid w \<and> w_version r = w_version q) (wallets (db s)) \<noteq> []"
    using w(1,3) by (auto simp: filter_empty_conv)
  then have n: "n \<noteq> 0" by (simp add: n_def)
  have upd: "update_wallet (amount (balance w)) (version w) (store_time R (wupdatedAt w)) (wid w) (w_version q) (db s) = Inr (n, ?d)"
    using w m by (auto simp: update_wallet_def Let_def n_def movement_def cents_def pg_short_def)
  have dir: "pg_short 6 dir" "dir \<in> {''CREDIT'', ''DEBIT''}" using m short_constants by (auto simp: movement_def)
  let ?row = "\<lambda>now. ledger_row_of R now (ledger_entry_for p w dir (w_amount q))"
  have row: "stored_ledger (?row now) = ?row now" for now
    using short w(1,4) dir(1) by (simp add: stored_ledger_def ledger_row_of_def ledger_entry_for_def pg_short_trunc)
  have "map w_id (wallets ?d) = map w_id (wallets (db s))" by (simp add: map_update_where)
  then have "w_id ` set (wallets ?d) = w_id ` set (wallets (db s))" by (metis set_map)
  then have "w_id q \<in> w_id ` set (wallets ?d)" using w(3) by simp
  then have ins: "insert_ledger (?row now) ?d = Inr (?d\<lparr>wallet_ledger_entries := wallet_ledger_entries (db s) @ [?row now]\<rparr>)" for now
    using short w(1,4) dir m fresh unfolding insert_ledger_Inr row
    by (auto simp: columns_fit_def pg_short_fits ledger_row_of_def ledger_entry_for_def ledger_check_def movement_def cents_def
        ledger_key_def)
  show ?thesis
    unfolding move_funds_def Wallet_Update_def SaveLedgerEntry_def guard_tx_live
    using X upd n ins
    by (intro succeeds_bind succeeds_wrap succeeds_now succeeds_exec succeeds_stmt) (auto intro!: succeeds_bind succeeds_return succeeds_now succeeds_wrap succeeds_exec P)
qed

section \<open>A settlement\<close>

text \<open>What the settlement of a valid wager starts from: the validated transaction, room for it, and its wallet.\<close>

definition ready ::
  "runtime \<Rightarrow> config \<Rightarrow> txenv \<Rightarrow> input_dto \<Rightarrow> wager \<Rightarrow> wallet_row \<Rightarrow> database \<Rightarrow> bool" where
  "ready R cfg X input t q d \<longleftrightarrow>
     fault_free X \<and> ledger_inv d \<and> prepare_wager R cfg (clock X 0) input = Inr t \<and> room_for X input d
     \<and> existing_for input d = None \<and> wallet_by_id (in_WalletID input) d = Some q \<and> w_player_id q = in_PlayerID input
     \<and> currency (NewInternalMoney R (w_amount q) (w_currency q)) = currency (wmoney t)
     \<and> pg_short 3 (currency (wmoney t)) \<and> 0 < sint (w_version q) \<and> in_int64 (sint (w_version q) + 1)"

lemma ready_wallet:
  assumes "ready R cfg X input t q d"
  shows "q \<in> set (wallets d)" "w_id q = in_WalletID input" "0 \<le> sint (w_amount q)" "pg_short 64 (w_id q)"
    "0 < sint (w_version q + 1)"
proof -
  show q: "q \<in> set (wallets d)" "w_id q = in_WalletID input"
    using assms by (auto simp: ready_def wallet_by_id_def dest: find_SomeD)
  show "0 \<le> sint (w_amount q)" using q(1) assms by (auto simp: ready_def ledger_inv_def books_def balance_inv_def)
  show "pg_short 64 (w_id q)" using q(2) assms by (simp add: ready_def room_for_def uncut_def)
  have "sint (w_version q + 1) = sint (w_version q) + 1"
    using assms by (simp add: ready_def sint_word_ariths signed_take_bit_int_eq_self in_int64_def)
  then show "0 < sint (w_version q + 1)" using assms by (simp add: ready_def)
qed

lemma ready_entries:
  assumes "ready R cfg X input t q d"
  shows "(w_id q, txid t) \<notin> ledger_key ` set (wallet_ledger_entries d)"
proof
  assume "(w_id q, txid t) \<in> ledger_key ` set (wallet_ledger_entries d)"
  then obtain l where l: "l \<in> set (wallet_ledger_entries d)" "l_transaction_id l = txid t" by (auto simp: ledger_key_def)
  have "entries_inv d" using assms by (simp add: ready_def ledger_inv_def books_def)
  then obtain r where "r \<in> set (wager_transactions d)" "t_id r = txid t"
    using l by (auto simp: entries_inv_def records_def)
  then have "txid t \<in> t_id ` set (wager_transactions d)" by (metis imageI)
  then show False using assms prepared_fields(1) by (auto simp: ready_def room_for_def)
qed

lemma ready_insert:
  assumes "ready R cfg X input t q d" "st \<in> {StatusProcessed, StatusRejected, StatusPendingReference}"
    "code \<in> {'''', ''INSUFFICIENT_BALANCE''}"
  shows "insert_tx (tx_row_of R (settled_as t st code u) retry) d = Inr (add_tx R (settled_as t st code u) retry d)"
  using assms(1) insert_new_tx [OF _ _ _ _ _ assms(2,3)] unfolding ready_def by blast

lemma settled_same [simp]:
  "txid (settled_as t st code u) = txid t" "wmoney (settled_as t st code u) = wmoney t"
  "wallets (add_tx R p retry d) = wallets d" "wallet_ledger_entries (add_tx R p retry d) = wallet_ledger_entries d"
  "outbox_events (add_tx R p retry d) = outbox_events d"
  by (simp_all add: settled_as_def add_tx_def)

lemma ready_stored:
  assumes "ready R cfg X input t q d"
  shows "txid t \<in> t_id ` set (wager_transactions (add_tx R (settled_as t st code u) retry d))"
proof -
  have "pg_trunc 64 (txid t) = txid t"
    using assms prepared_fields(1) by (auto simp: ready_def room_for_def uncut_def pg_short_trunc)
  then show ?thesis by (simp add: add_tx_def tx_row_of_def settled_as_def)
qed

text \<open>An event of the call is new: the events it has written before bear earlier times.\<close>

lemma succeeds_event_after:
  assumes X: "fault_free X" "distinct (map (clock X) [0..<readings])" "event_room X a d"
    and s: "\<not> aborted s" "ticks s < readings" "\<And>e. e \<in> set es \<Longrightarrow> \<exists>b k. o_id e = event_id b (clock X k) \<and> k < ticks s"
    and d: "outbox_events (db s) = outbox_events d @ es" and name: "pg_short 100 name" and payload: "pg_text payload"
    and P: "\<And>e s'. o_id e = event_id a (clock X (ticks s)) \<Longrightarrow> db s' = add_events [e] (db s) \<Longrightarrow> \<not> aborted s'
      \<Longrightarrow> ticks s' = Suc (ticks s) \<Longrightarrow> P () s'"
  shows "succeeds X (saveOutboxEvent R live_tx a name payload) s P"
proof (rule succeeds_event [OF X(1) s(1)])
  show "pg_short 64 a" "pg_short 64 (event_id a (clock X (ticks s)))"
    using X(3) s(2) by (simp_all add: event_room_def list_all_iff)
  have "event_id a (clock X (ticks s)) \<notin> o_id ` set es"
  proof
    assume "event_id a (clock X (ticks s)) \<in> o_id ` set es"
    then obtain b k where "event_id a (clock X (ticks s)) = event_id b (clock X k)" "k < ticks s" using s(3) by fastforce
    then show False using event_id_time [of a "clock X (ticks s)" b "clock X k"] X(2) s(2)
      by (auto simp: distinct_map dest: inj_onD)
  qed
  then show "event_id a (clock X (ticks s)) \<notin> o_id ` set (outbox_events (db s))"
    using X(3) s(2) d by (auto simp: event_room_def list_all_iff)
qed (use name payload P in simp_all)

text \<open>Two events one after the other, as a settlement and a resolution write them.\<close>

lemma succeeds_two_events:
  assumes X: "fault_free X" "distinct (map (clock X) [0..<readings])" "event_room X a d" "event_room X b d"
    and s: "\<not> aborted s" "ticks s + 2 \<le> readings" "outbox_events (db s) = outbox_events d"
    and texts: "pg_short 100 n1" "pg_text p1" "pg_short 100 n2" "pg_text p2"
  shows "succeeds X (saveOutboxEvent R live_tx a n1 p1) s (\<lambda>_ s1. succeeds X (saveOutboxEvent R live_tx b n2 p2) s1 (\<lambda>_ s2. True))"
proof (rule succeeds_event_after [OF X(1-3) s(1), of "[]"])
  fix e and s1 :: session
  assume e: "o_id e = event_id a (clock X (ticks s))" "db s1 = add_events [e] (db s)" "\<not> aborted s1" "ticks s1 = Suc (ticks s)"
  show "succeeds X (saveOutboxEvent R live_tx b n2 p2) s1 (\<lambda>_ s2. True)"
  proof (rule succeeds_event_after [OF X(1,2,4) e(3), of "[e]"])
    show "\<exists>b k. o_id e' = event_id b (clock X k) \<and> k < ticks s1" if "e' \<in> set [e]" for e'
      using that e(1,4) by auto
  qed (use e s texts in \<open>simp_all add: add_events_def\<close>)
qed (use s texts in simp_all)

text \<open>A settlement's context: what \<open>ready\<close> says of its events.\<close>

lemma ready_events:
  assumes "ready R cfg X input t q d"
  shows "fault_free X" "distinct (map (clock X) [0..<readings])" "event_room X (w_id q) d" "event_room X (txid t) d"
  using assms ready_wallet(2) [OF assms] prepared_fields(1) by (auto simp: ready_def room_for_def)

text \<open>The event of the transaction, which every branch writes, possibly after the one of the wallet.\<close>

lemma succeeds_tx_event:
  assumes r: "ready R cfg X input t q d" and s: "\<not> aborted s" "ticks s < readings" "\<And>e. e \<in> set es \<Longrightarrow> \<exists>a k. o_id e = event_id a (clock X k) \<and> k < ticks s"
    and d: "outbox_events (db s) = outbox_events d @ es" and name: "pg_short 100 name"
    and P: "\<And>s'. \<not> aborted s' \<Longrightarrow> P () s'"
  shows "succeeds X (saveOutboxEvent R live_tx (txid t) name ''{}'') s P"
proof (rule succeeds_event_after [OF ready_events(1,2,4) [OF r] s(1,2)])
  show "pg_text ''{}''" using marshal_text(2) by (simp add: marshal_opaque_struct_def)
qed (use s(3) d name P in simp_all)

lemma succeeds_finish:
  assumes r: "ready R cfg X input t q d" and s: "\<not> aborted s" "db s = add_tx R p None d" "p = settled_as t st code u" "ticks s + 3 \<le> readings"
    and w: "wid w = w_id q" "version w = w_version q + 1"
      "movement dir (cents (wmoney t)) (sint (w_amount q)) (cents (balance w))"
  shows "succeeds X (finish R live_tx p w dir True (w_version q) (w_amount q)) s (\<lambda>oc s'. True)"
proof -
  note q = ready_wallet [OF r] and f = prepared_fields(1)
  have X: "fault_free X" and room: "room_for X input d" "txid t = internal_tx_id input"
    using r f by (auto simp: ready_def)
  have tx: "txid p = txid t" "wmoney p = wmoney t" using s(3) by simp_all
  have stored: "txid p \<in> t_id ` set (wager_transactions (db s))" using ready_stored [OF r] s(2,3) by simp
  show ?thesis
    unfolding finish_def if_True
  proof (rule succeeds_bind, rule succeeds_bind, rule succeeds_move [OF X s(1) w(1,2)])
    fix s1 :: session assume s1: "outbox_events (db s1) = outbox_events (db s)" "ticks s1 = Suc (ticks s)" "\<not> aborted s1"
    have two: "succeeds X (saveOutboxEvent R live_tx (wid w) ''WalletBalanceChanged'' (balance_changed_payload R p w dir (w_amount q))) s1
        (\<lambda>_ s'. succeeds X (saveOutboxEvent R live_tx (txid t) ''WagerTransactionProcessed'' (marshal_opaque_struct p)) s' (\<lambda>_ s2. True))"
      unfolding w(1)
      by (rule succeeds_two_events [OF ready_events [OF r] s1(3)])
        (use s s1 in \<open>simp_all add: short_constants balance_changed_payload_def marshal_text\<close>)
    show "succeeds X (saveOutboxEvent R live_tx (wid w) ''WalletBalanceChanged''
        (balance_changed_payload R p w dir (w_amount q))) s1
      (\<lambda>a s'. succeeds X (act_bind (saveOutboxEvent R live_tx (txid p) ''WagerTransactionProcessed'' (marshal_opaque_struct p))
         (\<lambda>_. act_return (p, w, False))) s' (\<lambda>oc s'. True))"
    proof (rule succeeds_mono [OF two])
      fix u :: unit and s' :: session
      assume "\<not> aborted s'" "succeeds X (saveOutboxEvent R live_tx (txid t) ''WagerTransactionProcessed'' (marshal_opaque_struct p)) s' (\<lambda>_ s2. True)"
      then show "succeeds X (act_bind (saveOutboxEvent R live_tx (txid p) ''WagerTransactionProcessed'' (marshal_opaque_struct p))
         (\<lambda>_. act_return (p, w, False))) s' (\<lambda>oc s'. True)"
        unfolding tx(1) by (intro succeeds_bind) (auto elim!: succeeds_mono intro: succeeds_return)
    qed
  next
    show "q \<in> set (wallets (db s))" "pg_short 64 (w_id q)" using q s(2) by simp_all
    show "0 < sint (version w)" using q(5) w(2) by simp
    show "movement dir (cents (wmoney p)) (sint (w_amount q)) (cents (balance w))" using w(3) tx(2) by simp
    show "''led_'' @ txid p \<notin> l_id ` set (wallet_ledger_entries (db s))" "pg_short 64 (''led_'' @ txid p)" "pg_short 64 (txid p)"
      using room tx s(2) by (simp_all add: room_for_def uncut_def)
    show "(w_id q, txid p) \<notin> ledger_key ` set (wallet_ledger_entries (db s))" using ready_entries [OF r] tx s(2) by simp
    show "txid p \<in> t_id ` set (wager_transactions (db s))" by (rule stored)
  qed
qed

lemma ready_pending:
  assumes "ready R cfg X input t q d"
  shows "status t = StatusPending" "failureCode t = ''''" "\<not> IsTerminal t"
  using assms prepared_fields(5) prepared_rest(4) by (auto simp: ready_def IsTerminal_def status_defs)

lemma settled_forms:
  assumes "failureCode t = ''''"
  shows "t\<lparr>status := st, updatedAt := u\<rparr> = settled_as t st '''' u"
  using assms by (cases t) (simp add: settled_as_def)

lemma succeeds_settle:
  assumes r: "ready R cfg X input t q d" and s: "\<not> aborted s" "db s = d" "ticks s + 4 \<le> readings"
    and w: "wid w = w_id q" "version w = w_version q + 1"
      "movement dir (cents (wmoney t)) (sint (w_amount q)) (cents (balance w))"
  shows "succeeds X (settle R live_tx input t w dir True (w_version q) (w_amount q)) s (\<lambda>oc s'. True)"
  unfolding settle_def Tx_Save_def
proof (intro succeeds_bind succeeds_now succeeds_try)
  let ?p = "settled_as t StatusProcessed '''' (clock X (ticks s))"
  have tr: "TransitionToProcessed (clock X (ticks s)) t = Inr ?p"
    using ready_pending [OF r] by (simp add: TransitionToProcessed_Inr settled_forms)
  have X: "fault_free X" using r by (simp add: ready_def)
  show "succeeds X (act_pure (TransitionToProcessed (clock X (ticks s)) t)) (s\<lparr>ticks := Suc (ticks s)\<rparr>)
     (\<lambda>a s'. succeeds X (act_try (SaveWithRetryAt R live_tx a None) (handleSaveConflict R live_tx input a)
        (\<lambda>_. finish R live_tx a w dir True (w_version q) (w_amount q))) s' (\<lambda>oc s'. True))"
    using X s(2,3) succeeds_finish [OF r _ _ refl _ w] ready_insert [OF r, of StatusProcessed "''''"]
    by (intro succeeds_pure [OF tr] succeeds_try succeeds_save) (auto simp: s(1))
qed (rule s)

text \<open>A branch that stores the transaction and announces it.\<close>

lemma succeeds_stored:
  assumes r: "ready R cfg X input t q d" and s: "\<not> aborted s" "db s = d" "ticks s < readings"
    and p: "p = settled_as t st code u" "st \<in> {StatusProcessed, StatusRejected, StatusPendingReference}"
      "code \<in> {'''', ''INSUFFICIENT_BALANCE''}"
    and name: "pg_short 100 name"
  shows "succeeds X (act_try (SaveWithRetryAt R live_tx p retry) h
     (\<lambda>_. act_bind (saveOutboxEvent R live_tx (txid p) name (marshal_opaque_struct x)) (\<lambda>_. act_return z))) s (\<lambda>oc s'. True)"
proof (rule succeeds_try, rule succeeds_save [OF _ s(1)])
  show "fault_free X" using r by (simp add: ready_def)
  show "insert_tx (tx_row_of R p retry) (db s) = Inr (add_tx R p retry d)" using ready_insert [OF r p(2,3)] p(1) s(2) by simp
  fix s1 :: session assume s1: "db s1 = add_tx R p retry d" "ticks s1 = ticks s" "\<not> aborted s1"
  have tx: "txid p = txid t" using p(1) by simp
  show "succeeds X (act_bind (saveOutboxEvent R live_tx (txid p) name (marshal_opaque_struct x)) (\<lambda>_. act_return z)) s1 (\<lambda>oc s'. True)"
    unfolding tx marshal_opaque_struct_def
    by (rule succeeds_bind, rule succeeds_tx_event [OF r s1(3), where es = "[]"])
      (auto simp: s1(1,2) s(3) name intro: succeeds_return)
qed

lemma succeeds_loss:
  assumes r: "ready R cfg X input t q d" and s: "\<not> aborted s" "db s = d" "ticks s + 1 < readings"
  shows "succeeds X (settle R live_tx input t w '''' False v b) s (\<lambda>oc s'. True)"
proof -
  let ?p = "settled_as t StatusProcessed '''' (clock X (ticks s))" and ?s = "s\<lparr>ticks := Suc (ticks s)\<rparr>"
  have tr: "TransitionToProcessed (clock X (ticks s)) t = Inr ?p"
    using ready_pending [OF r] by (simp add: TransitionToProcessed_Inr settled_forms)
  have "succeeds X (act_try (SaveWithRetryAt R live_tx ?p None) (handleSaveConflict R live_tx input ?p)
     (\<lambda>_. act_bind (saveOutboxEvent R live_tx (txid ?p) ''WagerTransactionProcessed'' (marshal_opaque_struct ?p))
        (\<lambda>_. act_return (?p, w, False)))) ?s (\<lambda>oc s'. True)"
    by (rule succeeds_stored [OF r _ _ _ refl]) (use s in \<open>simp_all add: short_constants\<close>)
  moreover have "act_bind (act_return ()) f = f ()" for f :: "unit \<Rightarrow> outcome action"
    by (simp add: act_bind_def act_try_def act_return_def fun_eq_iff)
  ultimately have "succeeds X (act_try (Tx_Save R live_tx ?p) (handleSaveConflict R live_tx input ?p)
     (\<lambda>_. finish R live_tx ?p w '''' False v b)) ?s (\<lambda>oc s'. True)"
    by (simp add: finish_def Tx_Save_def del: settled_same)
  then show ?thesis
    unfolding settle_def by (intro succeeds_bind succeeds_now succeeds_pure [OF tr]) (simp_all add: s)
qed

lemma succeeds_reject:
  assumes r: "ready R cfg X input t q d" and s: "\<not> aborted s" "db s = d" "ticks s + 1 < readings"
  shows "succeeds X (reject_bet R live_tx input t w) s (\<lambda>oc s'. True)"
proof -
  let ?p = "settled_as t StatusRejected ''INSUFFICIENT_BALANCE'' (clock X (ticks s))" and ?s = "s\<lparr>ticks := Suc (ticks s)\<rparr>"
  have tr: "TransitionToRejected (clock X (ticks s)) ''INSUFFICIENT_BALANCE'' t = Inr ?p"
    using ready_pending [OF r] by (simp add: TransitionToRejected_Inr settled_as_def)
  have "succeeds X (act_try (Tx_Save R live_tx ?p) (handleSaveConflict R live_tx input ?p)
     (\<lambda>_. act_bind (saveOutboxEvent R live_tx (txid ?p) ''WagerTransactionRejected'' (marshal_opaque_struct ?p))
        (\<lambda>_. act_return (?p, w, False)))) ?s (\<lambda>oc s'. True)"
    unfolding Tx_Save_def by (rule succeeds_stored [OF r _ _ _ refl]) (use s in \<open>simp_all add: short_constants\<close>)
  then show ?thesis
    unfolding reject_bet_def by (intro succeeds_bind succeeds_now succeeds_pure [OF tr]) (simp_all add: s)
qed

lemma succeeds_park:
  assumes r: "ready R cfg X input t q d" and s: "\<not> aborted s" "db s = d" "ticks s + 2 < readings"
  shows "succeeds X (park R live_tx input t w) s (\<lambda>oc s'. True)"
proof -
  let ?p = "settled_as t StatusPendingReference '''' (clock X (ticks s))" and ?s = "s\<lparr>ticks := Suc (Suc (ticks s))\<rparr>"
  have tr: "TransitionToPendingReference (clock X (ticks s)) t = Inr ?p"
    using ready_pending [OF r] by (simp add: TransitionToPendingReference_Inr settled_forms)
  have "succeeds X (act_try (SaveWithRetryAt R live_tx ?p retry) (handleSaveConflict R live_tx input ?p)
     (\<lambda>_. act_bind (saveOutboxEvent R live_tx (txid ?p) ''WagerTransactionPendingReference'' (marshal_opaque_struct ?p))
        (\<lambda>_. act_return (?p, w, False)))) ?s (\<lambda>oc s'. True)" for retry
    by (rule succeeds_stored [OF r _ _ _ refl]) (use s in \<open>simp_all add: short_constants\<close>)
  then show ?thesis
    unfolding park_def by (intro succeeds_bind succeeds_now succeeds_pure [OF tr]) (simp_all add: s)
qed

section \<open>What a call answers\<close>

text \<open>The wallet that is read back, and the transaction that is looked up for a refund or a rollback.\<close>

lemma ready_wallet_row:
  assumes "ready R cfg X input t q d"
  obtains w where "wallet_of_row R q = Inr w" "wid w = w_id q" "playerID w = in_PlayerID input" "version w = w_version q"
    "amount (balance w) = w_amount q" "currency (balance w) = currency (wmoney t)" "funds w = sint (w_amount q)"
proof -
  have "prepare_wager R cfg (clock X 0) input = Inr t" using assms by (simp add: ready_def)
  then have "in_WalletID input \<noteq> ''''" "in_PlayerID input \<noteq> ''''" by (auto simp: prepare_wager_Inr)
  then show thesis
    using that assms ready_wallet [OF assms]
    by (auto simp: wallet_of_row_def RehydrateWallet_Inr cents_def funds_def NewInternalMoney_def ready_def)
qed

lemma succeeds_find:
  assumes "fault_free X" "\<not> aborted s" "pg_text p" "pg_text e"
    and P: "\<And>s'. same_db s s' \<Longrightarrow> P (map_option (scan_tx R) (tx_by_external p e (db s))) s'"
  shows "succeeds X (FindByExternalIDTx R live_tx p e) s P"
  using scanOne_run [OF assms(1,2), of "[p, e]" R "tx_by_external p e"] assms(3,4) P
  by (auto simp: succeeds_def FindByExternalIDTx_def same_db_def)

text \<open>What the rules of the business say of a new transaction: the status it gets, or none when the call is refused.\<close>

definition verdict :: "wager \<Rightarrow> wallet_row \<Rightarrow> database \<Rightarrow> transaction_status option" where
  "verdict t q d =
     (let m = cents (wmoney t); b = sint (w_amount q);
          credited = if in_int64 (b + m) then Some StatusProcessed else None
      in if kind t = KindBet then Some (if b < m then StatusRejected else StatusProcessed)
         else if kind t = KindLoss then Some StatusProcessed
         else if kind t = KindWin then credited
         else case tx_by_external (providerID t) (referenceExternalID t) d of
             None \<Rightarrow> Some StatusPendingReference
           | Some r \<Rightarrow> if t_status r = StatusProcessed then credited else None)"

lemma succeeds_credit:
  assumes r: "ready R cfg X input t q d" and s: "\<not> aborted s" "db s = d" "ticks s + 5 \<le> readings"
    and w: "wid w = w_id q" "version w = w_version q" "currency (balance w) = currency (wmoney t)" "funds w = sint (w_amount q)"
    and m: "0 < cents (wmoney t)" "in_int64 (sint (w_amount q) + cents (wmoney t))"
  shows "succeeds X (act_bind act_now (\<lambda>now. act_bind (act_pure (Credit now (wmoney t) w)) (\<lambda>credited.
     settle R live_tx input t credited ''CREDIT'' True (w_version q) (w_amount q)))) s (\<lambda>oc s'. True)"
proof -
  let ?w = "moved (clock X (ticks s)) (sint (w_amount q) + cents (wmoney t)) w"
  have credit: "Credit (clock X (ticks s)) (wmoney t) w = Inr ?w"
    using w m by (simp add: Credit_Inr)
  have "movement ''CREDIT'' (cents (wmoney t)) (sint (w_amount q)) (cents (balance ?w))"
    using m ready_wallet(3) [OF r] funds_moved [OF m(2), of "clock X (ticks s)" w] by (simp add: movement_def funds_def)
  then show ?thesis
    using s w(1,2) by (intro succeeds_bind succeeds_now succeeds_pure [OF credit] succeeds_settle [OF r]) simp_all
qed

lemma succeeds_debit:
  assumes r: "ready R cfg X input t q d" and s: "\<not> aborted s" "db s = d" "ticks s + 4 \<le> readings"
    and w: "wid w = w_id q" "version w = w_version q" "funds w = sint (w_amount q)"
    and m: "0 < cents (wmoney t)" "cents (wmoney t) \<le> sint (w_amount q)"
  shows "succeeds X (settle R live_tx input t (moved now (funds w - cents (wmoney t)) w) ''DEBIT'' True (w_version q) (w_amount q)) s
     (\<lambda>oc s'. True)"
proof (rule succeeds_settle [OF r s])
  have "in_int64 (funds w - cents (wmoney t))"
    using m w(3) cents_range [of "balance w"] unfolding in_int64_def funds_def by linarith
  then show "movement ''DEBIT'' (cents (wmoney t)) (sint (w_amount q)) (cents (balance (moved now (funds w - cents (wmoney t)) w)))"
    using m w(3) funds_moved [of "funds w - cents (wmoney t)" now w] ready_wallet(3) [OF r] by (simp add: movement_def funds_def)
qed (use w in simp_all)

lemma succeeds_reference:
  assumes r: "ready R cfg X input t q d" and s: "\<not> aborted s" "db s = d" "ticks s + 5 \<le> readings"
    and w: "wid w = w_id q" "version w = w_version q" "amount (balance w) = w_amount q"
      "currency (balance w) = currency (wmoney t)" "funds w = sint (w_amount q)"
    and v: "verdict t q d \<noteq> None" and k: "kind t = KindRefund \<or> kind t = KindRollback"
  shows "succeeds X (process_new R live_tx input t w) s (\<lambda>oc s'. True)"
proof -
  have t: "prepare_wager R cfg (clock X 0) input = Inr t" and X: "fault_free X" and room: "room_for X input d"
    using r by (auto simp: ready_def)
  have pos: "0 < cents (wmoney t)" using prepared_rest(6) [OF t] k by (auto simp: kind_defs)
  have ids: "providerID t = in_ProviderID input" "referenceExternalID t = in_ReferenceExternalID input"
    using prepared_fields [OF t] prepared_rest [OF t] by simp_all
  have texts: "pg_text (providerID t)" "pg_text (referenceExternalID t)"
    using room ids by (auto simp: room_for_def uncut_def pg_short_def)
  have new: "process_new R live_tx input t w = act_bind (FindByExternalIDTx R live_tx (providerID t) (referenceExternalID t)) (\<lambda>refTx.
      case refTx of
        None \<Rightarrow> park R live_tx input t w
      | Some ref \<Rightarrow>
          if status ref \<noteq> StatusProcessed then act_fail ErrReferenceNotUsable
          else act_bind act_now (\<lambda>now. act_bind (act_pure (Credit now (wmoney t) w)) (\<lambda>credited.
            settle R live_tx input t credited ''CREDIT'' True (w_version q) (w_amount q))))"
    using k w(2,3) by (auto simp: process_new_def Let_def kind_defs)
  show ?thesis
    unfolding new
  proof (intro succeeds_bind succeeds_find [OF X s(1) texts])
    fix s1 :: session assume s1: "same_db s s1"
    then have d1: "\<not> aborted s1" "db s1 = d" "ticks s1 + 5 \<le> readings" using s by (simp_all add: same_db_def)
    show "succeeds X (case map_option (scan_tx R) (tx_by_external (providerID t) (referenceExternalID t) (db s)) of
        None \<Rightarrow> park R live_tx input t w
      | Some ref \<Rightarrow>
          if status ref \<noteq> StatusProcessed then act_fail ErrReferenceNotUsable
          else act_bind act_now (\<lambda>now. act_bind (act_pure (Credit now (wmoney t) w)) (\<lambda>credited.
            settle R live_tx input t credited ''CREDIT'' True (w_version q) (w_amount q)))) s1 (\<lambda>oc s'. True)"
      using k v s(2) d1 w pos succeeds_park [OF r d1(1,2)] succeeds_credit [OF r d1 w(1,2,4,5)]
      by (auto simp: verdict_def Let_def kind_defs split: option.splits if_splits)
  qed
qed

lemma succeeds_new:
  assumes r: "ready R cfg X input t q d" and s: "\<not> aborted s" "db s = d" "ticks s + 5 \<le> readings"
    and w: "wid w = w_id q" "version w = w_version q" "amount (balance w) = w_amount q"
      "currency (balance w) = currency (wmoney t)" "funds w = sint (w_amount q)"
    and v: "verdict t q d \<noteq> None"
  shows "succeeds X (process_new R live_tx input t w) s (\<lambda>oc s'. True)"
proof -
  have t: "prepare_wager R cfg (clock X 0) input = Inr t"
    using r by (auto simp: ready_def)
  have pos: "0 < cents (wmoney t)" if "kind t \<noteq> KindLoss" using prepared_rest(6) [OF t that] .
  have k: "kind t \<in> {KindBet, KindWin, KindLoss, KindRefund, KindRollback}" using prepared_money(3) [OF t] .
  note kinds = kind_defs
  consider "kind t = KindBet" "sint (w_amount q) < cents (wmoney t)" | "kind t = KindBet" "cents (wmoney t) \<le> sint (w_amount q)"
    | "kind t = KindLoss" | "kind t = KindWin" | "kind t = KindRefund \<or> kind t = KindRollback"
    using k by fastforce
  then show ?thesis
  proof cases
    case 1
    then have "Debit now (wmoney t) w = Inl ErrInsufficientBalance" for now
      using pos w by (auto simp: Debit_cases kinds)
    then show ?thesis
      using 1 s succeeds_reject [OF r, of "s\<lparr>ticks := Suc (ticks s)\<rparr>" w]
      by (auto simp: process_new_def Let_def intro!: succeeds_bind succeeds_now)
  next
    case 2
    then have "Debit now (wmoney t) w = Inr (moved now (funds w - cents (wmoney t)) w)" for now
      using pos w by (auto simp: Debit_Inr kinds)
    then show ?thesis
      using 2 s w pos succeeds_debit [OF r, of "s\<lparr>ticks := Suc (ticks s)\<rparr>" w "clock X (ticks s)"]
      by (auto simp: process_new_def Let_def kinds intro!: succeeds_bind succeeds_now)
  next
    case 3
    then show ?thesis
      using s succeeds_loss [OF r, of s w] by (simp add: process_new_def Let_def kinds)
  next
    case 4
    then show ?thesis
      using v w pos s succeeds_credit [OF r, of s w]
      by (simp add: process_new_def verdict_def Let_def kinds split: if_splits)
  next
    case 5
    then show ?thesis by (rule succeeds_reference [OF r s w v])
  qed
qed

text \<open>A message that is claimed for the consumer leaves everything a wager needs as it was.\<close>

lemma claims_ready:
  assumes "claims_message inbox d d1" "ready R cfg X input t q d"
  shows "ready R cfg X input t q d1" "verdict t q d1 = verdict t q d"
proof -
  have "ledger_inv d1"
    using assms books_inbox by (auto simp: claims_message_def ready_def ledger_inv_def split: option.splits)
  moreover have same: "wallets d1 = wallets d" "wager_transactions d1 = wager_transactions d" "outbox_events d1 = outbox_events d"
    "wallet_ledger_entries d1 = wallet_ledger_entries d"
    using assms(1) by (auto simp: claims_message_def insert_inbox_Inr split: option.splits)
  moreover have "existing_for input d1 = existing_for input d" "wallet_by_id (in_WalletID input) d1 = wallet_by_id (in_WalletID input) d"
    by (simp_all add: existing_for_def tx_by_external_def tx_by_key_def wallet_by_id_def same split: option.split)
  ultimately show "ready R cfg X input t q d1"
    using assms(2) by (simp add: ready_def room_for_def event_room_def)
  show "verdict t q d1 = verdict t q d" by (simp add: verdict_def tx_by_external_def Let_def same)
qed

lemma succeeds_checked:
  assumes r: "ready R cfg X input t q d" and s: "\<not> aborted s" "db s = d" "ticks s + 5 \<le> readings" and v: "verdict t q d \<noteq> None"
  shows "succeeds X (process_checked R live_tx input t) s (\<lambda>oc s'. True)"
proof -
  have X: "fault_free X" and t: "prepare_wager R cfg (clock X 0) input = Inr t" and none: "existing_for input d = None"
    and texts: "pg_text (in_ProviderID input)" "pg_text (in_ExternalTransactionID input)" "pg_text (in_IdempotencyKey input)"
      "pg_text (in_WalletID input)"
    and row: "wallet_by_id (in_WalletID input) d = Some q"
    using r by (auto simp: ready_def room_for_def uncut_def pg_short_def)
  obtain w where w: "wallet_of_row R q = Inr w" "wid w = w_id q" "playerID w = in_PlayerID input" "version w = w_version q"
    "amount (balance w) = w_amount q" "currency (balance w) = currency (wmoney t)" "funds w = sint (w_amount q)"
    by (rule ready_wallet_row [OF r])
  have ids: "walletID t = in_WalletID input" "wplayerID t = in_PlayerID input" using prepared_fields [OF t] by simp_all
  obtain s1 where s1: "lookupExisting R live_tx input (payloadHash t) X s = (Inr None, s1)" "same_db s s1"
    using lookupExisting_run [OF X s(1) texts(1-3), of R "payloadHash t"] none s(2) by (auto simp: lookup_result_def)
  obtain s2 where s2: "FindByIDWithLock R live_tx (walletID t) X s1 = (Inr w, s2)" "same_db s1 s2"
    using FindByIDWithLock_run [OF X _ texts(4), of s1 q R] s1(2) s(2) row w(1) ids by (auto simp: same_db_def)
  have "\<not> aborted s2" "db s2 = d" "ticks s2 + 5 \<le> readings" using s s1(2) s2(2) by (simp_all add: same_db_def)
  then have "succeeds X (process_new R live_tx input t w) s2 (\<lambda>oc s'. True)"
    by (rule succeeds_new [OF r _ _ _ w(2,4-7) v])
  then show ?thesis
    using s1(1) s2(1) w(3) ids by (simp add: process_checked_def succeeds_def act_run)
qed

lemma valid_call_succeeds:
  assumes r: "ready R cfg X input t q d" and c: "claims_message inbox d d1" and v: "verdict t q d \<noteq> None"
  shows "\<exists>out d'. ProcessTransactionWithInbox R cfg X input inbox d = (Inr out, d')"
proof -
  have X: "fault_free X" and t: "prepare_wager R cfg (clock X 0) input = Inr t" using r by (simp_all add: ready_def)
  have checked: "succeeds X (process_checked R live_tx input t) s (\<lambda>oc s'. True)" if "\<not> aborted s" "db s = d1" "ticks s = 1" for s
    using that claims_ready [OF c r] v by (intro succeeds_checked [of R cfg X input t q d1]) (simp_all add: readings_def)
  have "succeeds X (process_body R input inbox t live_tx) (start_session d 1) (\<lambda>oc s'. True)"
  proof (cases inbox)
    case None
    then show ?thesis using checked [of "start_session d 1"] c by (simp add: process_body_def claims_message_def)
  next
    case (Some k)
    have "succeeds X (SaveInbox live_tx (ConsumerName k) (MessageID k) (ClaimPayloadHash k)) (start_session d 1)
        (\<lambda>_ s'. succeeds X (process_checked R live_tx input t) s' (\<lambda>oc s'. True))"
      unfolding SaveInbox_def guard_tx_live
      using c Some by (intro succeeds_try succeeds_exec [OF X] succeeds_return checked) (simp_all add: claims_message_def)
    then show ?thesis by (simp add: process_body_def Some succeeds_try)
  qed
  then show ?thesis
    using succeeds_execute [OF X, of "process_body R input inbox t" d 1] t
    by (auto simp: ProcessTransactionWithInbox_def)
qed

text \<open>And what it answers is what the verdict says.\<close>

lemma effect_verdict:
  assumes "wager_effect R X t q d p d'"
  shows "verdict t q d = Some (status p)"
  using assms
  by (auto simp: wager_effect_def verdict_def processed_def cents_def Let_def split: option.splits if_splits)

lemma answered_verdict:
  assumes r: "ready R cfg X input t q d" and ok: "ProcessTransactionWithInbox R cfg X input inbox d = (Inr out, d')"
  shows "verdict t q d = Some (out_Status out) \<and> \<not> out_IdempotentReplay out \<and> out_TransactionID out = internal_tx_id input"
proof -
  obtain d1 where c: "claims_message inbox d d1" and e: "call_effect R X input t out d1 d'"
    using ProcessTransactionWithInbox_effect [OF ok] r by (auto simp: ready_def)
  have r1: "ready R cfg X input t q d1" "verdict t q d1 = verdict t q d" using claims_ready [OF c r] by simp_all
  then have "existing_for input d1 = None" "wallet_by_id (in_WalletID input) d1 = Some q" by (simp_all add: ready_def)
  then obtain p where "wager_effect R X t q d1 p d'" "out_Status out = status p" "\<not> out_IdempotentReplay out"
    "out_TransactionID out = internal_tx_id input"
    using e by (auto simp: call_effect_def)
  then show ?thesis using effect_verdict r1(2) by metis
qed

lemma call_decides:
  assumes "ready R cfg X input t q d" "claims_message inbox d d1"
  shows "(\<exists>out d'. ProcessTransactionWithInbox R cfg X input inbox d = (Inr out, d') \<and> out_Status out = st
      \<and> out_TransactionID out = internal_tx_id input \<and> \<not> out_IdempotentReplay out) \<longleftrightarrow> verdict t q d = Some st"
  using valid_call_succeeds [OF assms] answered_verdict [OF assms(1), of inbox] by fastforce

end
