(* ===== verification/Well_Formed.thy ===== *)
theory Well_Formed
  imports Progress
begin

text \<open>
  The types of stored rows: what the columns of a wallet and of a transaction hold beyond what the schema checks, and that every step of the
  service keeps it. So a row that is read back always makes a wallet, and the status, kind, amount, failure code and reference of a
  transaction always belong together.
\<close>

definition well_formed_wallet :: "wallet_row \<Rightarrow> bool" where
  "well_formed_wallet r \<longleftrightarrow> w_id r \<noteq> '''' \<and> w_player_id r \<noteq> '''' \<and> wallet_check r"

text \<open>The outcomes a transaction can have: the status, the kinds it goes with, and the failure code.\<close>

definition status_code_ok :: "transaction_status \<Rightarrow> transaction_kind \<Rightarrow> string option \<Rightarrow> bool" where
  "status_code_ok st k code \<longleftrightarrow>
     st = StatusProcessed \<and> code = None
     \<or> st = StatusPendingReference \<and> k \<in> {KindRefund, KindRollback} \<and> code = None
     \<or> st = StatusRejected \<and> k = KindBet \<and> code = Some ''INSUFFICIENT_BALANCE''
     \<or> st = StatusRejected \<and> k \<in> {KindRefund, KindRollback} \<and> code = Some ''INVALID_REFERENCE''"

definition well_formed_tx :: "tx_row \<Rightarrow> bool" where
  "well_formed_tx t \<longleftrightarrow>
     t_kind t \<in> {KindOpening, KindBet, KindWin, KindLoss, KindRefund, KindRollback}
     \<and> (if t_kind t = KindLoss then t_amount t = 0 else 0 < sint (t_amount t))
     \<and> (t_kind t \<in> {KindRefund, KindRollback} \<longrightarrow> t_reference_external_id t \<noteq> None)
     \<and> status_code_ok (t_status t) (t_kind t) (t_failure_code t)"

definition well_formed :: "database \<Rightarrow> bool" where
  "well_formed d \<longleftrightarrow> list_all well_formed_wallet (wallets d) \<and> list_all well_formed_tx (wager_transactions d)"

section \<open>What the checks of the schema keep\<close>

definition checked :: "database \<Rightarrow> database \<Rightarrow> bool" where
  "checked d d' \<longleftrightarrow> (list_all wallet_check (wallets d) \<longrightarrow> list_all wallet_check (wallets d'))"

lemma update_wallet_checked:
  assumes "update_wallet amt ver upd i v d = Inr (n, d')" "list_all wallet_check (wallets d)"
  shows "list_all wallet_check (wallets d')"
proof -
  let ?P = "\<lambda>r. w_id r = i \<and> w_version r = v"
  have ok: "0 \<le> sint amt \<and> 0 < sint ver" if "r \<in> set (wallets d)" "?P r" for r
  proof -
    have "filter ?P (wallets d) \<noteq> []" using that by (auto simp: filter_empty_conv)
    then show ?thesis using assms(1) by (auto simp: update_wallet_def Let_def refuse_def split: if_splits)
  qed
  then show ?thesis
    using assms(2) update_wallet_rows [OF assms(1)] by (fastforce simp: list_all_iff wallet_check_def set_update_where)
qed

interpretation checks: resolution_frame checked
proof unfold_locales
  fix amt ver upd i v d n d' assume "update_wallet amt ver upd i v d = Inr (n, d')"
  then show "checked d d'" using update_wallet_checked by (simp add: checked_def)
qed (auto simp: checked_def inr_dest dest!: update_status_rows)

lemma only_outbox_checked: "only_outbox d d' \<Longrightarrow> checked d d'"
  by (simp add: checked_def only_outbox_def)

lemma step_checked: "service_step R cfg d d' \<Longrightarrow> checked d d'"
  by (erule service_stepE)
    (auto intro: checks.process_respects checks.resolve_respects checks.open_respects only_outbox_checked processPendingEvents_frame)

section \<open>The names of a wallet\<close>

definition named :: "database \<Rightarrow> bool" where
  "named d \<longleftrightarrow> list_all (\<lambda>(i, p, c). i \<noteq> '''' \<and> p \<noteq> '''') (map wallet_identity (wallets d))"

lemma set_balance_identity: "map wallet_identity (set_balance q amt upd ws) = map wallet_identity ws"
  by (simp add: set_balance_def identity_updates)

lemma wager_effect_identity:
  "wager_effect R X t q d p d' \<Longrightarrow> map wallet_identity (wallets d') = map wallet_identity (wallets d)"
  by (auto simp: wager_effect_def Let_def money_moved_def only_stored_def add_events_def add_tx_def set_balance_identity
      split: option.splits if_splits)

lemma resolve_effect_identity:
  "resolve_effect R c i d d' \<Longrightarrow> map wallet_identity (wallets d') = map wallet_identity (wallets d)"
  by (auto simp: resolve_effect_def add_events_def set_balance_identity split: option.splits if_splits)

lemma pg_trunc_nonempty: "s \<noteq> '''' \<Longrightarrow> 0 < n \<Longrightarrow> pg_trunc n s \<noteq> ''''"
  using char_count_le_length [of s] by (cases s) (auto simp: pg_trunc_def pg_excess_def)

section \<open>The rows that are written\<close>

lemma stored_row_fields:
  assumes "kind p \<in> {KindBet, KindWin, KindLoss, KindRefund, KindRollback}"
    "status p \<in> {StatusProcessed, StatusRejected, StatusPendingReference}" "failureCode p \<in> {'''', ''INSUFFICIENT_BALANCE''}"
  shows "t_kind (stored_tx (tx_row_of R p retry)) = kind p" "t_status (stored_tx (tx_row_of R p retry)) = status p"
    "t_amount (stored_tx (tx_row_of R p retry)) = amount (wmoney p)"
    "t_failure_code (stored_tx (tx_row_of R p retry)) = null_if_empty (failureCode p)"
    "t_reference_external_id (stored_tx (tx_row_of R p retry)) = map_option (pg_trunc 64) (null_if_empty (referenceExternalID p))"
  using assms pg_short_trunc [OF short_constants(4)]
  by (auto simp: stored_tx_def tx_row_of_def null_if_empty_def simp del: stored_ids)

lemma wager_effect_outcome:
  assumes t: "prepare_wager R cfg now input = Inr t" and eff: "wager_effect R X t q d p d'"
  shows "\<exists>st code upd. p = settled_as t st code upd
     \<and> (st = StatusProcessed \<and> code = '''' \<or> st = StatusRejected \<and> kind t = KindBet \<and> code = ''INSUFFICIENT_BALANCE''
        \<or> st = StatusPendingReference \<and> kind t \<in> {KindRefund, KindRollback} \<and> code = '''')"
proof -
  note same = settled_forms [OF prepared_rest(4) [OF t]]
  have "processed t p \<or> kind t = KindBet \<and> (\<exists>upd. p = t\<lparr>status := StatusRejected, failureCode := ''INSUFFICIENT_BALANCE'', updatedAt := upd\<rparr>)
      \<or> kind t \<in> {KindRefund, KindRollback} \<and> (\<exists>upd. p = t\<lparr>status := StatusPendingReference, updatedAt := upd\<rparr>)"
    using eff prepared_money(3) [OF t] unfolding wager_effect_def Let_def by (auto split: if_splits option.splits)
  then show ?thesis
    unfolding processed_def same by (auto simp: settled_as_def)
qed

lemma wager_effect_status:
  assumes t: "prepare_wager R cfg now input = Inr t" and eff: "wager_effect R X t q d p d'"
  shows "kind p = kind t \<and> wmoney p = wmoney t \<and> referenceExternalID p = referenceExternalID t
     \<and> status_code_ok (status p) (kind p) (null_if_empty (failureCode p))
     \<and> status p \<in> {StatusProcessed, StatusRejected, StatusPendingReference} \<and> failureCode p \<in> {'''', ''INSUFFICIENT_BALANCE''}"
  using wager_effect_outcome [OF t eff] by (auto simp: settled_as_def status_code_ok_def null_if_empty_def)

lemma wager_effect_row:
  "wager_effect R X t q d p d' \<Longrightarrow> \<exists>retry. wager_transactions d' = wager_transactions d @ [stored_tx (tx_row_of R p retry)]"
  by (auto simp: wager_effect_def Let_def money_moved_def only_stored_def add_events_def add_tx_def split: option.splits if_splits)

lemma stored_wager_well_formed:
  assumes t: "prepare_wager R cfg now input = Inr t" and eff: "wager_effect R X t q d p d'"
  shows "well_formed_tx (stored_tx (tx_row_of R p retry))"
proof -
  have k: "kind t \<in> {KindBet, KindWin, KindLoss, KindRefund, KindRollback}" using prepared_money(3) [OF t] .
  have "valid_wager_fields (kind t) (wmoney t) (referenceExternalID t)"
    using t by (auto simp: prepare_wager_Inr CalculateAndSetPayloadHash_def new_wager_def RehydrateWagerTransaction_def)
  then have v: "if kind t = KindLoss then amount (wmoney t) = 0 else 0 < sint (amount (wmoney t))"
    "kind t \<in> {KindRefund, KindRollback} \<longrightarrow> null_if_empty (referenceExternalID t) \<noteq> None"
    using k trim_space_sublist [of "[]"] by (auto simp: valid_wager_fields_def cents_def signed_eq_0_iff kind_defs null_if_empty_def)
  note p = wager_effect_status [OF t eff]
  then have "kind p \<in> {KindBet, KindWin, KindLoss, KindRefund, KindRollback}" using k by simp
  note f = stored_row_fields [OF this, of R retry]
  moreover have "status_code_ok (status p) (kind t) (null_if_empty (failureCode p))" using p by metis
  ultimately show ?thesis
    unfolding well_formed_tx_def using p k v by (simp add: f del: stored_ids)
qed

section \<open>Every step\<close>

text \<open>A transaction has changed nothing or has its effect, whatever it answered (the acknowledgement of a commit may be lost).\<close>

lemma ResolvePendingReference_cases:
  assumes "ResolvePendingReference R X i d = (r, d')"
  obtains "d' = d" | "resolve_effect R (clock X) i d d'"
  using assms unfolding ResolvePendingReference_def
  by (rule Execute_cases) (use resolve_body_effect in fastforce)+

lemma OpenWallet_cases:
  assumes "OpenWallet_Execute R cfg X ow d = (r, d')"
  obtains "d' = d" | m w where "NewWallet (clock X 0) (wallet_id_for R ow) (ow_PlayerID ow) m = Inr w" "open_effect R w d d'"
proof (cases "d' = d")
  case False
  then obtain m w r' where w: "NewWallet (clock X 0) (wallet_id_for R ow) (ow_PlayerID ow) m = Inr w"
    and x: "ExecuteInTransaction X 1 (open_body R w m) d = (r', d')"
    using assms by (fastforce simp: OpenWallet_Execute_def split: sum.splits prod.splits if_splits)
  from x obtain u s where b: "open_body R w m live_tx X (start_session d 1) = (Inr u, s)" "d' = db s"
    by (rule Execute_cases) (use False in auto)
  have "balance w = m" using w by (simp add: NewWallet_Inr)
  then have "open_effect R w d d'" using open_body_effect [of R w X "start_session d 1" u s] b by simp
  then show ?thesis using that(2) w by blast
qed

lemma wager_well_formed:
  assumes run: "ProcessTransactionWithInbox R cfg X input inbox d = (r, d')" and wf: "named d" "list_all well_formed_tx (wager_transactions d)"
  shows "named d' \<and> list_all well_formed_tx (wager_transactions d')"
  using run
proof (rule ProcessTransactionWithInbox_cases)
  fix t out d1
  assume t: "prepare_wager R cfg (clock X 0) input = Inr t" and c: "claims_message inbox d d1" and e: "call_effect R X input t out d1 d'"
  have same: "wallets d1 = wallets d" "wager_transactions d1 = wager_transactions d"
    using claims_message_wallets [OF c] claims_message_txs [OF c] by simp_all
  show ?thesis
  proof (cases "existing_for input d1")
    case None
    then obtain q p where eff: "wager_effect R X t q d1 p d'" using e by (auto simp: call_effect_def)
    obtain retry where "wager_transactions d' = wager_transactions d @ [stored_tx (tx_row_of R p retry)]"
      using wager_effect_row [OF eff] same by auto
    moreover have "map wallet_identity (wallets d') = map wallet_identity (wallets d)"
      using wager_effect_identity [OF eff] same by simp
    ultimately show ?thesis using wf stored_wager_well_formed [OF t eff] by (simp add: named_def)
  next
    case (Some x)
    then show ?thesis using e wf same by (simp add: call_effect_def named_def)
  qed
qed (use wf in simp)

lemma set_status_well_formed:
  assumes wf: "list_all well_formed_tx (wager_transactions d)"
    and p: "tx_by_id i d = Some p" "tx_tab.unique d" and ok: "status_code_ok st (t_kind p) code"
  shows "list_all well_formed_tx (set_status i st code retry upd d)"
proof -
  have "p \<in> set (wager_transactions d)" "t_id p = i" using p(1) by (auto simp: tx_by_id_def dest: find_SomeD)
  then have same: "r = p" if "r \<in> set (wager_transactions d)" "t_id r = i" for r
    using that tx_tab.unique_eq [OF p(2)] by auto
  have "well_formed_tx (r\<lparr>t_status := st, t_failure_code := code, t_next_retry_at := retry, t_updated_at := upd\<rparr>)"
    if "r \<in> set (wager_transactions d)" "t_id r = i" for r
    using that same wf ok by (simp add: well_formed_tx_def list_all_iff)
  then show ?thesis
    using wf by (auto simp: set_status_def list_all_iff set_update_where)
qed

lemma resolve_well_formed:
  assumes run: "ResolvePendingReference R X i d = (r, d')" and inv: "ledger_inv d"
    and wf: "named d" "list_all well_formed_tx (wager_transactions d)"
  shows "named d' \<and> list_all well_formed_tx (wager_transactions d')"
  using run
proof (rule ResolvePendingReference_cases)
  assume e: "resolve_effect R (clock X) i d d'"
  have uniq: "tx_tab.unique d" using inv by (simp add: ledger_inv_def books_def keys_inv_def)
  have "list_all well_formed_tx (wager_transactions d')"
  proof (cases "\<exists>p. tx_by_id i d = Some p \<and> t_status p = StatusPendingReference")
    case False
    then show ?thesis using e wf by (auto simp: resolve_effect_def split: option.splits if_splits)
  next
    case True
    then obtain p where p: "tx_by_id i d = Some p" "t_status p = StatusPendingReference" by blast
    then have "p \<in> set (wager_transactions d)" by (auto simp: tx_by_id_def dest: find_SomeD)
    then have "status_code_ok (t_status p) (t_kind p) (t_failure_code p)"
      using wf(2) by (auto simp: list_all_iff well_formed_tx_def)
    then have k: "t_kind p \<in> {KindRefund, KindRollback}" "kept_code p = None"
      using p(2) by (auto simp: status_code_ok_def kept_code_def empty_if_null_def null_if_empty_def status_defs)
    obtain st code retry upd where "wager_transactions d' = set_status i st code retry upd d"
      "(st, code) \<in> {(StatusPendingReference, None), (StatusRejected, Some ''INVALID_REFERENCE''), (StatusProcessed, None)}"
      using e p k(2) by (auto simp: resolve_effect_def add_events_def split: option.splits if_splits)
    moreover have "status_code_ok StatusPendingReference (t_kind p) None" "status_code_ok StatusProcessed (t_kind p) None"
      "status_code_ok StatusRejected (t_kind p) (Some ''INVALID_REFERENCE'')"
      using k(1) by (auto simp: status_code_ok_def)
    ultimately show ?thesis using set_status_well_formed [OF wf(2) p(1) uniq] by auto
  qed
  then show ?thesis using resolve_effect_identity [OF e] wf(1) by (simp add: named_def)
qed (use wf in simp)

lemma open_effect_well_formed:
  assumes e: "open_effect R w d d'" and w: "wid w \<noteq> ''''" "playerID w \<noteq> ''''" "0 \<le> cents (balance w)"
    and wf: "named d" "list_all well_formed_tx (wager_transactions d)"
  shows "named d' \<and> list_all well_formed_tx (wager_transactions d')"
proof -
  have "w_id (stored_wallet (wallet_row_of R w)) \<noteq> ''''" "w_player_id (stored_wallet (wallet_row_of R w)) \<noteq> ''''"
    using w by (simp_all add: stored_wallet_def wallet_row_of_def pg_trunc_nonempty)
  moreover have "0 < sint (amount (balance w))" if "amount (balance w) \<noteq> 0"
    using that w(3) by (simp add: cents_def order_less_le signed_eq_0_iff)
  ultimately show ?thesis
    using e wf
    by (auto simp: open_effect_def Let_def add_events_def named_def wallet_identity_def well_formed_tx_def status_code_ok_def kind_defs
        split: if_splits simp del: stored_ids)
qed

lemma open_well_formed:
  assumes run: "OpenWallet_Execute R cfg X ow d = (r, d')" and wf: "named d" "list_all well_formed_tx (wager_transactions d)"
  shows "named d' \<and> list_all well_formed_tx (wager_transactions d')"
  using run by (rule OpenWallet_cases) (use wf open_effect_well_formed in \<open>auto simp: NewWallet_Inr\<close>)

lemma step_well_formed:
  assumes "service_step R cfg d d'" "ledger_inv d" "named d \<and> list_all well_formed_tx (wager_transactions d)"
  shows "named d' \<and> list_all well_formed_tx (wager_transactions d')"
  using assms(1)
proof (rule service_stepE)
  fix refuses locked X io io' assume "processPendingEvents R cfg refuses locked X io d = (io', d')"
  then have "only_outbox d d'" by (rule processPendingEvents_frame)
  then show ?thesis using assms(3) by (simp add: only_outbox_def named_def)
next
  fix X input inbox r assume "ProcessTransactionWithInbox R cfg X input inbox d = (r, d')"
  then show ?thesis by (rule wager_well_formed) (use assms(3) in simp_all)
next
  fix X i r assume "ResolvePendingReference R X i d = (r, d')"
  then show ?thesis by (rule resolve_well_formed [OF _ assms(2)]) (use assms(3) in simp_all)
next
  fix X ow r assume "OpenWallet_Execute R cfg X ow d = (r, d')"
  then show ?thesis by (rule open_well_formed) (use assms(3) in simp_all)
qed

lemma reachable_well_formed:
  assumes "reachable R cfg d"
  shows "well_formed d"
proof -
  have "named d \<and> list_all well_formed_tx (wager_transactions d)"
    using assms unfolding reachable_def service_run_def
  proof (induction rule: rtranclp_induct)
    case base
    show ?case by (simp add: named_def empty_database_def)
  next
    case (step d1 d2)
    have "ledger_inv d1" using reachable_ledger step.hyps(1) by (simp add: reachable_def service_run_def)
    then show ?case by (rule step_well_formed [OF step.hyps(2) _ step.IH])
  qed
  moreover have "checked empty_database d"
    using assms unfolding reachable_def service_run_def
    by (induction rule: rtranclp_induct) (auto intro: checks.Q_refl checks.Q_trans step_checked)
  then have "list_all wallet_check (wallets d)" by (simp add: checked_def empty_database_def)
  ultimately show ?thesis
    by (auto simp: well_formed_def well_formed_wallet_def named_def wallet_identity_def list_all_iff)
qed

text \<open>So every row of a wallet can be read back.\<close>

lemma well_formed_wallet_reads:
  assumes "well_formed_wallet r"
  shows "\<exists>w. wallet_of_row R r = Inr w \<and> wallet_ok w \<and> 0 < sint (version w)"
  using assms
  by (auto simp: well_formed_wallet_def wallet_check_def wallet_of_row_def RehydrateWallet_Inr wallet_ok_def funds_def cents_def
      NewInternalMoney_def)

end
