(* ===== verification/Resolution_Progress.thy ===== *)
theory Resolution_Progress
  imports Well_Formed
begin

text \<open>
  That a pending reference does get resolved: in an environment without faults the resolution of a waiting refund or rollback whose reference has
  been processed succeeds, and then the transaction is processed and its amount is on the account.
\<close>

text \<open>
  What the resolution of the row \<open>p\<close> for the wallet \<open>q\<close> starts from. What the invariants give (\<open>reachable\<close>) is not repeated.
\<close>

definition resolvable :: "runtime \<Rightarrow> txenv \<Rightarrow> tx_row \<Rightarrow> wallet_row \<Rightarrow> database \<Rightarrow> bool" where
  "resolvable R X p q d \<longleftrightarrow>
     fault_free X \<and> p \<in> set (wager_transactions d) \<and> t_status p = StatusPendingReference
     \<and> (case tx_by_external (t_provider_id p) (empty_if_null (t_reference_external_id p)) d of
          None \<Rightarrow> False
        | Some r \<Rightarrow> t_status r = StatusProcessed)
     \<and> wallet_by_id (t_wallet_id p) d = Some q
     \<and> currency (NewInternalMoney R (w_amount q) (w_currency q)) = currency (NewInternalMoney R (t_amount p) (t_currency p))
     \<and> in_int64 (sint (w_amount q) + sint (t_amount p)) \<and> in_int64 (sint (w_version q) + 1)
     \<and> pg_short 64 (t_id p) \<and> pg_text (t_provider_id p) \<and> pg_text (empty_if_null (t_reference_external_id p))
     \<and> pg_short 64 (t_wallet_id p) \<and> pg_short 64 (''led_'' @ t_id p)
     \<and> ''led_'' @ t_id p \<notin> l_id ` set (wallet_ledger_entries d)
     \<and> distinct (map (clock X) [0..<readings]) \<and> event_room X (t_id p) d \<and> event_room X (t_wallet_id p) d"

lemma resolvable_row:
  assumes "resolvable R X p q d" "ledger_inv d" "well_formed d"
  shows "tx_by_id (t_id p) d = Some p" "q \<in> set (wallets d)" "w_id q = t_wallet_id p" "0 < sint (t_amount p)" "0 \<le> sint (w_amount q)"
    "t_failure_code p = None" "t_kind p \<in> {KindRefund, KindRollback}" "(w_id q, t_id p) \<notin> ledger_key ` set (wallet_ledger_entries d)"
    "w_id q \<noteq> ''''" "w_player_id q \<noteq> ''''" "sint (w_version q + 1) = sint (w_version q) + 1" "0 < sint (w_version q)"
proof -
  have p: "p \<in> set (wager_transactions d)" "t_status p = StatusPendingReference" using assms(1) by (simp_all add: resolvable_def)
  have uniq: "tx_tab.unique d" using assms(2) by (simp add: ledger_inv_def books_def keys_inv_def)
  show "tx_by_id (t_id p) d = Some p"
    using tx_tab.lookup_unique [OF uniq p(1)] by (simp add: tx_tab.lookup_def tx_by_id_def)
  show q: "q \<in> set (wallets d)" "w_id q = t_wallet_id p"
    using assms(1) by (auto simp: resolvable_def wallet_by_id_def dest: find_SomeD)
  have wf: "well_formed_tx p" "well_formed_wallet q" using assms(3) p(1) q(1) by (simp_all add: well_formed_def list_all_iff)
  show k: "t_failure_code p = None" "t_kind p \<in> {KindRefund, KindRollback}"
    using wf(1) p(2) by (auto simp: well_formed_tx_def status_code_ok_def status_defs)
  show "0 < sint (t_amount p)" using wf(1) k(2) by (auto simp: well_formed_tx_def kind_defs)
  show "0 \<le> sint (w_amount q)" "w_id q \<noteq> ''''" "w_player_id q \<noteq> ''''" "0 < sint (w_version q)"
    using wf(2) by (simp_all add: well_formed_wallet_def wallet_check_def)
  show "sint (w_version q + 1) = sint (w_version q) + 1"
    using assms(1) sint_add_int64 [of "w_version q" 1] by (simp add: resolvable_def)
  show "(w_id q, t_id p) \<notin> ledger_key ` set (wallet_ledger_entries d)"
  proof
    assume "(w_id q, t_id p) \<in> ledger_key ` set (wallet_ledger_entries d)"
    then obtain l where l: "l \<in> set (wallet_ledger_entries d)" "l_transaction_id l = t_id p" by (auto simp: ledger_key_def)
    have "entries_inv d" using assms(2) by (simp add: ledger_inv_def books_def)
    then obtain r where r: "r \<in> set (wager_transactions d)" "t_id r = t_id p" "t_status r = StatusProcessed"
      using l by (auto simp: entries_inv_def records_def)
    then have "r = p" using tx_tab.unique_eq [OF uniq] p(1) by blast
    then show False using r(3) p(2) by (simp add: status_defs)
  qed
qed

lemma succeeds_status:
  assumes "fault_free X" "\<not> aborted s" "pg_text (txid t)" "failureCode t = ''''" "status t = StatusProcessed"
    "\<And>r. r \<in> set (wager_transactions (db s)) \<Longrightarrow> t_id r = txid t \<Longrightarrow> t_kind r \<in> {KindRefund, KindRollback}"
    and P: "\<And>s' ts. db s' = (db s)\<lparr>wager_transactions := ts\<rparr> \<Longrightarrow> map t_id ts = map t_id (wager_transactions (db s))
      \<Longrightarrow> ticks s' = ticks s \<Longrightarrow> \<not> aborted s' \<Longrightarrow> P () s'"
  shows "succeeds X (UpdateStatus R live_tx t) s P"
proof -
  let ?upd = "update_where (\<lambda>r. t_id r = txid t) (\<lambda>r. r\<lparr>t_status := StatusProcessed, t_failure_code := None, t_next_retry_at := None,
     t_updated_at := store_time R (updatedAt t)\<rparr>)"
  have "pg_text StatusProcessed" "pg_fits 30 StatusProcessed"
    using short_constants(1) pg_short_fits [of 30 "''PROCESSED''"] by (simp_all add: status_defs pg_short_def)
  then have "update_tx_status (status t) (null_if_empty (failureCode t)) None (store_time R (updatedAt t)) (txid t) (db s)
      = Inr ((db s)\<lparr>wager_transactions := ?upd (wager_transactions (db s))\<rparr>)"
    using assms(3-6)
    by (auto simp: update_tx_status_def Let_def null_if_empty_def columns_fit_def list_all_iff tx_check_def kind_defs status_defs
        pg_short_trunc [OF short_constants(1)])
  moreover have "map t_id (?upd ts) = map t_id ts" for ts by (simp add: map_update_where)
  ultimately show ?thesis
    unfolding UpdateStatus_def UpdateStatusWithRetryAt_def guard_tx_live
    using assms(1,2) by (intro succeeds_wrap succeeds_exec P [where ts = "?upd (wager_transactions (db s))"]) simp_all
qed

text \<open>The wallet that a row makes, and the wallet that is credited.\<close>

definition row_wallet :: "runtime \<Rightarrow> wallet_row \<Rightarrow> wallet" where
  "row_wallet R q = \<lparr>wid = w_id q, playerID = w_player_id q, balance = NewInternalMoney R (w_amount q) (w_currency q),
    version = w_version q, wcreatedAt = w_created_at q, wupdatedAt = w_updated_at q\<rparr>"

abbreviation credited_wallet :: "runtime \<Rightarrow> int \<Rightarrow> tx_row \<Rightarrow> wallet_row \<Rightarrow> wallet" where
  "credited_wallet R now p q \<equiv> moved now (sint (w_amount q) + sint (t_amount p)) (row_wallet R q)"

lemma row_wallet_simps [simp]:
  "wid (row_wallet R q) = w_id q" "version (row_wallet R q) = w_version q" "amount (balance (row_wallet R q)) = w_amount q"
  "funds (row_wallet R q) = sint (w_amount q)"
  by (simp_all add: row_wallet_def NewInternalMoney_def funds_def cents_def)

lemma row_wallet_currency: "currency (balance (row_wallet R q)) = currency (NewInternalMoney R (w_amount q) (w_currency q))"
  by (simp add: row_wallet_def)

lemma credited_movement:
  assumes r: "resolvable R X p q d" and inv: "ledger_inv d" "well_formed d"
  shows "Credit now (wmoney (scan_tx R p)) (row_wallet R q) = Inr (credited_wallet R now p q)"
    and "movement ''CREDIT'' (cents (wmoney (scan_tx R p))) (sint (w_amount q)) (cents (balance (credited_wallet R now p q)))"
proof -
  note f = resolvable_row [OF r inv]
  have room: "in_int64 (sint (w_amount q) + sint (t_amount p))" using r by (simp add: resolvable_def)
  show "Credit now (wmoney (scan_tx R p)) (row_wallet R q) = Inr (credited_wallet R now p q)"
    using r f(4) room by (simp add: Credit_Inr row_wallet_currency resolvable_def)
      (simp add: scan_tx_def RehydrateWagerTransaction_def)
  show "movement ''CREDIT'' (cents (wmoney (scan_tx R p))) (sint (w_amount q)) (cents (balance (credited_wallet R now p q)))"
    using f(4,5) funds_moved [OF room, of now "row_wallet R q"] by (simp add: movement_def funds_def)
qed

lemma succeeds_settling:
  assumes r: "resolvable R X p q d" and inv: "ledger_inv d" "well_formed d"
    and t: "t = (scan_tx R p)\<lparr>status := StatusProcessed, updatedAt := now'\<rparr>" and s2: "\<not> aborted s2" "db s2 = d" "ticks s2 = 2"
  shows "succeeds X (act_bind (UpdateStatus R live_tx t) (\<lambda>_. act_bind (move_funds R live_tx t (credited_wallet R now p q) ''CREDIT'' (w_version q) (w_amount q)) (\<lambda>_.
      act_bind (saveOutboxEvent R live_tx (txid t) ''WagerTransactionProcessed'' (marshal_opaque_struct t)) (\<lambda>_.
      saveOutboxEvent R live_tx (wid (credited_wallet R now p q)) ''WalletBalanceChanged'' (balance_changed_payload R t (credited_wallet R now p q) ''CREDIT'' (w_amount q))))))
      s2 (\<lambda>u s'. True)"
proof -
  note f = resolvable_row [OF r inv]
  have X: "fault_free X" "distinct (map (clock X) [0..<readings])" "event_room X (t_id p) d" "event_room X (w_id q) d"
    and texts: "pg_short 64 (t_id p)" "pg_short 64 (w_id q)" "pg_short 64 (''led_'' @ t_id p)"
    and led: "''led_'' @ t_id p \<notin> l_id ` set (wallet_ledger_entries d)" and mem: "p \<in> set (wager_transactions d)"
    using r f(3) by (auto simp: resolvable_def)
  note mv = credited_movement(2) [OF r inv, of now]
  show ?thesis
  proof (rule succeeds_bind, rule succeeds_status [OF X(1) s2(1)])
    have same: "txid t = t_id p" "wmoney t = wmoney (scan_tx R p)" "failureCode t = ''''" "status t = StatusProcessed"
      using t f(6) by (simp_all add: scan_failure empty_if_null_def)
    show "pg_text (txid t)" "failureCode t = ''''" "status t = StatusProcessed" using same texts(1) by (simp_all add: pg_short_def)
    show "t_kind r \<in> {KindRefund, KindRollback}" if "r \<in> set (wager_transactions (db s2))" "t_id r = txid t" for r
    proof -
      have "tx_tab.unique d" using inv(1) by (simp add: ledger_inv_def books_def keys_inv_def)
      from tx_tab.unique_eq [OF this, of r p] have "r = p" using that s2(2) same(1) mem by simp
      then show ?thesis using f(7) by simp
    qed
    fix s3 :: session and ts
    assume s3: "db s3 = (db s2)\<lparr>wager_transactions := ts\<rparr>" "map t_id ts = map t_id (wager_transactions (db s2))" "ticks s3 = ticks s2" "\<not> aborted s3"
    have ids: "t_id ` set ts = t_id ` set (wager_transactions d)" using s3(2) s2(2) by (metis set_map)
    show "succeeds X (act_bind (move_funds R live_tx t (credited_wallet R now p q) ''CREDIT'' (w_version q) (w_amount q)) (\<lambda>_.
      act_bind (saveOutboxEvent R live_tx (txid t) ''WagerTransactionProcessed'' (marshal_opaque_struct t)) (\<lambda>_.
      saveOutboxEvent R live_tx (wid (credited_wallet R now p q)) ''WalletBalanceChanged'' (balance_changed_payload R t (credited_wallet R now p q) ''CREDIT'' (w_amount q)))))
      s3 (\<lambda>u s'. True)"
    proof (rule succeeds_bind, rule succeeds_move [OF X(1) s3(4)])
      fix s4 :: session
      assume s4: "outbox_events (db s4) = outbox_events (db s3)" "ticks s4 = Suc (ticks s3)" "\<not> aborted s4"
      show "succeeds X (act_bind (saveOutboxEvent R live_tx (txid t) ''WagerTransactionProcessed'' (marshal_opaque_struct t)) (\<lambda>_.
        saveOutboxEvent R live_tx (wid (credited_wallet R now p q)) ''WalletBalanceChanged'' (balance_changed_payload R t (credited_wallet R now p q) ''CREDIT'' (w_amount q))))
        s4 (\<lambda>u s'. True)"
      proof (rule succeeds_bind)
        have "wid (credited_wallet R now p q) = w_id q" by simp
        then show "succeeds X (saveOutboxEvent R live_tx (txid t) ''WagerTransactionProcessed'' (marshal_opaque_struct t)) s4 (\<lambda>_ s5.
          succeeds X (saveOutboxEvent R live_tx (wid (credited_wallet R now p q)) ''WalletBalanceChanged''
            (balance_changed_payload R t (credited_wallet R now p q) ''CREDIT'' (w_amount q))) s5 (\<lambda>u s'. True))"
          unfolding same(1)
          using succeeds_two_events [OF X s4(3)] s4(1,2) s3(1,3) s2
          by (simp add: readings_def short_constants balance_changed_payload_def marshal_text)
      qed
    next
      show "q \<in> set (wallets (db s3))" "pg_short 64 (w_id q)" "wid (credited_wallet R now p q) = w_id q" "version (credited_wallet R now p q) = w_version q + 1"
        using f(2) s3(1) s2(2) texts(2) by simp_all
      show "0 < sint (version (credited_wallet R now p q))" using f(11,12) by simp
      show "movement ''CREDIT'' (cents (wmoney t)) (sint (w_amount q)) (cents (balance (credited_wallet R now p q)))" using mv same(2) by simp
      show "''led_'' @ txid t \<notin> l_id ` set (wallet_ledger_entries (db s3))" "pg_short 64 (''led_'' @ txid t)" "pg_short 64 (txid t)"
        using led texts same(1) s3(1) s2(2) by simp_all
      show "(w_id q, txid t) \<notin> ledger_key ` set (wallet_ledger_entries (db s3))" using f(8) same(1) s3(1) s2(2) by simp
      show "txid t \<in> t_id ` set (wager_transactions (db s3))" using ids mem same(1) s3(1) by simp
    qed
  qed
qed

lemma succeeds_resolve_credit:
  assumes r: "resolvable R X p q d" and inv: "ledger_inv d" "well_formed d" and s: "\<not> aborted s" "db s = d" "ticks s = 0"
  shows "succeeds X (resolve_credit R live_tx (scan_tx R p)) s (\<lambda>u s'. True)"
proof -
  note f = resolvable_row [OF r inv]
  have X: "fault_free X" and row: "wallet_by_id (t_wallet_id p) d = Some q" and short: "pg_short 64 (w_id q)"
    and st: "t_status p = StatusPendingReference"
    using r f(3) by (auto simp: resolvable_def)
  have w: "wallet_of_row R q = Inr (row_wallet R q)"
    using f by (simp add: wallet_of_row_def RehydrateWallet_Inr row_wallet_def cents_def NewInternalMoney_def)
  have tr: "TransitionToProcessed now (scan_tx R p) = Inr ((scan_tx R p)\<lparr>status := StatusProcessed, updatedAt := now\<rparr>)" for now
    using st by (simp add: TransitionToProcessed_Inr IsTerminal_def status_defs)
  obtain s1 where s1: "FindByIDWithLock R live_tx (t_wallet_id p) X s = (Inr (row_wallet R q), s1)" "same_db s s1"
    using FindByIDWithLock_run [OF X s(1), of "t_wallet_id p" q R] short row w s(2) f(3) by (auto simp: pg_short_def)
  have d1: "\<not> aborted s1" "db s1 = d" "ticks s1 = 0" using s s1(2) by (simp_all add: same_db_def)
  have "succeeds X (act_bind act_now (\<lambda>now. act_bind (act_pure (Credit now (wmoney (scan_tx R p)) (row_wallet R q))) (\<lambda>credited. act_bind act_now (\<lambda>now'.
      act_bind (act_pure (TransitionToProcessed now' (scan_tx R p))) (\<lambda>processed. act_bind (UpdateStatus R live_tx processed) (\<lambda>_.
      act_bind (move_funds R live_tx processed credited ''CREDIT'' (w_version q) (w_amount q)) (\<lambda>_.
      act_bind (saveOutboxEvent R live_tx (txid processed) ''WagerTransactionProcessed'' (marshal_opaque_struct processed)) (\<lambda>_.
      saveOutboxEvent R live_tx (wid credited) ''WalletBalanceChanged'' (balance_changed_payload R processed credited ''CREDIT'' (w_amount q))))))))))
      s1 (\<lambda>u s'. True)"
    using d1 by (intro succeeds_bind [of _ act_now] succeeds_bind [of _ "act_pure r" for r] succeeds_now succeeds_pure [OF credited_movement(1) [OF r inv]] succeeds_pure [OF tr] succeeds_settling [OF r inv]) simp_all
  then show ?thesis
    using s1(1) by (simp add: resolve_credit_def Let_def succeeds_def act_run)
qed

lemma resolution_succeeds:
  assumes r: "resolvable R X p q d" and inv: "ledger_inv d" "well_formed d"
  shows "\<exists>d'. ResolvePendingReference R X (t_id p) d = (Inr (), d')"
proof -
  note f = resolvable_row [OF r inv]
  have X: "fault_free X" and texts: "pg_text (t_id p)" "pg_text (t_provider_id p)" "pg_text (empty_if_null (t_reference_external_id p))"
    and st: "t_status p = StatusPendingReference" using r by (auto simp: resolvable_def pg_short_def)
  obtain x where x: "tx_by_external (t_provider_id p) (empty_if_null (t_reference_external_id p)) d = Some x" "t_status x = StatusProcessed"
    using r by (auto simp: resolvable_def split: option.splits)
  have "succeeds X (resolve_body R (t_id p) live_tx) (start_session d 0) (\<lambda>u s'. True)"
    unfolding resolve_body_def
  proof (rule succeeds_bind)
    obtain s1 where s1: "FindByIDForUpdate R live_tx (t_id p) X (start_session d 0) = (Inr (Some (scan_tx R p)), s1)" "same_db (start_session d 0) s1"
      using scanOne_run [OF X, of "start_session d 0" "[t_id p]" R "tx_by_id (t_id p)"] texts(1) f(1)
      by (auto simp: FindByIDForUpdate_def)
    have d1: "\<not> aborted s1" "db s1 = d" "ticks s1 = 0" using s1(2) by (simp_all add: same_db_def)
    have "succeeds X (FindByExternalIDTx R live_tx (t_provider_id p) (empty_if_null (t_reference_external_id p))) s1
        (\<lambda>ref s2. ref = Some (scan_tx R x) \<and> \<not> aborted s2 \<and> db s2 = d \<and> ticks s2 = 0)"
      by (rule succeeds_find [OF X d1(1) texts(2,3)]) (use d1 x in \<open>simp add: same_db_def\<close>)
    then show "succeeds X (FindByIDForUpdate R live_tx (t_id p)) (start_session d 0) (\<lambda>found s'. succeeds X (case found of
         None \<Rightarrow> act_return ()
       | Some pending \<Rightarrow>
           if status pending \<noteq> StatusPendingReference then act_return ()
           else
             act_bind (FindByExternalIDTx R live_tx (providerID pending) (referenceExternalID pending)) (\<lambda>refTx.
               case refTx of
                 None \<Rightarrow>
                   act_bind act_now (\<lambda>now.
                     UpdateStatusWithRetryAt R live_tx pending (Some (now + 5000000000)))
               | Some ref \<Rightarrow>
                   if status ref \<noteq> StatusProcessed then
                     act_bind act_now (\<lambda>now.
                     act_bind (act_pure (TransitionToRejected now ''INVALID_REFERENCE'' pending)) (\<lambda>rejected.
                       UpdateStatus R live_tx rejected))
                   else resolve_credit R live_tx pending)) s' (\<lambda>u s'. True))"
      unfolding succeeds_def [of _ "FindByIDForUpdate R live_tx (t_id p)"]
      using s1(1) d1(1) st x(2)
      by (auto intro!: succeeds_bind elim!: succeeds_mono intro: succeeds_resolve_credit [OF r inv])
  qed
  then show ?thesis
    using succeeds_execute [OF X, of "resolve_body R (t_id p)" d 0] by (simp add: ResolvePendingReference_def)
qed

text \<open>And then the transaction is processed and the account has the amount.\<close>

lemma resolution_credits:
  assumes r: "resolvable R X p q d" and inv: "ledger_inv d" "well_formed d"
    and run: "ResolvePendingReference R X (t_id p) d = (Inr (), d')"
  shows "\<exists>p' \<in> set (wager_transactions d'). tx_identity p' = tx_identity p \<and> t_status p' = StatusProcessed"
    and "accounts d' = (accounts d)(t_wallet_id p \<mapsto> sint (w_amount q) + sint (t_amount p))"
proof -
  note f = resolvable_row [OF r inv]
  obtain x where x: "tx_by_external (t_provider_id p) (empty_if_null (t_reference_external_id p)) d = Some x" "t_status x = StatusProcessed"
    using r by (auto simp: resolvable_def split: option.splits)
  have p: "t_status p = StatusPendingReference" "wallet_by_id (t_wallet_id p) d = Some q" "p \<in> set (wager_transactions d)"
    "in_int64 (sint (w_amount q) + sint (t_amount p))" using r by (auto simp: resolvable_def)
  have ts: "wager_transactions d' = set_status (t_id p) StatusProcessed (kept_code p) None (store_time R (clock X 1)) d"
    and wal: "wallets d' = set_balance q (w_amount q + t_amount p) (store_time R (clock X 0)) (wallets d)"
    using ResolvePendingReference_effect [OF run] f(1) x p by (auto simp: resolve_effect_def add_events_def)
  show "\<exists>p' \<in> set (wager_transactions d'). tx_identity p' = tx_identity p \<and> t_status p' = StatusProcessed"
  proof -
    have "p\<lparr>t_status := StatusProcessed, t_failure_code := kept_code p, t_next_retry_at := None,
        t_updated_at := store_time R (clock X 1)\<rparr> \<in> set (wager_transactions d')"
      using ts p(3) by (auto simp: set_status_def set_update_where image_iff)
    then show ?thesis by (rule rev_bexI) (simp add: tx_identity_def)
  qed
  show "accounts d' = (accounts d)(t_wallet_id p \<mapsto> sint (w_amount q) + sint (t_amount p))"
    using accounts_set_balance [OF p(2) wal] sint_add_int64 [OF p(4)] by simp
qed

end
