(* ===== verification/Late_References.thy ===== *)
theory Late_References
  imports Resolution_Progress
begin

text \<open>
  The order of a refund and its bet does not matter in the end: when the refund comes first, is stored as waiting, and is resolved after the bet, the accounts
  are those of the usual order.
\<close>

text \<open>The row that a refund leaves behind when it waits for its reference.\<close>

lemma parked_row:
  assumes ok: "ProcessTransactionWithInbox R cfg X input inbox d = (Inr out, d')"
    and st: "out_Status out = StatusPendingReference" "\<not> out_IdempotentReplay out" and inv: "ledger_inv d"
    and m: "NewMoneyFromString R (in_Amount input) (in_Currency input) = Inr m"
  obtains row where "wager_transactions d' = wager_transactions d @ [row]" "t_id row = pg_trunc 64 (internal_tx_id input)"
    "t_status row = StatusPendingReference" "t_amount row = amount m" "t_wallet_id row = in_WalletID input"
    "in_Kind input \<in> {KindRefund, KindRollback}" "accounts d' = accounts d"
proof -
  obtain t d1 where t: "prepare_wager R cfg (clock X 0) input = Inr t" and c: "claims_message inbox d d1"
    and e: "call_effect R X input t out d1 d'" using ProcessTransactionWithInbox_effect [OF ok] by blast
  have same: "wallets d1 = wallets d" "wager_transactions d1 = wager_transactions d"
    using claims_message_wallets [OF c] claims_message_txs [OF c] by simp_all
  have "existing_for input d1 = None" using e st(2) by (cases "existing_for input d1") (auto simp: call_effect_def)
  then obtain q p where q: "wallet_by_id (in_WalletID input) d1 = Some q" and eff: "wager_effect R X t q d1 p d'" and p: "out_Status out = status p"
    using e by (auto simp: call_effect_def)
  obtain s code upd where s: "p = settled_as t s code upd" "s = StatusPendingReference \<longrightarrow> kind t \<in> {KindRefund, KindRollback}"
    using wager_effect_outcome [OF t eff] by (auto simp: status_defs)
  then have wait: "p = settled_as t StatusPendingReference code upd" "kind t \<in> {KindRefund, KindRollback}"
    using p st(1) by (simp_all add: settled_as_def)
  obtain retry where row: "wager_transactions d' = wager_transactions d @ [stored_tx (tx_row_of R p retry)]"
    using wager_effect_row [OF eff] same by auto
  have "q \<in> set (wallets d)" "w_id q = in_WalletID input"
    using q same by (auto simp: wallet_by_id_def dest: find_SomeD)
  moreover have "\<forall>r \<in> set (wallets d). pg_trunc 64 (w_id r) = w_id r" using inv unfolding ledger_inv_def books_def keys_inv_def by blast
  ultimately have id: "pg_trunc 64 (in_WalletID input) = in_WalletID input" by metis
  have m': "wmoney t = m" using prepared_money(1) [OF t] m by simp
  show thesis
  proof (rule that [of "stored_tx (tx_row_of R p retry)"])
    show "accounts d' = accounts d"
      using call_accounts [OF ok] st(1) by (auto simp: account_step_def status_defs)
  qed (use row wait m' id prepared_fields [OF t] in \<open>simp_all add: tx_row_of_def settled_as_def\<close>)
qed

text \<open>A resolution that leaves the transaction processed has credited it.\<close>

lemma resolved_accounts:
  assumes run: "ResolvePendingReference R X i d = (Inr u, d')" and inv: "ledger_inv d"
    and row: "row \<in> set (wager_transactions d)" "t_id row = i" "t_status row = StatusPendingReference"
    and fin: "\<exists>r \<in> set (wager_transactions d'). t_id r = i \<and> t_status r = StatusProcessed"
  shows "accounts d' = (accounts d)(t_wallet_id row := map_option (\<lambda>b. b + sint (t_amount row)) (accounts d (t_wallet_id row)))"
proof -
  have "tx_tab.unique d" using inv by (simp add: ledger_inv_def books_def keys_inv_def)
  then have found: "tx_by_id i d = Some row"
    using tx_tab.lookup_unique [OF _ row(1)] row(2) by (simp add: tx_tab.lookup_def tx_by_id_def)
  note e = ResolvePendingReference_effect [OF run, unfolded resolve_effect_def]
  have none: "t_status r = st" if "r \<in> set (set_status i st code retry upd d)" "t_id r = i" for st code retry upd r
    by (rule set_status_member [OF that(1)]) (use that(2) in \<open>auto split: if_splits\<close>)
  let ?ref = "tx_by_external (t_provider_id row) (empty_if_null (t_reference_external_id row)) d"
  have waits: False if "wager_transactions d' = set_status i st code retry upd d" "st \<noteq> StatusProcessed" for st code retry upd
    using fin none that unfolding that(1) by blast
  obtain x where x: "?ref = Some x" "t_status x = StatusProcessed"
  proof (cases ?ref)
    case None
    then show ?thesis
      using e found row(3) waits [of StatusPendingReference "kept_code row" "Some (store_time R (clock X 0 + 5000000000))" "store_time R (t_updated_at row)"]
      by (simp add: status_defs)
  next
    case (Some x)
    then have "t_status x = StatusProcessed"
      using e found row(3) waits [of StatusRejected "Some ''INVALID_REFERENCE''" None "store_time R (clock X 0)"]
      by (cases "t_status x = StatusProcessed") (auto simp: status_defs)
    with Some show ?thesis by (rule that)
  qed
  then obtain q upd where "wallet_by_id (t_wallet_id row) d = Some q" "in_int64 (sint (w_amount q) + sint (t_amount row))"
    "wallets d' = set_balance q (w_amount q + t_amount row) upd (wallets d)"
    using e found row(3) by (auto simp: add_events_def)
  then show ?thesis
    using accounts_set_balance [of "t_wallet_id row" d q d'] sint_add_int64 by (simp add: accounts_def)
qed

lemma order_does_not_matter:
  assumes inv: "ledger_inv d"
    and bet: "ProcessTransactionWithInbox R cfg X1 bet inb1 d = (Inr o1, d1)" "out_Status o1 = StatusProcessed" "\<not> out_IdempotentReplay o1"
    and refund: "ProcessTransactionWithInbox R cfg X2 refund inb2 d1 = (Inr o2, d2)" "out_Status o2 = StatusProcessed" "\<not> out_IdempotentReplay o2"
    and early: "ProcessTransactionWithInbox R cfg X3 refund inb3 d = (Inr o3, e1)" "out_Status o3 = StatusPendingReference" "\<not> out_IdempotentReplay o3"
    and bet': "ProcessTransactionWithInbox R cfg X4 bet inb4 e1 = (Inr o4, e2)" "out_Status o4 = StatusProcessed" "\<not> out_IdempotentReplay o4"
    and resolved: "ResolvePendingReference R X5 (pg_trunc 64 (internal_tx_id refund)) e2 = (Inr (), e3)"
      "\<exists>r \<in> set (wager_transactions e3). t_id r = pg_trunc 64 (internal_tx_id refund) \<and> t_status r = StatusProcessed"
  shows "accounts e3 = accounts d2"
proof -
  obtain mb where mb: "NewMoneyFromString R (in_Amount bet) (in_Currency bet) = Inr mb" "accounts d1 = account_step bet (cents mb) o1 (accounts d)"
    using call_accounts [OF bet(1)] by blast
  obtain mr where mr: "NewMoneyFromString R (in_Amount refund) (in_Currency refund) = Inr mr" "accounts d2 = account_step refund (cents mr) o2 (accounts d1)"
    using call_accounts [OF refund(1)] by blast
  obtain row where row: "wager_transactions e1 = wager_transactions d @ [row]" "t_id row = pg_trunc 64 (internal_tx_id refund)"
    "t_status row = StatusPendingReference" "t_amount row = amount mr" "t_wallet_id row = in_WalletID refund"
    "in_Kind refund \<in> {KindRefund, KindRollback}" "accounts e1 = accounts d"
    by (rule parked_row [OF early inv mr(1)])
  have "ledger_inv e1" using ProcessTransactionWithInbox_keeps [OF inv early(1)] .
  then have inv2: "ledger_inv e2" using ProcessTransactionWithInbox_keeps bet'(1) by blast
  have "appended e1 e2" using app.process_respects [OF bet'(1)] .
  then have "row \<in> set (wager_transactions e2)" using row(1) by (auto simp: appended_def dest: set_mono_prefix)
  note fin = resolved_accounts [OF resolved(1) inv2 this row(2,3) resolved(2)]
  have "accounts e2 = account_step bet (cents mb) o4 (accounts e1)" using call_accounts [OF bet'(1)] mb(1) by auto
  then have "accounts e2 = accounts d1" using mb(2) row(7) bet(2,3) bet'(2,3) by (simp add: account_step_def)
  moreover have "in_Kind refund \<noteq> KindLoss" "in_Kind refund \<noteq> KindBet" using row(6) by (auto simp: kind_defs)
  ultimately show ?thesis using fin mr(2) row(4,5) refund(2,3) by (simp add: account_step_def cents_def)
qed

text \<open>A refund or rollback of a processed transaction, whatever its amount: it is credited, and the transaction that it names stays as it is.\<close>

lemma later_external:
  assumes "appended d d'" "tx_by_external p e d = Some x"
  shows "tx_by_external p e d' = Some x"
  using assms by (auto simp: appended_def tx_by_external_def prefix_def find_append)

lemma refund_credits:
  assumes r: "ready R cfg X input t q d" and c: "claims_message inbox d d1" and k: "kind t \<in> {KindRefund, KindRollback}"
    and x: "tx_by_external (providerID t) (referenceExternalID t) d = Some x" "t_status x = StatusProcessed"
    and fits: "in_int64 (sint (w_amount q) + cents (wmoney t))"
  obtains out d' where "ProcessTransactionWithInbox R cfg X input inbox d = (Inr out, d')" "out_Status out = StatusProcessed"
    "accounts d' = (accounts d)(in_WalletID input \<mapsto> sint (w_amount q) + cents (wmoney t))"
    "tx_by_external (providerID t) (referenceExternalID t) d' = Some x"
proof -
  have "verdict t q d = Some StatusProcessed" using k x fits by (auto simp: verdict_def Let_def kind_defs)
  then obtain out d' where ok: "ProcessTransactionWithInbox R cfg X input inbox d = (Inr out, d')"
    and out: "out_Status out = StatusProcessed" "\<not> out_IdempotentReplay out"
    using call_decides [OF r c] by blast
  have t: "prepare_wager R cfg (clock X 0) input = Inr t" and q: "wallet_by_id (in_WalletID input) d = Some q"
    using r by (simp_all add: ready_def)
  obtain m where "NewMoneyFromString R (in_Amount input) (in_Currency input) = Inr m"
    "accounts d' = account_step input (cents m) out (accounts d)" using ok by (rule call_accounts)
  moreover have "in_Kind input \<notin> {KindLoss, KindBet}" using k prepared_fields(4) [OF t] by (auto simp: kind_defs)
  ultimately have "accounts d' = (accounts d)(in_WalletID input \<mapsto> sint (w_amount q) + cents (wmoney t))"
    using out q prepared_money(1) [OF t] by (simp add: account_step_def accounts_def)
  moreover have "tx_by_external (providerID t) (referenceExternalID t) d' = Some x"
    using later_external [OF app.process_respects [OF ok] x(1)] .
  ultimately show thesis using that ok out(1) by blast
qed

end
