(* ===== verification/Demo_Progress.thy ===== *)
theory Demo_Progress
  imports Late_References Demo_Run
begin

text \<open>The bet of the run is ready to be settled, and so is one that the balance does not cover.\<close>

definition demo_new :: "string \<Rightarrow> string \<Rightarrow> int64 \<Rightarrow> wager" where
  "demo_new external k amt =
     (let t = demo_wager external k amt '''' 2000 in t\<lparr>payloadHash := sha256_hex (canonicalJSON t)\<rparr>)"

lemma demo_bet_prepared:
  "prepare_wager demo_R demo_cfg (clock (demo_X 2000) 0) (demo_input ''b1'' ''BET'' ''30.00'' '''') = Inr (demo_new ''b1'' ''BET'' 3000)"
  by (simp add: demo_eval process_eval demo2_eval demo_new_def)

lemma demo_room: "room_for (demo_X 2000) (demo_input ''b1'' ''BET'' ''30.00'' '''') demo1"
  by (simp add: room_for_def uncut_def event_room_def event_id_def readings_def upt_rec demo_eval demo1_eval internal_tx_id_def
      graphic_pg_short)

lemma demo_ready:
  "ready demo_R demo_cfg (demo_X 2000) (demo_input ''b1'' ''BET'' ''30.00'' '''') (demo_new ''b1'' ''BET'' 3000) (demo_wallet 10000 1 1000) demo1"
proof -
  have "ledger_inv demo1" using demo1_reachable by (rule reachable_ledger)
  then show ?thesis
    unfolding ready_def using demo_fault_free demo_bet_prepared demo_room
    by (simp add: demo_eval demo1_eval demo_new_def demo_wager_def existing_for_def in_int64_def graphic_pg_short)
qed

text \<open>The refund that came before its bet is ready to be resolved after it.\<close>

definition demo_waiting :: tx_row where
  "demo_waiting = tx_row_of demo_R (demo_refund ''PENDING_REFERENCE'' 1500 1501) (Some 5000001502)"

lemma demo_resolvable: "resolvable demo_R (demo_X 3000) demo_waiting (demo_wallet 7000 2 2001) demo_parked_bet"
  by (simp add: resolvable_def demo_waiting_def fault_free_def event_room_def event_id_def readings_def upt_rec
      demo_eval demo2_eval demo_parked_bet_def demo_parked_def demo_refund_def graphic_pg_short)

text \<open>The refund of 50.00 for the bet of 30.00 is ready, too.\<close>

definition demo_excess :: wager where
  "demo_excess = (let t = demo_wager ''f1'' ''REFUND'' 5000 ''b1'' 3000 in t\<lparr>payloadHash := sha256_hex (canonicalJSON t)\<rparr>)"

lemma demo_excess_prepared:
  "prepare_wager demo_R demo_cfg (clock (demo_X 3000) 0) (demo_input ''f1'' ''REFUND'' ''50.00'' ''b1'') = Inr demo_excess"
  by (simp add: demo_eval process_eval demo2_eval demo_excess_def)

lemma demo_excess_room: "room_for (demo_X 3000) (demo_input ''f1'' ''REFUND'' ''50.00'' ''b1'') demo2"
  by (simp add: room_for_def uncut_def event_room_def event_id_def readings_def upt_rec demo_eval demo2_eval internal_tx_id_def
      graphic_pg_short)

lemma demo_excess_ready:
  "ready demo_R demo_cfg (demo_X 3000) (demo_input ''f1'' ''REFUND'' ''50.00'' ''b1'') demo_excess (demo_wallet 7000 2 2001) demo2"
proof -
  have "ledger_inv demo2" using demo2_reachable by (rule reachable_ledger)
  then show ?thesis
    unfolding ready_def using demo_fault_free demo_excess_prepared demo_excess_room
    by (simp add: demo_eval demo2_eval demo_excess_def existing_for_def in_int64_def graphic_pg_short)
qed

end
