(* ===== verification/Optimistic_Locking.thy ===== *)
theory Optimistic_Locking
  imports Well_Formed
begin

text \<open>
  What the version of a wallet is for. \<open>UPDATE wallets ... WHERE id = $4 AND version = $5\<close> tests the version that was read with the balance. Each step of the
  service that writes the balance of a wallet adds one to its version and one entry to its ledger, and no step does one without the other; the check \<open>version > 0\<close> of the
  schema refuses the update that would wrap. So an unchanged version tells that there was no movement, and the update is safe whatever was committed after the read, even without the lock.
\<close>

section \<open>Movements and versions\<close>

definition movements :: "string \<Rightarrow> database \<Rightarrow> nat" where
  "movements i d = length (entries_of i d)"

definition counted :: "database \<Rightarrow> database \<Rightarrow> bool" where
  "counted d d' \<longleftrightarrow>
     (\<forall>q \<in> set (wallets d). \<exists>q' \<in> set (wallets d'). \<exists>n. w_id q' = w_id q
        \<and> movements (w_id q) d' = movements (w_id q) d + n \<and> sint (w_version q') = sint (w_version q) + int n)"

lemma counted_refl: "wallets d' = wallets d \<Longrightarrow> wallet_ledger_entries d' = wallet_ledger_entries d \<Longrightarrow> counted d d'"
  unfolding counted_def by (intro ballI bexI [of _ q for q] exI [of _ 0]) (auto simp: movements_def entries_of_def)

lemma counted_trans:
  assumes "counted d d1" "counted d1 d2"
  shows "counted d d2"
  unfolding counted_def
proof
  fix q assume "q \<in> set (wallets d)"
  then obtain q1 n where q1: "q1 \<in> set (wallets d1)" "w_id q1 = w_id q" "movements (w_id q) d1 = movements (w_id q) d + n"
    "sint (w_version q1) = sint (w_version q) + int n" using assms(1) unfolding counted_def by blast
  then obtain q2 m where q2: "q2 \<in> set (wallets d2)" "w_id q2 = w_id q" "movements (w_id q) d2 = movements (w_id q) d1 + m"
    "sint (w_version q2) = sint (w_version q1) + int m" using assms(2) unfolding counted_def by metis
  show "\<exists>q' \<in> set (wallets d2). \<exists>n. w_id q' = w_id q
      \<and> movements (w_id q) d2 = movements (w_id q) d + n \<and> sint (w_version q') = sint (w_version q) + int n"
    by (intro bexI [OF _ q2(1)] exI [of _ "n + m"]) (simp add: q1 q2 algebra_simps)
qed

text \<open>The two ways in which a transaction writes to the wallets.\<close>

lemma next_version:
  fixes v :: int64
  assumes "0 < sint v" "0 < sint (v + 1)"
  shows "sint (v + 1) = sint v + 1"
proof (cases "in_int64 (sint v + sint (1 :: int64))")
  case True
  then show ?thesis using sint_add_int64 [of v 1] by simp
next
  case False
  then have "sint v = 2 ^ 63 - 1" using int64_range [of v] assms(1) by (simp add: in_int64_def)
  then have "v = 9223372036854775807" by (intro signed_word_eqI) simp
  then show ?thesis using assms(2) by simp
qed

lemma counted_movement:
  assumes keys: "keys_inv d" and checks: "list_all wallet_check (wallets d)" "list_all wallet_check (wallets d')" and q: "wallet_by_id i d = Some q"
    and d': "wallets d' = set_balance q amt upd (wallets d)" "wallet_ledger_entries d' = wallet_ledger_entries d @ [l]"
    and l: "l_wallet_id l = pg_trunc 64 (w_id q)"
  shows "counted d d'"
  unfolding counted_def
proof
  fix r assume r: "r \<in> set (wallets d)"
  have q': "q \<in> set (wallets d)" "pg_trunc 64 (w_id q) = w_id q"
    using q keys by (auto simp: wallet_by_id_def keys_inv_def dest: find_SomeD)
  have eq: "r = q" if "w_id r = w_id q" using wallet_tab.unique_eq [OF _ r q'(1)] keys that by (simp add: keys_inv_def)
  show "\<exists>q' \<in> set (wallets d'). \<exists>n. w_id q' = w_id r
      \<and> movements (w_id r) d' = movements (w_id r) d + n \<and> sint (w_version q') = sint (w_version r) + int n"
  proof (cases "w_id r = w_id q")
    case True
    then have new: "q\<lparr>w_amount := amt, w_version := w_version q + 1, w_updated_at := upd\<rparr> \<in> set (wallets d')"
      using r eq unfolding d'(1) set_balance_def set_update_where by force
    then have "sint (w_version q + 1) = sint (w_version q) + 1"
      using checks q'(1) by (intro next_version) (auto simp: list_all_iff wallet_check_def)
    then show ?thesis
      by (intro bexI [OF _ new] exI [of _ 1]) (simp add: True eq movements_def entries_of_def d'(2) l q'(2))
  next
    case False
    then have "r \<in> set (wallets d')" using r unfolding d'(1) set_balance_def set_update_where by force
    then show ?thesis
      by (rule bexI [rotated], intro exI [of _ 0]) (use False in \<open>simp add: movements_def entries_of_def d'(2) l q'(2)\<close>)
  qed
qed

lemma counted_new:
  assumes keys: "keys_inv d'" and d': "wallets d' = wallets d @ [row]" "wallet_ledger_entries d' = wallet_ledger_entries d @ ls"
    and ls: "\<forall>l \<in> set ls. l_wallet_id l = w_id row"
  shows "counted d d'"
  unfolding counted_def
proof
  fix r assume r: "r \<in> set (wallets d)"
  have "wallet_tab.unique d'" using keys by (simp add: keys_inv_def)
  then have "w_id row \<notin> w_id ` set (wallets d)" by (simp add: wallet_tab.unique_def d'(1))
  then have "w_id r \<noteq> w_id row" using r by (metis image_eqI)
  then have "entries_of (w_id r) d' = entries_of (w_id r) d" using ls by (auto simp: entries_of_def d'(2) filter_empty_conv)
  then show "\<exists>q' \<in> set (wallets d'). \<exists>n. w_id q' = w_id r
      \<and> movements (w_id r) d' = movements (w_id r) d + n \<and> sint (w_version q') = sint (w_version r) + int n"
    using r d'(1) by (intro bexI [of _ r] exI [of _ 0]) (simp_all add: movements_def)
qed

section \<open>Every step counts\<close>

lemma wager_effect_counted:
  assumes "wager_effect R X t q d p d'" "wallet_by_id i d = Some q" "keys_inv d" "list_all wallet_check (wallets d)" "list_all wallet_check (wallets d')"
  shows "counted d d'"
proof -
  have stored: "counted d d'" if "only_stored R p' retry ev d d'" for p' retry ev
    using only_stored_wallets [OF that] counted_refl by blast
  have moved: "counted d d'" if mv: "money_moved R p' q dir amt d d'" for p' dir amt
  proof -
    obtain upd l where "wallets d' = set_balance q amt upd (wallets d)" "wallet_ledger_entries d' = wallet_ledger_entries d @ [l]"
      "l_wallet_id l = pg_trunc 64 (w_id q)"
      using mv by (auto simp: money_moved_def add_events_def add_tx_def entry_for_def)
    then show ?thesis by (rule counted_movement [OF assms(3-5,2)])
  qed
  show ?thesis
    using assms(1) by (auto simp: wager_effect_def Let_def dest: stored moved split: option.splits if_splits)
qed

lemma resolve_effect_counted:
  assumes "resolve_effect R c i d d'" "keys_inv d" "list_all wallet_check (wallets d)" "list_all wallet_check (wallets d')"
  shows "counted d d'"
proof -
  have "counted d d'" if "wallet_by_id j d = Some q" "entry_for l p q dir amt"
    "d' = add_events es (d\<lparr>wager_transactions := ts, wallets := set_balance q amt upd (wallets d),
       wallet_ledger_entries := wallet_ledger_entries d @ [l]\<rparr>)" for j q l p dir amt es ts upd
    by (rule counted_movement [OF assms(2-4) that(1)]) (use that(2,3) in \<open>auto simp: add_events_def entry_for_def\<close>)
  then show ?thesis
    using assms(1) by (auto simp: resolve_effect_def intro: counted_refl split: option.splits if_splits)
qed

lemma open_effect_counted:
  assumes "open_effect R w d d'" "keys_inv d'"
  shows "counted d d'"
proof -
  obtain ls where "wallets d' = wallets d @ [stored_wallet (wallet_row_of R w)]" "wallet_ledger_entries d' = wallet_ledger_entries d @ ls"
    "\<forall>l \<in> set ls. l_wallet_id l = w_id (stored_wallet (wallet_row_of R w))"
    using assms(1) by (auto simp: open_effect_def Let_def add_events_def split: if_splits)
  then show ?thesis by (rule counted_new [OF assms(2)])
qed

lemma step_counted:
  assumes "service_step R cfg d d'" "ledger_inv d" "list_all wallet_check (wallets d)" "list_all wallet_check (wallets d')"
  shows "counted d d'"
proof -
  have keys: "keys_inv d" "keys_inv d'" using step_ledger [OF assms(1,2)] assms(2) by (simp_all add: ledger_inv_def books_def)
  from assms(1) show ?thesis
  proof (rule service_stepE)
    fix refuses locked X io io' assume "processPendingEvents R cfg refuses locked X io d = (io', d')"
    then have "only_outbox d d'" by (rule processPendingEvents_frame)
    then show ?thesis by (simp add: only_outbox_def counted_refl)
  next
    fix X input inbox r assume "ProcessTransactionWithInbox R cfg X input inbox d = (r, d')"
    then show ?thesis
    proof (rule ProcessTransactionWithInbox_cases)
      fix t out d1
      assume c: "claims_message inbox d d1" and e: "call_effect R X input t out d1 d'"
      have d1: "wallets d1 = wallets d" "wallet_ledger_entries d1 = wallet_ledger_entries d"
        using c by (auto simp: claims_message_def insert_inbox_Inr split: option.splits)
      have k1: "keys_inv d1"
        using assms(2) c books_inbox [of "{}" "\<lambda>i. 0" d _ d1] by (auto simp: claims_message_def ledger_inv_def books_def split: option.splits)
      show ?thesis
      proof (cases "existing_for input d1")
        case None
        then have "counted d1 d'" using e k1 wager_effect_counted assms(3,4) d1(1) by (fastforce simp: call_effect_def)
        then show ?thesis using counted_trans [OF counted_refl [OF d1]] by blast
      next
        case (Some x)
        then show ?thesis using e d1 by (simp add: call_effect_def counted_refl)
      qed
    qed (simp add: counted_refl)
  next
    fix X i r assume "ResolvePendingReference R X i d = (r, d')"
    then show ?thesis by (rule ResolvePendingReference_cases) (simp_all add: counted_refl resolve_effect_counted keys assms(3,4))
  next
    fix X ow r assume "OpenWallet_Execute R cfg X ow d = (r, d')"
    then show ?thesis by (rule OpenWallet_cases) (simp_all add: counted_refl open_effect_counted keys)
  qed
qed

lemma reachable_checked: "reachable R cfg d \<Longrightarrow> list_all wallet_check (wallets d)"
  using reachable_well_formed by (fastforce simp: well_formed_def well_formed_wallet_def list_all_iff)

lemma run_counted:
  assumes "reachable R cfg d" "service_run R cfg d d'"
  shows "counted d d'"
  using assms(2) unfolding service_run_def
proof (induction rule: rtranclp_induct)
  case base
  then show ?case by (simp add: counted_refl)
next
  case (step d1 d2)
  have r: "reachable R cfg d1" "reachable R cfg d2"
    using reachable_run [OF assms(1), of d1] reachable_run [OF assms(1), of d2] step.hyps rtranclp.rtrancl_into_rtrancl [OF step.hyps]
    by (simp_all add: service_run_def)
  have "counted d1 d2"
    using step_counted [OF step.hyps(2) reachable_ledger [OF r(1)] reachable_checked [OF r(1)] reachable_checked [OF r(2)]] .
  then show ?case using step.IH counted_trans by blast
qed

section \<open>An unchanged version\<close>

text \<open>At any later time a row with the version that was read has the balance that was read.\<close>

lemma same_version:
  assumes reach: "reachable R cfg d" and run: "service_run R cfg d d'"
    and q: "q \<in> set (wallets d)" "q' \<in> set (wallets d')" "w_id q' = w_id q" "w_version q' = w_version q"
  shows "entries_of (w_id q) d' = entries_of (w_id q) d \<and> w_amount q' = w_amount q"
proof -
  have inv: "ledger_inv d" "ledger_inv d'" and c: "counted d d'"
    using run_counted [OF reach run] reachable_ledger reach reachable_run [OF reach run] by blast+
  obtain q2 n where q2: "q2 \<in> set (wallets d')" "w_id q2 = w_id q" "movements (w_id q) d' = movements (w_id q) d + n"
    "sint (w_version q2) = sint (w_version q) + int n" using c q(1) unfolding counted_def by blast
  have "q2 = q'" using wallet_tab.unique_eq [of d' q2 q'] inv(2) q2(1,2) q(2,3) by (simp add: ledger_inv_def books_def keys_inv_def)
  then have "n = 0" using q2(4) q(4) by simp
  have "prefix (wallet_ledger_entries d) (wallet_ledger_entries d')" using run_history [OF run] by (simp add: history_def)
  then obtain ls where ls: "wallet_ledger_entries d' = wallet_ledger_entries d @ ls" by (auto simp: prefix_def)
  have same: "entries_of (w_id q) d' = entries_of (w_id q) d"
    using q2(3) \<open>n = 0\<close> by (auto simp: movements_def entries_of_def ls)
  then have "sint (w_amount q') = sint (w_amount q)"
    using inv q by (simp add: ledger_inv_def books_def balance_inv_def ledger_balance_def)
  then show ?thesis using same by (simp add: signed_word_eqI)
qed

text \<open>So the optimistic lock of \<open>Wallet_Update\<close> is sound: an update that is accepted has replaced the balance that its caller had read.\<close>

lemma accepted_update:
  assumes "reachable R cfg d" "service_run R cfg d (db s)" "q \<in> set (wallets d)"
    and "Wallet_Update R live_tx w (w_version q) X s = (Inr u, s')" "wid w = w_id q"
  shows "entries_of (w_id q) (db s) = entries_of (w_id q) d
     \<and> (\<exists>q'. wallet_by_id (w_id q) (db s) = Some q' \<and> w_amount q' = w_amount q)"
proof -
  obtain n where n: "0 < n" "update_wallet (amount (balance w)) (version w) (store_time R (wupdatedAt w)) (wid w) (w_version q) (db s) = Inr (n, db s')"
    using Wallet_Update_ok [OF assms(4)] by blast
  obtain q' where q': "q' \<in> set (wallets (db s))" "w_id q' = w_id q" "w_version q' = w_version q"
    using n assms(5) by (fastforce simp: update_wallet_def Let_def refuse_def filter_empty_conv split: if_splits)
  have "wallet_tab.unique (db s)" using reachable_ledger [OF reachable_run [OF assms(1,2)]] by (simp add: ledger_inv_def books_def keys_inv_def)
  then have "wallet_by_id (w_id q) (db s) = Some q'"
    using wallet_tab.lookup_unique q'(1,2) by (metis wallet_by_id_def wallet_tab.lookup_def)
  then show ?thesis using same_version [OF assms(1-3) q'] by blast
qed

end
