(* ===== verification/Reconciliation_Laws.thy ===== *)
theory Reconciliation_Laws
  imports Idempotency Service_Guarantees
begin

text \<open>
  What a reconciliation reports when the wallet and the ledger are read in two states of one run: the difference of the balances of the wallet in the
  two states. So it finds nothing wrong with a wallet at rest, and blames one that moved between the reads.
\<close>

lemma reachable_balance:
  assumes "reachable R cfg d" "wallet_by_id i d = Some q"
  shows "sint (w_amount q) = ledger_balance i d" "0 \<le> sint (w_amount q)" "w_id q = i"
  using reachable_ledger [OF assms(1)] assms(2)
  by (auto simp: ledger_inv_def books_def balance_inv_def wallet_by_id_def dest: find_SomeD)

lemma later_wallet:
  assumes "reachable R cfg d1" "service_run R cfg d1 d2" "wallet_by_id i d1 = Some q1"
  obtains q2 where "wallet_by_id i d2 = Some q2" "w_currency q2 = w_currency q1" "w_player_id q2 = w_player_id q1"
proof -
  have q1: "q1 \<in> set (wallets d1)" "w_id q1 = i" using assms(3) by (auto simp: wallet_by_id_def dest: find_SomeD)
  obtain q2 where q2: "q2 \<in> set (wallets d2)" "wallet_identity q2 = wallet_identity q1"
    using history_wallet [OF run_history [OF assms(2)] q1(1)] by blast
  have "wallet_tab.unique d2"
    using reachable_ledger [OF reachable_run [OF assms(1,2)]] by (simp add: ledger_inv_def books_def keys_inv_def)
  then show thesis using that find_wallet [OF _ q2(1)] q2(2) q1(2) by (simp add: wallet_identity_def)
qed

definition money_shown :: "money \<Rightarrow> money_dto" where
  "money_shown m = \<lparr>dto_Amount = money_string m, dto_Currency = currency m\<rparr>"

lemma shown_amount: "shown_balance R q = money_shown (NewInternalMoney R (w_amount q) (w_currency q))"
  by (simp add: shown_balance_def money_shown_def)

lemma int64_diff_cents:
  "0 \<le> sint a \<Longrightarrow> 0 \<le> sint b \<Longrightarrow> sint (a - b :: int64) = sint a - sint b"
  using int64_range [of a] int64_range [of b] by (intro sint_diff_int64) (simp add: in_int64_def)

lemma reconciled_snapshots:
  assumes d1: "reachable R cfg d1" and run: "service_run R cfg d1 d2"
    and ok: "Reconciliation_Execute R repo X i d1 d2 = Inr out"
  obtains q1 q2 m where "wallet_by_id i d1 = Some q1" "wallet_by_id i d2 = Some q2"
    "ro_StoredBalance out = shown_balance R q1" "ro_CalculatedBalance out = shown_balance R q2"
    "ro_Difference out = money_shown m" "cents m = sint (w_amount q1) - sint (w_amount q2)"
    "ro_Consistent out \<longleftrightarrow> w_amount q1 = w_amount q2" "ro_CheckedEntries out = of_nat (length (entries_of i d2))"
proof -
  obtain pool w a c where w: "FindByID R pool X 0 i d1 = Inr w" and a: "CalculateLedgerBalance pool X 1 i d2 = Inr (a, c)"
    and out: "out = (let dto = (\<lambda>x. \<lparr>dto_Amount = money_string (NewInternalMoney R x (currency (balance w))),
                                     dto_Currency = currency (balance w)\<rparr>)
       in \<lparr>ro_WalletID = i, ro_StoredBalance = dto (amount (balance w)),
           ro_CalculatedBalance = dto a, ro_Difference = dto (amount (balance w) - a),
           ro_Consistent = (amount (balance w) = a), ro_CheckedEntries = c\<rparr>)"
    using ok unfolding Reconciliation_Inr by blast
  obtain q1 where q1: "wallet_by_id i d1 = Some q1" "balance w = NewInternalMoney R (w_amount q1) (w_currency q1)"
    using w by (auto simp: inr_dest wallet_of_row_def)
  obtain q2 where q2: "wallet_by_id i d2 = Some q2" "w_currency q2 = w_currency q1"
    using d1 run q1(1) by (rule later_wallet)
  note b1 = reachable_balance [OF d1 q1(1)] and b2 = reachable_balance [OF reachable_run [OF d1 run] q2(1)]
  have ac: "a = w_amount q2" "c = of_nat (length (entries_of i d2))"
    using a unfolding CalculateLedgerBalance_Inr b2(1) [symmetric] by simp_all
  have shown: "money_string (NewInternalMoney R x cur) = money_string (NewInternalMoney R x cur')" for x cur cur'
    by (simp add: money_string_def NewInternalMoney_def)
  have bal: "amount (balance w) = w_amount q1" "currency (balance w) = currency (NewInternalMoney R (w_amount q2) (w_currency q2))"
    using q1(2) q2(2) by (simp_all add: NewInternalMoney_def)
  let ?m = "\<lparr>amount = w_amount q1 - w_amount q2, currency = currency (balance w)\<rparr>"
  show thesis
  proof (rule that [OF q1(1) q2(1), of ?m])
    show "ro_StoredBalance out = shown_balance R q1"
      using q1(2) bal(1) shown by (simp add: out Let_def shown_balance_def)
    show "ro_CalculatedBalance out = shown_balance R q2"
      using bal(2) ac(1) shown by (simp add: out Let_def shown_balance_def)
    show "ro_Difference out = money_shown ?m"
      using bal ac(1) by (simp add: out Let_def money_shown_def money_string_def NewInternalMoney_def)
    show "cents ?m = sint (w_amount q1) - sint (w_amount q2)"
      using b1(2) b2(2) by (simp add: cents_def int64_diff_cents)
    show "ro_Consistent out \<longleftrightarrow> w_amount q1 = w_amount q2" "ro_CheckedEntries out = of_nat (length (entries_of i d2))"
      using bal(1) ac by (simp_all add: out Let_def)
  qed
qed

end
