(* ===== verification/Spec2Isabelle.thy ===== *)
theory Spec2Isabelle
  imports Error_Sources Base64_Laws Demo_Shutdown Demo_Progress Optimistic_Locking Reconciliation_Laws
begin

text \<open>
  A verification development for the wagering ledger of \<open>jungle-gaming-challenge\<close>, a Go service that keeps the
  wallets of players. Providers post bets, wins, losses, refunds and rollbacks over HTTP or through an SQS queue; every
  movement of money is a row of a ledger in PostgreSQL, and every change is announced by an event of an outbox that a worker publishes.

  \<^bold>\<open>The program and the theories.\<close>
  \<^item> \<open>internal/domain\<close>: \<open>money.go\<close> is \<open>Money\<close> (an \<open>int64\<close> amount in the smallest unit, a 64-bit word here, and a currency), \<open>wallet.go\<close> is \<open>Wallet\<close>
    (a record, and \<open>Debit\<close> and \<open>Credit\<close> with every branch), \<open>transaction.go\<close> is \<open>Wager_Transaction\<close> (kinds, statuses, the validation, the transitions of
    the life cycle, the canonical payload and its hash). The errors of all packages are the datatype of \<open>Ledger_Errors\<close>.
  \<^item> \<open>internal/config\<close> is \<open>Config\<close>.
  \<^item> \<open>migrations/000001_init_schema.up.sql\<close> and \<open>internal/infrastructure/database/transaction_manager.go\<close> are \<open>Sql_Store\<close>: the tables as lists of
    rows with the column types, checks, unique and foreign keys of the schema, the session in which a transaction runs, and \<open>ExecuteInTransaction\<close>.
  \<^item> \<open>internal/infrastructure/repository\<close>: \<open>Wallet_Repository\<close>, \<open>Transaction_Repository\<close>, \<open>Messaging_Repository\<close>, one definition for each method, over the sessions of
    \<open>Sql_Store\<close>.
  \<^item> \<open>internal/usecase\<close>: \<open>Wager_Usecase\<close> (\<open>ProcessTransactionWithInbox\<close>, \<open>ResolvePendingReference\<close>), \<open>Open_Wallet_Usecase\<close>, \<open>Reconciliation_Usecase\<close>.
  \<^item> \<open>internal/infrastructure/transport\<close>: \<open>Outbox_Worker\<close>, \<open>Pending_Reference_Worker\<close>, \<open>Sqs_Worker\<close> (one tick, or one message, of each worker), \<open>Worker_Loop\<close> (\<open>Start\<close>
    and \<open>Stop\<close> of the three as a state machine with the events of all goroutines involved),
    \<open>Auth_Middleware\<close> (bearer tokens, the cache of the keys of the identity provider, base64), \<open>Http_Handler\<close> (every handler, the routes, the counters).
  \<^item> The parts of the Go library that the program uses are written out: \<open>Go_Strings\<close> (\<open>strings\<close>, \<open>strconv\<close>, \<open>fmt\<close>, \<open>unicode/utf8\<close>), \<open>Go_Json\<close> (\<open>json.Marshal\<close>),
    \<open>Go_Json_Decode\<close> (\<open>json.Unmarshal\<close> and \<open>Decoder.Decode\<close> into structs: escapes, surrogates and broken UTF-8, the grammar of numbers, the limit on nesting,
    field names compared as the library folds them, repeated fields, \<open>null\<close>), \<open>Sha256\<close> (\<open>crypto/sha256\<close> and \<open>%x\<close>), and the \<open>int64\<close> of \<open>Ledger_Prelude\<close>.
  \<^item> \<open>Service_Machine\<close> composes them: a step of the service is one database transaction of a use case or of the outbox worker with any input, and
    every handler and worker makes such steps and no others; \<open>reachable\<close> is what such steps reach from an empty database.
  \<^item> \<open>cmd/api/main.go\<close> and \<open>database/postgres.go\<close> are in \<open>Service_System\<close>: any number of processes on one database, each serving requests and running the three workers, whose
    batches are interleaved item by item with everything else; processes start, fail to start and end at any moment. \<open>Process_Lifecycle\<close> looks at one process
    from its constructors to its end: the hooks that start and stop the HTTP server (as the part of \<open>net/http\<close> that \<open>main\<close> uses), the workers and the pool.

  \<^bold>\<open>State, effects and errors.\<close> A transaction body is an \<open>action\<close>: it threads a \<open>session\<close> (the working copy of the database, whether a statement has failed, the
  number of statements and of readings of the clock) and returns an error or a value. What the program cannot foresee is in the record \<open>txenv\<close>: any
  statement may fail with any SQLSTATE, \<open>BEGIN\<close> or \<open>COMMIT\<close> may fail, a commit may succeed while its acknowledgement is lost, and the clock may show
  any time. Theorems quantify over it unless they name \<open>fault_free\<close>. After a failed statement PostgreSQL refuses every other one of the block with 25P02.

  \<^bold>\<open>The lemmas.\<close>
  \<^item> \<open>Store_Laws\<close>: the laws of sessions, the interface of a table with a unique key (locale \<open>keyed_table\<close>, interpreted for each of the nine unique constraints), and that
    of a body that keeps an invariant (locale \<open>invariant_body\<close>, interpreted in \<open>Ledger_Safety\<close> for the three transactions that write to the ledger).
  \<^item> \<open>Ledger_Invariant\<close> and \<open>Ledger_Safety\<close>: the books balance, statement by statement, then in every transaction.
  \<^item> \<open>History\<close>: what a transaction cannot do to the rows that are stored (locales \<open>frame\<close>, \<open>statement_frame\<close>, \<open>resolution_frame\<close> and their interpretations).
  \<^item> \<open>Wager_Effects\<close> and \<open>Resolve_Effects\<close>: specifications of the business rules without sessions or errors, which successful runs implement, and the view of the ledger as
    a balance for each account; \<open>Idempotency\<close>: what a repeated call answers; \<open>Error_Sources\<close>: an error that a worker waits for and never sees.
  \<^item> \<open>Payload_Laws\<close>, \<open>Json_Text\<close>, \<open>Json_Reading\<close>, \<open>Request_Laws\<close>, \<open>Base64_Laws\<close>: round trips and well-formedness of the texts that are hashed, stored and read.
  \<^item> \<open>Service_Guarantees\<close>: what the components promise together. \<open>Worker_Loop\<close> (locale \<open>worker_task\<close>, interpreted for each worker in \<open>Service_System\<close> and \<open>Delivery\<close>): when a loop ends, and
    what its events do to the shared state. \<open>Process_Lifecycle\<close> (locale \<open>hosted_worker\<close>, interpreted for each of the three): what is proved of a worker alone holds in the process, every
    event of a process is a step of the system or changes nothing, and the order of the hooks makes a stop graceful. \<open>Delivery\<close>: published events were sent, and
    attempts to publish an event are bounded. \<open>Reconciliation_Laws\<close>: what a reconciliation reports of two states of a run.
  \<^item> \<open>Progress\<close> and \<open>Resolution_Progress\<close>: total correctness. In an environment without faults a valid call succeeds with the verdict of the business rules, and a waiting reference is settled;
    what the columns need to hold the rows is in \<open>ready\<close> and \<open>resolvable\<close>, for the at most eight readings of the clock that a call makes (\<open>readings\<close>).
    \<open>Late_References\<close>: it does not matter for the accounts whether a refund comes before or after what it names, and what a refund is not compared with. \<open>Well_Formed\<close>: the types of the rows.
    \<open>Optimistic_Locking\<close>: versions count movements, so the version test of the update of a wallet is enough against lost updates.
  \<^item> \<open>Demo_Run\<close>, \<open>Demo_Requests\<close>, \<open>Demo_System\<close>, \<open>Demo_Progress\<close> and \<open>Demo_Shutdown\<close>: a concrete run (a wallet, a bet, a refund before and after its bet; the
    bet as a request and as a message; the life of a process), on which the theorems below are applied.

  \<^bold>\<open>Parameters.\<close> The record \<open>runtime\<close> holds the Unicode case tables beyond ASCII and the precision of a \<open>timestamptz\<close>; nothing is assumed of them. \<open>jwt_lib\<close> is what the program
  uses of \<open>golang-jwt\<close>, \<open>jwks_reply\<close> the answer of the identity provider (a status and the bytes of a body), \<open>first_of\<close> the entry that an iteration over a map meets first (assumed to be one of them),
  the argument \<open>refuses\<close> and its like the answers of SQS, \<open>driver_text\<close> and \<open>json_error_text\<close> the error texts of \<open>pgx\<close> and of \<open>encoding/json\<close>.
  Nothing runs on fuel: every recursion is on a list or has a measure. The loops of the workers, which run until they are stopped, are step relations.

  \<^bold>\<open>Bounds.\<close> Amounts, versions and counters wrap at 64 bits where the code lets them; \<open>VARCHAR(n)\<close> columns count characters, cut blanks beyond \<open>n\<close> and refuse anything else.

  \<^bold>\<open>Not modelled.\<close> \<open>fx\<close> itself (a run of a process may call the hooks in any order; the order that \<open>fx\<close> documents is the hypothesis \<open>fx_order\<close>), the connections of the HTTP server,
  the set-up of the AWS client, constructors that only store their arguments, the length of time limits (a stop hook may run into its deadline at any moment), logging, and the interleaving of two database transactions statement by statement: a step of the service is
  a whole transaction, which the row locks of the source (\<open>FOR UPDATE\<close> on the wallet), the version test (\<open>Optimistic_Locking\<close>) and the unique keys make a fair picture of committed runs; the
  conflicts that another transaction can cause appear as statement faults. Tests, Docker files and scripts are not part of the program.
\<close>

section \<open>The ledger\<close>

text \<open>
  C1. In every reachable state the balance of every wallet is not negative and is the sum of its credits less the sum
  of its debits in the ledger, whatever the inputs were and whichever statements and commits have failed.
\<close>

theorem ledger_consistent:
  assumes "reachable R cfg d" "r \<in> set (wallets d)"
  shows "0 \<le> sint (w_amount r) \<and> sint (w_amount r) = ledger_balance (w_id r) d"
  using reachable_ledger [OF assms(1)] assms(2) by (auto simp: ledger_inv_def books_def balance_inv_def)

theorem ledger_consistent_witness:
  "0 \<le> sint (w_amount (demo_wallet 12000 3 3001))
   \<and> sint (w_amount (demo_wallet 12000 3 3001)) = ledger_balance (w_id (demo_wallet 12000 3 3001)) demo3"
  by (rule ledger_consistent [OF demo3_reachable]) (simp add: demo3_def)

text \<open>
  C2. In every reachable state each processed transaction other than a loss has exactly one ledger entry.
\<close>

theorem one_entry_per_movement:
  assumes "reachable R cfg d" "t \<in> set (wager_transactions d)" "moves_money t"
  shows "\<exists>!l. l \<in> set (wallet_ledger_entries d) \<and> l_transaction_id l = t_id t"
  using reachable_ledger [OF assms(1)] assms(2,3) by (rule one_entry)

theorem one_entry_per_movement_witness:
  "\<exists>!l. l \<in> set (wallet_ledger_entries demo2) \<and> l_transaction_id l = t_id (tx_row_of demo_R demo_bet None)"
  by (rule one_entry_per_movement [OF demo2_reachable])
    (simp_all add: demo2_def moves_money_def tx_row_of_def demo_bet_def demo_stored_def demo_wager_def status_defs kind_defs)

text \<open>
  C3. In every reachable state each ledger entry belongs to a stored, processed transaction with its wallet and amount; its amount
  is positive and the balance after it is the balance before it plus or minus the amount, and never negative.
\<close>

theorem entries_are_justified:
  assumes "reachable R cfg d" "l \<in> set (wallet_ledger_entries d)"
  shows "(\<exists>t \<in> set (wager_transactions d). records l t) \<and> 0 < sint (l_amount l) \<and> 0 \<le> sint (l_balance_after l)
     \<and> sint (l_balance_after l) = sint (l_balance_before l) + signed_amount l"
  using reachable_ledger [OF assms(1)] assms(2) by (rule entry_records) blast

theorem entries_are_justified_witness:
  "let l = demo_entry ''tx_pp_f1'' ''CREDIT'' 5000 7000 12000 3003 in
   (\<exists>t \<in> set (wager_transactions demo3). records l t) \<and> 0 < sint (l_amount l) \<and> 0 \<le> sint (l_balance_after l)
     \<and> sint (l_balance_after l) = sint (l_balance_before l) + signed_amount l"
  unfolding Let_def by (rule entries_are_justified [OF demo3_reachable]) (simp add: demo3_def)

section \<open>Processing a wager\<close>

text \<open>
  C4. What a successful call has done, on every branch: the input was valid, the message (if any) is now in the inbox, and
  either the transaction was stored before, with the same payload, and nothing else changed (a replay), or the database
  has exactly the new rows and the new balance that its kind calls for. The events carry the payload \<open>{}\<close> for a
  transaction.
\<close>

theorem call_outcome:
  assumes "ProcessTransactionWithInbox R cfg X input inbox d = (Inr out, d')"
  shows "\<exists>t d1. prepare_wager R cfg (clock X 0) input = Inr t \<and> claims_message inbox d d1 \<and> call_effect R X input t out d1 d'"
  by (rule ProcessTransactionWithInbox_effect [OF assms])

theorem call_outcome_witness:
  "\<exists>t d1. prepare_wager demo_R demo_cfg (clock (demo_X 2000) 0) (demo_input ''b1'' ''BET'' ''30.00'' '''') = Inr t
     \<and> claims_message (Some demo_claim) demo1 d1
     \<and> call_effect demo_R (demo_X 2000) (demo_input ''b1'' ''BET'' ''30.00'' '''') t
          \<lparr>out_TransactionID = ''tx_pp_b1'', out_Status = ''PROCESSED'',
           out_Balance = \<lparr>dto_Amount = ''70.00'', dto_Currency = ''BRL''\<rparr>, out_IdempotentReplay = False\<rparr> d1 demo_claimed"
  by (rule call_outcome [OF demo_claimed_run])

text \<open>
  C5. Refinement: seen through the balances of the accounts, a successful call is one addition to the account of its wallet, of
  the parsed amount with the sign of its kind, when it has processed a new transaction, and the identity otherwise
  (replay, rejection, pending reference, loss).
\<close>

theorem call_refines_accounts:
  assumes "ProcessTransactionWithInbox R cfg X input inbox d = (Inr out, d')"
  shows "\<exists>m. NewMoneyFromString R (in_Amount input) (in_Currency input) = Inr m
     \<and> accounts d' = account_step input (cents m) out (accounts d)"
  using assms by (rule call_accounts) blast

theorem call_refines_accounts_witness:
  "\<exists>m. NewMoneyFromString demo_R ''30.00'' ''BRL'' = Inr m
     \<and> accounts demo2 = account_step (demo_input ''b1'' ''BET'' ''30.00'' '''') (cents m)
          \<lparr>out_TransactionID = ''tx_pp_b1'', out_Status = ''PROCESSED'',
           out_Balance = \<lparr>dto_Amount = ''70.00'', dto_Currency = ''BRL''\<rparr>, out_IdempotentReplay = False\<rparr> (accounts demo1)"
  using call_refines_accounts [OF demo_bet_run [unfolded ProcessTransaction_def]] by (simp add: demo_input_def)

text \<open>
  C6. Idempotency: once a call has processed a transaction, the same input, at any later time and whatever the service has
  done in between, is answered with the same transaction as a replay and changes nothing (for identifiers that fit their
  columns, and in an environment without faults).
\<close>

theorem replayed_for_ever:
  assumes "reachable R cfg d" "ProcessTransaction R cfg X input d = (Inr out, d1)" "\<not> out_IdempotentReplay out"
    "service_run R cfg d1 d2" "fault_free X2" "uncut input"
  shows "\<exists>out2. ProcessTransaction R cfg X2 input d2 = (Inr out2, d2)
     \<and> out_TransactionID out2 = out_TransactionID out \<and> out_IdempotentReplay out2"
proof -
  have inv: "ledger_inv d" using assms(1) by (rule reachable_ledger)
  have "service_run R cfg d d1" using assms(2) unfolding ProcessTransaction_def by (rule run_step [OF wager_step])
  then have "ledger_inv d1" using inv by (rule run_ledger)
  then have "ledger_inv d2" using run_ledger [OF assms(4)] by simp
  then show ?thesis by (rule replayed_later [OF assms(2,3) inv run_history [OF assms(4)] _ assms(5,6)])
qed

theorem replayed_for_ever_witness:
  "\<exists>out2. ProcessTransaction demo_R demo_cfg (demo_X 9000) (demo_input ''b1'' ''BET'' ''30.00'' '''') demo3 = (Inr out2, demo3)
     \<and> out_TransactionID out2 = ''tx_pp_b1'' \<and> out_IdempotentReplay out2"
proof -
  have "uncut (demo_input ''b1'' ''BET'' ''30.00'' '''')"
    by (simp add: uncut_def demo_input_def internal_tx_id_def graphic_pg_short graphic_columns is_graphic_def byte_val_def)
  from replayed_for_ever [OF demo1_reachable demo_bet_run _ demo3_run demo_fault_free this]
  show ?thesis by simp
qed

text \<open>
  C7. A key or an external identifier that is used again with another payload is answered with \<open>ErrTransactionConflict\<close>, and
  the database is left alone.
\<close>

theorem reuse_conflicts:
  assumes "fault_free X" "prepare_wager R cfg (clock X 0) input = Inr t"
    "pg_text (in_ProviderID input)" "pg_text (in_ExternalTransactionID input)" "pg_text (in_IdempotencyKey input)"
    "existing_for input d = Some x" "t_payload_hash x \<noteq> payloadHash t"
  shows "ProcessTransaction R cfg X input d = (Inl ErrTransactionConflict, d)"
  by (rule conflict_run [OF assms])

text \<open>The digest of the stored payload is not one that the input can have.\<close>

definition demo_foreign :: database where
  "demo_foreign = demo1\<lparr>wager_transactions := [demo_opening_row, (tx_row_of demo_R demo_bet None)\<lparr>t_payload_hash := ''0''\<rparr>]\<rparr>"

theorem reuse_conflicts_witness:
  "ProcessTransaction demo_R demo_cfg (demo_X 9000) (demo_input ''b1'' ''BET'' ''30.00'' '''') demo_foreign
     = (Inl ErrTransactionConflict, demo_foreign)"
proof -
  let ?w = "demo_wager ''b1'' ''BET'' 3000 '''' 9000" and ?row = "(tx_row_of demo_R demo_bet None)\<lparr>t_payload_hash := ''0''\<rparr>"
  have p: "prepare_wager demo_R demo_cfg (clock (demo_X 9000) 0) (demo_input ''b1'' ''BET'' ''30.00'' '''')
      = Inr (?w\<lparr>payloadHash := sha256_hex (canonicalJSON ?w)\<rparr>)"
    by (simp add: demo_eval process_eval demo2_eval)
  have x: "existing_for (demo_input ''b1'' ''BET'' ''30.00'' '''') demo_foreign = Some ?row"
    by (simp add: existing_for_def demo_foreign_def demo_eval demo2_eval)
  have "''0'' \<noteq> sha256_hex (canonicalJSON ?w)"
  proof
    assume "''0'' = sha256_hex (canonicalJSON ?w)"
    then have "length ''0'' = length (sha256_hex (canonicalJSON ?w))" by (rule arg_cong)
    then show False by simp
  qed
  then have "t_payload_hash ?row \<noteq> payloadHash (?w\<lparr>payloadHash := sha256_hex (canonicalJSON ?w)\<rparr>)" by simp
  with demo_fault_free p _ _ _ x show ?thesis
    by (rule reuse_conflicts) (simp_all add: demo_input_def graphic_columns is_graphic_def byte_val_def)
qed

text \<open>
  C8. Atomicity: a use case that returns an error has changed nothing, whichever statement failed; the one exception is a commit
  whose acknowledgement was lost.
\<close>

theorem errors_change_nothing:
  assumes "\<forall>c. commit_outcome X \<noteq> CommitLost c"
  shows "(ProcessTransactionWithInbox R cfg X input inbox d = (Inl e, d') \<longrightarrow> d' = d)
    \<and> (OpenWallet_Execute R cfg X ow d = (Inl e, d') \<longrightarrow> d' = d)
    \<and> (ResolvePendingReference R X i d = (Inl e, d') \<longrightarrow> d' = d)"
  by (intro conjI impI)
    (rule ProcessTransactionWithInbox_Inl OpenWallet_Inl ResolvePendingReference_Inl; use assms in simp)+

text \<open>The sixth statement of a bet, the insertion of its ledger entry, meets a deadlock.\<close>

definition demo_deadlock :: txenv where
  "demo_deadlock = (demo_X 2000)\<lparr>stmt_fault := (\<lambda>n. if n = 5 then Some ''40P01'' else None)\<rparr>"

lemma demo_deadlock_run:
  "\<exists>d'. ProcessTransactionWithInbox demo_R demo_cfg demo_deadlock (demo_input ''b1'' ''BET'' ''30.00'' '''') None demo1 =
     (Inl (Wrapped ''failed to save ledger entry: '' (PgError ''40P01'')), d')"
  by (simp add: demo_deadlock_def demo_eval process_eval demo2_eval cong: lazy_cong)

theorem errors_change_nothing_witness:
  "ProcessTransactionWithInbox demo_R demo_cfg demo_deadlock (demo_input ''b1'' ''BET'' ''30.00'' '''') None demo1 =
     (Inl (Wrapped ''failed to save ledger entry: '' (PgError ''40P01'')), demo1)"
proof -
  have "\<forall>c. commit_outcome demo_deadlock \<noteq> CommitLost c" by (simp add: demo_deadlock_def demo_X_def)
  from conjunct1 [OF errors_change_nothing [OF this]] demo_deadlock_run show ?thesis by metis
qed

section \<open>What is never lost\<close>

text \<open>
  C9. Append-only: along any run of the service the ledger entries and the inbox only grow at the end, and no transaction, wallet
  or event disappears or changes its identity (for a transaction: keys, payload hash, wallet, amount and kind).
\<close>

theorem nothing_is_rewritten:
  assumes "service_run R cfg d d'"
  shows "prefix (wallet_ledger_entries d) (wallet_ledger_entries d')
     \<and> prefix (inbox_messages d) (inbox_messages d')
     \<and> prefix (map tx_identity (wager_transactions d)) (map tx_identity (wager_transactions d'))
     \<and> prefix (map wallet_identity (wallets d)) (map wallet_identity (wallets d'))
     \<and> prefix (map event_identity (outbox_events d)) (map event_identity (outbox_events d'))"
  using run_history [OF assms] by (simp only: history_def)

theorem nothing_is_rewritten_witness:
  "prefix (wallet_ledger_entries demo2) (wallet_ledger_entries demo3)
     \<and> prefix (inbox_messages demo2) (inbox_messages demo3)
     \<and> prefix (map tx_identity (wager_transactions demo2)) (map tx_identity (wager_transactions demo3))
     \<and> prefix (map wallet_identity (wallets demo2)) (map wallet_identity (wallets demo3))
     \<and> prefix (map event_identity (outbox_events demo2)) (map event_identity (outbox_events demo3))"
  by (rule nothing_is_rewritten [OF demo3_run])

text \<open>
  C10. Final states: a stored transaction that is not waiting for its reference is never changed again, in any column.
\<close>

theorem settled_is_final:
  assumes "reachable R cfg d" "service_run R cfg d d'" "t \<in> set (wager_transactions d)" "t_status t \<noteq> StatusPendingReference"
  shows "t \<in> set (wager_transactions d')"
  by (rule run_final [OF assms(2) reachable_ledger [OF assms(1)] assms(3,4)])

theorem settled_is_final_witness: "tx_row_of demo_R demo_bet None \<in> set (wager_transactions demo3)"
  by (rule settled_is_final [OF demo2_reachable demo3_run])
    (simp_all add: demo2_def tx_row_of_def demo_bet_def demo_stored_def status_defs)

text \<open>
  C11. In every reachable state the keys are keys: no two wallets share an identifier or a player and currency, no two
  transactions an identifier, a provider and external identifier, or an idempotency key, no two ledger entries an identifier, no two entries of a wallet a
  transaction, no two rows of the inbox a consumer and message, no two events an identifier.
\<close>

theorem keys_are_unique:
  assumes "reachable R cfg d"
  shows "distinct (map w_id (wallets d)) \<and> distinct (map owner_key (wallets d))
     \<and> distinct (map t_id (wager_transactions d)) \<and> distinct (map external_key (wager_transactions d))
     \<and> distinct (map t_idempotency_key (wager_transactions d)) \<and> distinct (map l_id (wallet_ledger_entries d))
     \<and> distinct (map ledger_key (wallet_ledger_entries d))
     \<and> distinct (map inbox_key (inbox_messages d)) \<and> distinct (map o_id (outbox_events d))"
  using reachable_ledger [OF assms] reachable_ids [OF assms]
  by (simp add: ledger_inv_def books_def keys_inv_def unique_defs outbox_tab.unique_def inbox_tab.unique_def)

theorem keys_are_unique_witness:
  "distinct (map w_id (wallets demo3)) \<and> distinct (map owner_key (wallets demo3))
     \<and> distinct (map t_id (wager_transactions demo3)) \<and> distinct (map external_key (wager_transactions demo3))
     \<and> distinct (map t_idempotency_key (wager_transactions demo3)) \<and> distinct (map l_id (wallet_ledger_entries demo3))
     \<and> distinct (map ledger_key (wallet_ledger_entries demo3))
     \<and> distinct (map inbox_key (inbox_messages demo3)) \<and> distinct (map o_id (outbox_events demo3))"
  by (rule keys_are_unique [OF demo3_reachable])

text \<open>
  C12. The internal identifier \<open>tx_<provider>_<external id>\<close> is not injective. When another transaction holds it, a new
  transaction of the provider is refused in every environment, with an error, for ever.
\<close>

theorem colliding_identifier_refused:
  assumes "reachable R cfg d" "r \<in> set (wager_transactions d)" "t_id r = pg_trunc 64 (internal_tx_id input)"
    "existing_for input d = None" "ProcessTransaction R cfg X input d = (res, d')"
  shows "d' = d \<and> (\<exists>e. res = Inl e)"
  by (rule taken_id_refused [OF reachable_ledger [OF assms(1)] assms(2-5)])

text \<open>The provider \<open>pp_x\<close> sends \<open>1\<close> after the provider \<open>pp\<close> has sent \<open>x_1\<close>.\<close>

definition demo_collision :: input_dto where
  "demo_collision = (demo_input ''1'' ''BET'' ''1.00'' '''')\<lparr>in_ProviderID := ''pp_x''\<rparr>"

lemma demo_x1_run:
  "\<exists>out d'. ProcessTransaction demo_R demo_cfg (demo_X 2000) (demo_input ''x_1'' ''LOSS'' ''0.00'' '''') demo1 = (Inr out, d')
     \<and> (\<exists>r \<in> set (wager_transactions d'). t_id r = ''tx_pp_x_1'') \<and> existing_for demo_collision d' = None"
  by (simp add: demo_eval process_eval demo2_eval existing_for_def demo_collision_def cong: lazy_cong)

theorem colliding_identifier_refused_witness:
  "\<exists>d r. reachable demo_R demo_cfg d \<and> t_id r = ''tx_pp_x_1'' \<and> r \<in> set (wager_transactions d)
     \<and> (\<forall>X. \<exists>e. ProcessTransaction demo_R demo_cfg X demo_collision d = (Inl e, d))"
proof -
  obtain out d' r where run: "ProcessTransaction demo_R demo_cfg (demo_X 2000) (demo_input ''x_1'' ''LOSS'' ''0.00'' '''') demo1 = (Inr out, d')"
    and r: "r \<in> set (wager_transactions d')" "t_id r = ''tx_pp_x_1''" and new: "existing_for demo_collision d' = None"
    using demo_x1_run by blast
  have reach: "reachable demo_R demo_cfg d'"
    using run unfolding ProcessTransaction_def by (rule reachable_run [OF demo1_reachable run_step [OF wager_step]])
  have i: "t_id r = pg_trunc 64 (internal_tx_id demo_collision)"
    using r(2) by (simp add: demo_collision_def internal_tx_id_def demo_input_def graphic_columns is_graphic_def byte_val_def)
  have "\<exists>e. ProcessTransaction demo_R demo_cfg X demo_collision d' = (Inl e, d')" for X
    using colliding_identifier_refused [OF reach r(1) i new, of X] by (metis prod.collapse)
  with reach r show ?thesis by blast
qed

section \<open>Reconciliation, resolution, opening\<close>

text \<open>
  C13. A reconciliation of a reachable state, when it answers, reports the wallet as consistent: the stored and the
  calculated balance are the same and the difference is zero.
\<close>

theorem reconciliation_reports_consistent:
  assumes "reachable R cfg d" "Reconciliation_Execute R repo X i d d = Inr out"
  shows "ro_Consistent out \<and> ro_StoredBalance out = ro_CalculatedBalance out"
proof -
  have inv: "ledger_inv d" using assms(1) by (rule reachable_ledger)
  have "0 \<le> sint (l_amount l)" if "l \<in> set (entries_of i d)" for l
    by (rule entry_records [OF inv, of l]) (use that in \<open>auto simp: entries_of_def\<close>)
  then obtain r where r: "wallet_by_id i d = Some r" "ro_Consistent out \<longleftrightarrow> sint (w_amount r) = ledger_balance i d"
    using Reconciliation_consistent_iff [OF assms(2)] by blast
  have "r \<in> set (wallets d)" "w_id r = i" using r(1) by (auto simp: wallet_by_id_def dest: find_SomeD)
  then have "ro_Consistent out" using r(2) inv by (auto simp: ledger_inv_def books_def balance_inv_def)
  then show ?thesis using assms(2) by (auto simp: Reconciliation_Inr Let_def)
qed

lemmas reconciliation_eval =
  Reconciliation_Execute_def FindByID_def CalculateLedgerBalance_def pool_query_def entries_of_def total_def
  RehydrateWallet_def

lemma demo_reconciled:
  "Reconciliation_Execute demo_R (Some live_tx) (demo_X 0) ''wal_p1_brl'' demo3 demo3 =
     Inr \<lparr>ro_WalletID = ''wal_p1_brl'', ro_StoredBalance = \<lparr>dto_Amount = ''120.00'', dto_Currency = ''BRL''\<rparr>,
          ro_CalculatedBalance = \<lparr>dto_Amount = ''120.00'', dto_Currency = ''BRL''\<rparr>,
          ro_Difference = \<lparr>dto_Amount = ''0.00'', dto_Currency = ''BRL''\<rparr>, ro_Consistent = True, ro_CheckedEntries = 3\<rparr>"
  by (simp add: demo_eval reconciliation_eval demo2_eval demo3_def)

theorem reconciliation_reports_consistent_witness:
  "\<exists>out. Reconciliation_Execute demo_R (Some live_tx) (demo_X 0) ''wal_p1_brl'' demo3 demo3 = Inr out
     \<and> ro_Consistent out \<and> ro_StoredBalance out = ro_CalculatedBalance out"
  using demo_reconciled reconciliation_reports_consistent [OF demo3_reachable demo_reconciled] by blast

text \<open>
  C14. A reconciliation reads the wallet and the ledger in two statements. When \<open>d1\<close> is the state of the first and \<open>d2\<close>, reached from it by any run, that of the
  second, the report shows the balance of the wallet in \<open>d1\<close> as the stored one, its balance in \<open>d2\<close> as the calculated one, their exact difference, and says that the wallet is
  consistent if and only if the two balances are the same. So, although the books are in order in both states, every net movement of money between the two reads is
  reported as an inconsistency of its amount, and nothing else ever is.
\<close>

theorem reconciliation_reports_the_difference:
  assumes "reachable R cfg d1" "service_run R cfg d1 d2" "Reconciliation_Execute R repo X i d1 d2 = Inr out"
  shows "\<exists>q1 q2 m. wallet_by_id i d1 = Some q1 \<and> wallet_by_id i d2 = Some q2
     \<and> ro_StoredBalance out = shown_balance R q1 \<and> ro_CalculatedBalance out = shown_balance R q2
     \<and> ro_Difference out = money_shown m \<and> cents m = sint (w_amount q1) - sint (w_amount q2)
     \<and> (ro_Consistent out \<longleftrightarrow> w_amount q1 = w_amount q2) \<and> ro_CheckedEntries out = of_nat (length (entries_of i d2))"
  using assms by (rule reconciled_snapshots) blast

text \<open>With a bet of 30.00 committed between the two reads.\<close>

definition demo_report :: reconciliation_output where
  "demo_report = \<lparr>ro_WalletID = ''wal_p1_brl'', ro_StoredBalance = \<lparr>dto_Amount = ''100.00'', dto_Currency = ''BRL''\<rparr>,
     ro_CalculatedBalance = \<lparr>dto_Amount = ''70.00'', dto_Currency = ''BRL''\<rparr>,
     ro_Difference = \<lparr>dto_Amount = ''30.00'', dto_Currency = ''BRL''\<rparr>, ro_Consistent = False, ro_CheckedEntries = 2\<rparr>"

lemma demo_reported:
  "Reconciliation_Execute demo_R (Some live_tx) (demo_X 0) ''wal_p1_brl'' demo1 demo2 = Inr demo_report"
  by (simp add: demo_eval reconciliation_eval demo2_eval demo_report_def)

theorem reconciliation_reports_the_difference_witness:
  "\<exists>q1 q2 m. wallet_by_id ''wal_p1_brl'' demo1 = Some q1 \<and> wallet_by_id ''wal_p1_brl'' demo2 = Some q2
     \<and> ro_StoredBalance demo_report = shown_balance demo_R q1 \<and> ro_CalculatedBalance demo_report = shown_balance demo_R q2
     \<and> ro_Difference demo_report = money_shown m \<and> cents m = sint (w_amount q1) - sint (w_amount q2)
     \<and> (ro_Consistent demo_report \<longleftrightarrow> w_amount q1 = w_amount q2)
     \<and> ro_CheckedEntries demo_report = of_nat (length (entries_of ''wal_p1_brl'' demo2))"
  by (rule reconciliation_reports_the_difference [OF demo1_reachable demo2_run demo_reported])

text \<open>
  C15. What the resolution of a pending reference has done when it succeeds, with its readings of the clock: nothing for a transaction that is not
  waiting; when the reference is still unknown, the next retry five seconds after the reading of the clock; when the reference was not processed, the
  rejection with its code and no retry; otherwise the credit of the wallet, its entry, the status with no retry, and the two events, the second with the amount, the
  balances before and after and the new version.
\<close>

theorem resolution_outcome:
  assumes "ResolvePendingReference R X i d = (Inr u, d')"
  shows "resolve_effect R (clock X) i d d'"
  by (rule ResolvePendingReference_effect [OF assms])

theorem resolution_outcome_witness: "resolve_effect demo_R (clock (demo_X 3000)) ''tx_pp_f1'' demo_parked_bet demo_resolved"
  by (rule resolution_outcome [OF demo_resolve_run])

text \<open>
  C16. What opening a wallet has done when it succeeds: one wallet with the parsed balance and version 1, and, unless the balance is
  zero, its opening transaction, the first entry and the two events.
\<close>

theorem opening_outcome:
  assumes "OpenWallet_Execute R cfg X input d = (Inr out, d')"
  shows "\<exists>w. open_effect R w d d' \<and> wid w = wallet_id_for R input \<and> playerID w = ow_PlayerID input \<and> version w = 1
     \<and> NewMoneyFromString R (ow_InitialAmount input) (ow_InitialCurrency input) = Inr (balance w)
     \<and> out = \<lparr>owo_ID = wid w, owo_PlayerID = playerID w,
              owo_Balance = \<lparr>dto_Amount = money_string (balance w), dto_Currency = currency (balance w)\<rparr>,
              owo_Version = version w\<rparr>"
  by (rule OpenWallet_effect [OF assms])

theorem opening_outcome_witness:
  "\<exists>w. open_effect demo_R w empty_database demo1 \<and> wid w = ''wal_p1_brl'' \<and> playerID w = ''p1'' \<and> version w = 1"
proof -
  obtain w where "open_effect demo_R w empty_database demo1" "playerID w = ow_PlayerID demo_open" "version w = 1"
    "\<lparr>owo_ID = ''wal_p1_brl'', owo_PlayerID = ''p1'', owo_Balance = \<lparr>dto_Amount = ''100.00'', dto_Currency = ''BRL''\<rparr>, owo_Version = 1\<rparr>
     = \<lparr>owo_ID = wid w, owo_PlayerID = playerID w,
        owo_Balance = \<lparr>dto_Amount = money_string (balance w), dto_Currency = currency (balance w)\<rparr>, owo_Version = version w\<rparr>"
    using opening_outcome [OF demo_opened] by blast
  then show ?thesis by (intro exI [of _ w]) (simp add: demo_open_def)
qed

text \<open>
  C17. The amount of a refund is compared with nothing but the range of an \<open>int64\<close>. In an environment without faults, a valid refund or rollback (\<open>ready\<close>: identifiers that fit and are new, the
  currency of the wallet) that names a processed transaction is processed and credited in full whenever the new balance fits, whatever the kind, the amount and
  the wallet of the transaction \<open>x\<close> that it names, and however often \<open>x\<close> was refunded before; and \<open>x\<close> is found unchanged afterwards, for the next refund.
\<close>

theorem refund_amount_is_unchecked:
  assumes "ready R cfg X input t q d" "claims_message inbox d d1" "kind t \<in> {KindRefund, KindRollback}"
    and "tx_by_external (providerID t) (referenceExternalID t) d = Some x" "t_status x = StatusProcessed"
    and "in_int64 (sint (w_amount q) + cents (wmoney t))"
  shows "\<exists>out d'. ProcessTransactionWithInbox R cfg X input inbox d = (Inr out, d') \<and> out_Status out = StatusProcessed
     \<and> accounts d' = (accounts d)(in_WalletID input \<mapsto> sint (w_amount q) + cents (wmoney t))
     \<and> tx_by_external (providerID t) (referenceExternalID t) d' = Some x"
  using assms by (rule refund_credits) blast

text \<open>A bet of 30.00 from a balance of 100.00, and a refund of 50.00 for it.\<close>

theorem refund_amount_is_unchecked_witness:
  "\<exists>out d'. ProcessTransactionWithInbox demo_R demo_cfg (demo_X 3000) (demo_input ''f1'' ''REFUND'' ''50.00'' ''b1'') None demo2 = (Inr out, d')
     \<and> out_Status out = ''PROCESSED'' \<and> accounts d' = (accounts demo2)(''wal_p1_brl'' \<mapsto> 12000)
     \<and> tx_by_external ''pp'' ''b1'' d' = Some (tx_row_of demo_R demo_bet None)"
proof -
  let ?x = "tx_row_of demo_R demo_bet None"
  have f: "kind demo_excess = ''REFUND''" "providerID demo_excess = ''pp''" "referenceExternalID demo_excess = ''b1''"
    "cents (wmoney demo_excess) = 5000"
    by (simp_all add: demo_excess_def demo_wager_def cents_def)
  have "tx_by_external ''pp'' ''b1'' demo2 = Some ?x" "t_status ?x = StatusProcessed"
    by (simp_all add: demo_eval demo2_eval tx_by_external_def external_key_def)
  moreover have "claims_message None demo2 demo2" by (simp add: claims_message_def)
  moreover have "sint (w_amount (demo_wallet 7000 2 2001)) = 7000" by (simp add: demo_wallet_def)
  ultimately show ?thesis
    using refund_amount_is_unchecked [OF demo_excess_ready, of None demo2 ?x] f
    by (simp add: kind_defs status_defs in_int64_def demo_input_def)
qed

section \<open>Messages and events\<close>

text \<open>
  C18. At most once: a message that the inbox holds is never processed again; the call returns an error in every
  environment and changes nothing. (So the branch of the source that answers it as a replay is never taken: the failed insertion has
  aborted the database transaction that the branch reads in.)
\<close>

theorem message_at_most_once:
  assumes "inbox_tab.lookup (pg_trunc 100 (ConsumerName c), pg_trunc 64 (MessageID c)) d = Some m"
  shows "\<exists>e. ProcessTransactionWithInbox R cfg X input (Some c) d = (Inl e, d)"
  by (rule inbox_duplicate_fails [OF assms])

theorem message_at_most_once_witness:
  "\<exists>e. ProcessTransactionWithInbox demo_R demo_cfg (demo_X 9000) (demo_input ''b1'' ''BET'' ''30.00'' '''') (Some demo_claim) demo_claimed
     = (Inl e, demo_claimed)"
  by (rule message_at_most_once) (simp add: demo_claim_def demo_message_known)

text \<open>
  C19. A message that is delivered again after its transaction was committed is neither answered nor deleted: the worker counts
  an error and leaves it in the queue, in every environment, so it comes back until the queue gives it up.
\<close>

theorem redelivery_is_never_deleted:
  assumes "MsgBody m = Some body" "unmarshal_envelope body = Some envelope"
    "inbox_tab.lookup (pg_trunc 100 ''sqs_wager_consumer'', pg_trunc 64 (message_id m envelope)) d = Some row"
  shows "processSQSEnvelope R cfg rd X m c d = (Inr (add_sqs_error c), d)"
  by (rule redelivered_kept [OF assms])

theorem redelivery_is_never_deleted_witness:
  "processSQSEnvelope demo_R demo_cfg (\<lambda>n. False) (demo_X 9000) demo_message demo_consumer demo_claimed
     = (Inr (add_sqs_error demo_consumer), demo_claimed)"
  by (rule redelivery_is_never_deleted [OF _ demo_message_read])
    (simp_all add: demo_message_def message_id_def demo_message_known)

text \<open>
  C20. A message is deleted from the queue only after the transaction that it carries was committed: a deletion implies that the use case
  has returned without an error, and the database is the one it committed.
\<close>

theorem deletion_after_commit:
  assumes "processSQSEnvelope R cfg rd X m c d = (Inr c', d')" "deletions c' \<noteq> deletions c"
  shows "\<exists>body envelope out. MsgBody m = Some body \<and> unmarshal_envelope body = Some envelope
     \<and> ProcessTransactionWithInbox R cfg X (envelope_input envelope) (Some (sqs_claim m body envelope)) d = (Inr out, d')"
  using assms by (rule deleted_committed) blast

theorem deletion_after_commit_witness:
  "\<exists>c' d'. processSQSEnvelope demo_R demo_cfg (\<lambda>n. False) (demo_X 2000) demo_message demo_consumer demo1 = (Inr c', d')
     \<and> deletions c' = [Some ''r1''] \<and> d' = demo_claimed
     \<and> (\<exists>body envelope out. MsgBody demo_message = Some body \<and> unmarshal_envelope body = Some envelope
          \<and> ProcessTransactionWithInbox demo_R demo_cfg (demo_X 2000) (envelope_input envelope)
               (Some (sqs_claim demo_message body envelope)) demo1 = (Inr out, d'))"
proof -
  let ?c = "deleteMessage (\<lambda>n. False) demo_message (add_processed demo_consumer)"
  have del: "deletions ?c = [Some ''r1'']" by (simp add: demo_consumer_def demo_message_def)
  then have "deletions ?c \<noteq> deletions demo_consumer" by (simp add: demo_consumer_def)
  from deletion_after_commit [OF demo_message_run this] demo_message_run del show ?thesis by blast
qed




text \<open>
  C22. An event that the database shows as published was handed to the queue, with its payload, and this stays true along every run of the system, with any
  number of processes, whatever fails and whenever a process ends. (A message may be sent more than once: when the commit after it fails.)
\<close>

theorem published_was_sent:
  assumes "reachable R cfg (system_db \<sigma>)" "delivered cfg (sys_world \<sigma>)" "system_run R cfg H J \<sigma> \<sigma>'"
    "e \<in> set (outbox_events (system_db \<sigma>'))" "o_status e = ''PUBLISHED''"
  shows "sent_of cfg e \<in> set (world_sent (sys_world \<sigma>'))"
  using run_delivered [OF assms(3,1,2)] assms(4,5) by (simp add: delivered_def)

theorem published_was_sent_witness:
  "sent_of demo_cfg (publish_row 5001 (hd (outbox_events demo1))) \<in> set (world_sent (sys_world demo_published_system))"
proof (rule published_was_sent [OF _ _ demo_system_run])
  show "reachable demo_R demo_cfg (system_db (demo_system demo1 [] [] demo_process))"
    using demo1_reachable by (simp add: demo_system_def)
  show "delivered demo_cfg (sys_world (demo_system demo1 [] [] demo_process))"
    by (simp add: delivered_def demo_system_def demo1_eval)
  show "publish_row 5001 (hd (outbox_events demo1)) \<in> set (outbox_events (system_db demo_published_system))"
    by (simp add: demo_published_system_def demo_system_def demo_published_def demo1_def)
  show "o_status (publish_row 5001 (hd (outbox_events demo1))) = ''PUBLISHED''" by (simp add: publish_row_def)
qed

section \<open>Requests\<close>

text \<open>
  C23. Isolation of providers: whatever a request to process a wager is answered, every transaction that it adds to the ledger is stored
  under the provider of the token it came with.
\<close>

theorem provider_isolation:
  assumes "handleProcessTransaction R cfg H X (Some provider) r c d = (resp, c', d')"
    "t \<in> set (wager_transactions d')" "t \<notin> set (wager_transactions d)"
  shows "t_provider_id t = pg_trunc 64 provider"
  by (rule handleProcess_adds [OF assms])

theorem provider_isolation_witness:
  "tx_row_of demo_R demo_bet None \<in> set (wager_transactions demo2) \<and> t_provider_id (tx_row_of demo_R demo_bet None) = pg_trunc 64 ''pp''"
proof -
  obtain resp c' where run: "handleProcessTransaction demo_R demo_cfg demo_http (demo_X 2000) (Some ''pp'') demo_request
      (consumer_counters demo_consumer) demo1 = (resp, c', demo2)" using demo_handled by blast
  have "tx_row_of demo_R demo_bet None \<in> set (wager_transactions demo2)" by (simp add: demo2_def)
  moreover have "t_id (tx_row_of demo_R demo_bet None) = ''tx_pp_b1''" "t_id demo_opening_row = ''tx_opening_wal_p1_brl''"
    by (simp_all add: tx_row_of_def demo2_eval)
  then have "tx_row_of demo_R demo_bet None \<notin> set (wager_transactions demo1)" by (auto simp: demo1_def)
  ultimately show ?thesis using provider_isolation [OF run] by blast
qed

text \<open>
  C24. Authentication: a request that changes the database has come with a bearer token that the JWT library accepts under RS256 with a key
  the identity provider has published, whose claims are valid and name a provider, and it was routed to one of the two
  handlers that write.
\<close>

theorem changes_are_authenticated:
  assumes "ServeHTTP R cfg H J first_of fetch ping X r d1 s = (resp, s')" "server_db s' \<noteq> server_db s"
    "\<And>xs. xs \<noteq> [] \<Longrightarrow> first_of xs \<in> snd ` set xs"
  shows "\<exists>scheme tokenStr provider. req_authorization r = scheme @ CHR '' '' # tokenStr
     \<and> to_lower R scheme = ''bearer'' \<and> authentic cfg J fetch (server_auth s) tokenStr provider
     \<and> route (req_method r) (req_path r) \<in> {CreateWallet, ProcessWager}"
  by (rule ServeHTTP_token [OF assms])

theorem changes_are_authenticated_witness:
  "\<exists>scheme tokenStr provider. req_authorization demo_request = scheme @ CHR '' '' # tokenStr
     \<and> to_lower demo_R scheme = ''bearer''
     \<and> authentic demo_cfg demo_jwt demo_fetch (server_auth (demo_server demo1)) tokenStr provider
     \<and> route (req_method demo_request) (req_path demo_request) \<in> {CreateWallet, ProcessWager}"
proof -
  obtain resp s' where run: "ServeHTTP demo_R demo_cfg demo_http demo_jwt (\<lambda>ks. snd (hd ks)) demo_fetch None (demo_X 2000)
      demo_request demo1 (demo_server demo1) = (resp, s')" and db: "server_db s' = demo2" using demo_served by blast
  have "length (wager_transactions demo1) \<noteq> length (wager_transactions demo2)" by (simp add: demo2_def demo1_def)
  then have "server_db s' \<noteq> server_db (demo_server demo1)" using db by (auto simp: demo_server_def)
  then show ?thesis by (rule changes_are_authenticated [OF run]) (simp add: hd_in_set)
qed

text \<open>
  C25. The status code of the wager handler is one of five, it is 200 if and only if the request has a key, a readable body of the
  provider of the token, and the use case has returned without an error; and only then the counter of processed wagers goes up, by one.
\<close>

theorem status_tells_the_outcome:
  assumes "handleProcessTransaction R cfg H X p r c d = (resp, c', d')"
  shows "status_code resp \<in> {200, 400, 403, 409, 500}
     \<and> (status_code resp = 200 \<longleftrightarrow>
          (\<exists>body out. trim_space (req_idempotency_key r) \<noteq> '''' \<and> decode_wager_body (req_body r) (req_body_error r) = Some body
             \<and> p = Some (gb_ProviderID body)
             \<and> ProcessTransaction R cfg X (wager_input body (req_idempotency_key r)) d = (Inr out, d')))
     \<and> c' = (if status_code resp = 200 then c\<lparr>MetricsWagersProcessed := MetricsWagersProcessed c + 1\<rparr> else c)"
  using handleProcess_status [OF assms] handleProcess_counts [OF assms] by blast

theorem status_tells_the_outcome_witness:
  "\<exists>resp c'. handleProcessTransaction demo_R demo_cfg demo_http (demo_X 2000) (Some ''pp'') demo_request (consumer_counters demo_consumer) demo1
     = (resp, c', demo2) \<and> c' = (consumer_counters demo_consumer)\<lparr>MetricsWagersProcessed := 1\<rparr>"
proof -
  obtain resp c' where run: "handleProcessTransaction demo_R demo_cfg demo_http (demo_X 2000) (Some ''pp'') demo_request
      (consumer_counters demo_consumer) demo1 = (resp, c', demo2)" and ok: "status_code resp = 200" using demo_handled by blast
  show ?thesis using status_tells_the_outcome [OF run] ok run by (simp add: demo_consumer_def)
qed

text \<open>
  C26. A process stops gracefully. The hooks of \<open>main.go\<close> and \<open>postgres.go\<close> are appended in an order such that, when \<open>fx\<close> calls them as it documents (the start hooks in order,
  the stop hooks in the reverse order, one at a time), no stop hook runs into its deadline and each worker was entered before it was stopped, the pool is
  closed only when the server and the three loops have ended: from then on the process serves no request, reads nothing, handles no job and never changes the database or the queues.
\<close>

theorem shutdown_is_graceful:
  assumes "new_app cfg B = Inr a0" "app_run R cfg H J B (a0, wd0) (es @ ClosePool # es') (a, wd)"
    and "fx_order (app_hooks a0) (es @ [ClosePool])" "stopped_in_time es"
  shows "at_rest R cfg H J B a \<and> list_all (\<lambda>e. \<not> works e) es'"
  using closes_at_rest [OF assms] .

theorem shutdown_is_graceful_witness:
  "at_rest demo_R demo_cfg demo_http demo_jwt demo_boot demo_at_rest \<and> list_all (\<lambda>e. \<not> works e) []"
proof (rule shutdown_is_graceful [OF demo_app_new])
  show "app_run demo_R demo_cfg demo_http demo_jwt demo_boot (demo_app, demo_start) (demo_life @ ClosePool # []) (demo_at_rest, demo_end)"
    using demo_life_run by (rule run_app_run)
  show "fx_order (app_hooks demo_app) (demo_life @ [ClosePool])"
    by (simp add: fx_order_def hook_calls_def demo_app_def demo_life_def)
  show "stopped_in_time demo_life"
    by (simp add: stopped_in_time_def demo_life_def before_def)
qed

text \<open>
  C27. A published key is read back as it is: the modulus and the exponent of an RSA key, encoded as RFC 7518 says (big-endian bytes in the
  URL alphabet of base64 without padding), are the ones that \<open>rsaPublicKeyFromJWK\<close> returns.
\<close>

theorem key_round_trip:
  assumes "0 < e" "e < 2 ^ 63"
  shows "rsaPublicKeyFromJWK (base64_encode (be_nat n)) (base64_encode (be_nat e)) = Inr \<lparr>RsaN = n, RsaE = of_nat e\<rparr>"
  by (rule published_key [OF assms])

theorem key_round_trip_witness:
  "rsaPublicKeyFromJWK (base64_encode (be_nat 3233)) (base64_encode (be_nat 17)) = Inr demo_key"
  using key_round_trip [of 17 3233] by (simp add: demo_key_def)

section \<open>The domain\<close>

text \<open>
  C28. \<open>NewMoneyFromString\<close> computes the value that the text denotes: it accepts a code of three bytes (after trimming and upper-casing) and
  a text of digits, a dot and two digits, whose value in the smallest unit an \<open>int64\<close> can hold, and nothing else; its two tests for overflow
  are exact.
\<close>

theorem parse_is_exact:
  "NewMoneyFromString R s c =
     (let cur = trim_space (to_upper R c); v = trim_space s in
      if length cur \<noteq> 3 then Inl (ErrorString (''invalid currency format: '' @ cur))
      else if \<not> decimal_regex v then Inl ErrInvalidMoneyFormat
      else checked_money cur (int (decimal_value v)))"
  by (rule NewMoneyFromString_spec)

text \<open>
  C29. A pending reference does get settled. In an environment without faults the resolution of a waiting refund or rollback whose reference was processed
  succeeds, provided its amount is in the currency of the wallet, the new balance and version fit, the identifiers fit their columns, the identifiers of the entry and of
  the two events are free and the clock does not show the same instant twice (\<open>resolvable\<close>); then the transaction is processed and its amount is on the account.
\<close>

theorem pending_references_are_settled:
  assumes "reachable R cfg d" "resolvable R X p q d"
  shows "\<exists>d'. ResolvePendingReference R X (t_id p) d = (Inr (), d')
     \<and> list_ex (\<lambda>p'. tx_identity p' = tx_identity p \<and> t_status p' = StatusProcessed) (wager_transactions d')
     \<and> accounts d' = (accounts d)(t_wallet_id p \<mapsto> sint (w_amount q) + sint (t_amount p))"
proof -
  note inv = reachable_ledger [OF assms(1)] reachable_well_formed [OF assms(1)]
  obtain d' where d': "ResolvePendingReference R X (t_id p) d = (Inr (), d')"
    using resolution_succeeds [OF assms(2) inv] by blast
  then show ?thesis using resolution_credits [OF assms(2) inv d'] by (auto simp: list_ex_iff)
qed

theorem pending_references_are_settled_witness:
  "\<exists>d'. ResolvePendingReference demo_R (demo_X 3000) ''tx_pp_f1'' demo_parked_bet = (Inr (), d')
     \<and> list_ex (\<lambda>p'. tx_identity p' = tx_identity demo_waiting \<and> t_status p' = StatusProcessed) (wager_transactions d')
     \<and> accounts d' = (accounts demo_parked_bet)(''wal_p1_brl'' \<mapsto> 12000)"
  using pending_references_are_settled [OF demo_parked_bet_reachable demo_resolvable]
  by (simp add: demo_waiting_def demo_refund_def demo_stored_def demo_wager_def tx_row_of_def demo_wallet_def)

text \<open>Printing an amount that is not negative and parsing it again gives the amount back.\<close>

lemma money_round_trip:
  assumes "0 \<le> cents m" "length (currency m) = 3" "trim_space (to_upper R (currency m)) = currency m"
  shows "NewMoneyFromString R (money_string m) (currency m) = Inr m"
  by (rule parse_money_string [OF assms])

lemma money_round_trip_witness:
  "NewMoneyFromString demo_R (money_string \<lparr>amount = 12345, currency = ''BRL''\<rparr>) ''BRL'' = Inr \<lparr>amount = 12345, currency = ''BRL''\<rparr>"
  using money_round_trip [of "\<lparr>amount = 12345, currency = ''BRL''\<rparr>" demo_R]
  by (simp add: cents_def text_eval)

text \<open>The amount that \<open>String\<close> prints for the least \<open>int64\<close> is not a number: its negation overflows.\<close>

lemma least_amount_is_garbled:
  "money_string \<lparr>amount = min_int64, currency = ''BRL''\<rparr> = ''--92233720368547758.-8''"
  by (simp add: money_string_def min_int64_def Let_def word_sless_alt go_div_def go_mod_def signed_divide_int_def
      signed_modulo_int_def show_pad2_def text_eval)

text \<open>
  C31. A valid new wager is always decided. In an environment without faults, when the identifiers fit their columns and are new, the
  wallet is the player's in the currency of the amount and its version has room (\<open>ready\<close>), and the message, if any, can be claimed, the call
  succeeds exactly when the rules of the business give a verdict, and its answer is that verdict: a bet is processed or, without
  funds, rejected; a win and a loss are processed; a refund or a rollback waits for its reference or is processed when the reference was. No verdict means
  that the balance would not fit or the reference has another status.
\<close>

theorem valid_calls_are_decided:
  assumes "ready R cfg X input t q d" "claims_message inbox d d1"
  shows "(\<exists>out d'. ProcessTransactionWithInbox R cfg X input inbox d = (Inr out, d') \<and> out_Status out = st
      \<and> out_TransactionID out = internal_tx_id input \<and> \<not> out_IdempotentReplay out) \<longleftrightarrow> verdict t q d = Some st"
  by (rule call_decides [OF assms])

theorem valid_calls_are_decided_witness:
  "\<exists>out d'. ProcessTransactionWithInbox demo_R demo_cfg (demo_X 2000) (demo_input ''b1'' ''BET'' ''30.00'' '''') None demo1 = (Inr out, d')
     \<and> out_Status out = ''PROCESSED'' \<and> out_TransactionID out = ''tx_pp_b1'' \<and> \<not> out_IdempotentReplay out"
proof -
  have "claims_message None demo1 demo1" by (simp add: claims_message_def)
  moreover have "verdict (demo_new ''b1'' ''BET'' 3000) (demo_wallet 10000 1 1000) demo1 = Some ''PROCESSED''"
    by (simp add: verdict_def demo_new_def demo_wager_def demo_wallet_def cents_def kind_defs status_defs)
  ultimately show ?thesis
    using valid_calls_are_decided [OF demo_ready, of None demo1 "''PROCESSED''"] by (simp add: internal_tx_id_def demo_input_def)
qed

text \<open>
  The arithmetic on amounts is that of the integers, with \<open>ErrMoneyOverflow\<close> exactly where the result does not fit: the guards
  of \<open>Add\<close>, \<open>Subtract\<close> and \<open>Negate\<close> never wrap around, never refuse a result that fits, and \<open>Compare\<close> is the order of the
  amounts.
\<close>

lemma arithmetic_is_exact:
  "Add m other = (if currency m \<noteq> currency other then Inl ErrIncompatibleCurrency
                  else checked_money (currency m) (cents m + cents other))
   \<and> Subtract m other = (if currency m \<noteq> currency other then Inl ErrIncompatibleCurrency
                  else checked_money (currency m) (cents m - cents other))
   \<and> Negate m = checked_money (currency m) (- cents m)
   \<and> Compare m other = (if currency m \<noteq> currency other then Inl ErrIncompatibleCurrency
                  else Inr (sgn (cents m - cents other)))"
  by (simp add: Add_checked Subtract_checked Negate_checked Compare_cents) (simp add: Add_def Subtract_def Compare_def)

text \<open>
  C32. No update is lost. A wallet that was read in some reachable state may be written much later, whatever was committed in between: when
  \<open>Wallet_Update\<close> accepts the version that was read, no movement of that wallet has been booked since, and the balance that it replaces is the one
  that was read. The row lock of \<open>FOR UPDATE\<close> is not needed for that, and versions never wrap.
\<close>

theorem no_update_is_lost:
  assumes "reachable R cfg d" "service_run R cfg d (db s)" "q \<in> set (wallets d)"
    and "Wallet_Update R live_tx w (w_version q) X s = (Inr u, s')" "wid w = w_id q"
  shows "entries_of (w_id q) (db s) = entries_of (w_id q) d
     \<and> (\<exists>q'. wallet_by_id (w_id q) (db s) = Some q' \<and> w_amount q' = w_amount q)"
  by (rule accepted_update [OF assms])

theorem no_update_is_lost_witness:
  "entries_of ''wal_p1_brl'' demo_published = entries_of ''wal_p1_brl'' demo1
     \<and> (\<exists>q'. wallet_by_id ''wal_p1_brl'' demo_published = Some q' \<and> w_amount q' = 10000)"
proof -
  obtain s' where u: "Wallet_Update demo_R live_tx demo_debited (w_version (demo_wallet 10000 1 1000)) (demo_X 6000) (start_session demo_published 0) = (Inr (), s')"
    using demo_late_update by blast
  show ?thesis
    using no_update_is_lost [OF demo1_reachable _ _ u] demo_published_step by (simp add: demo1_def demo_debited_def demo_wallet_def)
qed

text \<open>
  A debit and a credit, on every branch: the amount must be positive and in the currency of the wallet; a debit needs the funds, a credit
  must not overflow; then the balance is exactly the old one less or plus the amount and the version goes up by one.
\<close>

lemma movements_are_exact:
  "Debit now amt w =
     (if cents amt \<le> 0 then Inl ErrNegativeOrZeroAmountInput
      else if currency (balance w) \<noteq> currency amt then Inl ErrWalletCurrencyMismatch
      else if funds w < cents amt then Inl ErrInsufficientBalance
      else Inr (moved now (funds w - cents amt) w))
   \<and> Credit now amt w =
     (if cents amt \<le> 0 then Inl ErrNegativeOrZeroAmountInput
      else if currency (balance w) \<noteq> currency amt then Inl ErrWalletCurrencyMismatch
      else if \<not> in_int64 (funds w + cents amt) then Inl ErrMoneyOverflow
      else Inr (moved now (funds w + cents amt) w))"
  by (simp only: Debit_cases Credit_cases)

text \<open>
  C33. The order of a refund and the transaction it names does not matter in the end. From any reachable state: when both are processed in
  the usual order, and when the refund comes first, waits, and is processed by a resolution after the other, the accounts of all wallets are the same.
\<close>

theorem refund_may_come_first:
  assumes "reachable R cfg d"
    and "ProcessTransactionWithInbox R cfg X1 bet inb1 d = (Inr o1, d1)" "out_Status o1 = StatusProcessed" "\<not> out_IdempotentReplay o1"
    and "ProcessTransactionWithInbox R cfg X2 refund inb2 d1 = (Inr o2, d2)" "out_Status o2 = StatusProcessed" "\<not> out_IdempotentReplay o2"
    and "ProcessTransactionWithInbox R cfg X3 refund inb3 d = (Inr o3, e1)" "out_Status o3 = StatusPendingReference" "\<not> out_IdempotentReplay o3"
    and "ProcessTransactionWithInbox R cfg X4 bet inb4 e1 = (Inr o4, e2)" "out_Status o4 = StatusProcessed" "\<not> out_IdempotentReplay o4"
    and "ResolvePendingReference R X5 (pg_trunc 64 (internal_tx_id refund)) e2 = (Inr (), e3)"
    and "\<exists>r \<in> set (wager_transactions e3). t_id r = pg_trunc 64 (internal_tx_id refund) \<and> t_status r = StatusProcessed"
  shows "accounts e3 = accounts d2"
  by (rule order_does_not_matter [OF reachable_ledger [OF assms(1)] assms(2-)])

theorem refund_may_come_first_witness: "accounts demo_resolved = accounts demo3"
proof (rule refund_may_come_first [OF demo1_reachable demo_bet_run [unfolded ProcessTransaction_def] _ _
      demo_refund_run [unfolded ProcessTransaction_def] _ _ demo_parked_run [unfolded ProcessTransaction_def] _ _
      demo_parked_bet_run [unfolded ProcessTransaction_def]])
  have i: "pg_trunc 64 (internal_tx_id (demo_input ''f1'' ''REFUND'' ''50.00'' ''b1'')) = ''tx_pp_f1''"
    by (simp add: internal_tx_id_def demo_input_def graphic_columns is_graphic_def byte_val_def)
  show "ResolvePendingReference demo_R (demo_X 3000) (pg_trunc 64 (internal_tx_id (demo_input ''f1'' ''REFUND'' ''50.00'' ''b1''))) demo_parked_bet
      = (Inr (), demo_resolved)"
    unfolding i by (rule demo_resolve_run)
  show "\<exists>r \<in> set (wager_transactions demo_resolved).
      t_id r = pg_trunc 64 (internal_tx_id (demo_input ''f1'' ''REFUND'' ''50.00'' ''b1'')) \<and> t_status r = StatusProcessed"
    unfolding i by (simp add: demo_resolved_def demo_refund_def demo_stored_def demo_wager_def tx_row_of_def status_defs)
qed (simp_all add: status_defs)

text \<open>
  \<open>NewWagerTransaction\<close> accepts exactly the inputs that the business rules allow: every identifier given, a kind other than the
  opening, zero for a loss and a positive amount otherwise, a reference for a refund or a rollback; and the transaction it makes is pending.
\<close>

lemma wager_validation:
  "NewWagerTransaction now i provider external key wal player round game k m ref = Inr t \<longleftrightarrow>
     i \<noteq> '''' \<and> provider \<noteq> '''' \<and> external \<noteq> '''' \<and> key \<noteq> '''' \<and> wal \<noteq> '''' \<and> player \<noteq> ''''
     \<and> valid_wager_fields k m ref
     \<and> t = new_wager now i provider external key wal player round game k m ref"
  by (rule NewWagerTransaction_Inr)

text \<open>
  C34. The life cycle only moves forward: along any sequence of transitions a known status stays known, the phase (open, waiting, done) never
  goes back, a finished transaction stays as it is, and the identity, the amount, the kind and the payload hash are kept.
\<close>

theorem life_cycle:
  assumes "transition\<^sup>*\<^sup>* t t'" "known_status (status t)"
  shows "known_status (status t') \<and> phase_of (status t) \<le> phase_of (status t') \<and> (IsTerminal t \<longrightarrow> t' = t)
     \<and> txid t' = txid t \<and> wmoney t' = wmoney t \<and> kind t' = kind t \<and> payloadHash t' = payloadHash t"
  using transitions_phase [OF assms] transitions_frame [OF assms(1)] terminal_forever [OF assms(1)] by blast

theorem life_cycle_witness:
  "let t = demo_wager ''f1'' ''REFUND'' 5000 ''b1'' 1500;
       t' = t\<lparr>status := StatusProcessed, updatedAt := 3001\<rparr> in
   known_status (status t') \<and> phase_of (status t) \<le> phase_of (status t') \<and> (IsTerminal t \<longrightarrow> t' = t)
     \<and> txid t' = txid t \<and> wmoney t' = wmoney t \<and> kind t' = kind t \<and> payloadHash t' = payloadHash t"
proof -
  let ?t = "demo_wager ''f1'' ''REFUND'' 5000 ''b1'' 1500"
  let ?p = "?t\<lparr>status := StatusPendingReference, updatedAt := 1501\<rparr>" and ?t' = "?t\<lparr>status := StatusProcessed, updatedAt := 3001\<rparr>"
  have "transition ?t ?p" by (rule to_pending) (simp add: TransitionToPendingReference_Inr demo_wager_def status_defs)
  moreover have "transition ?p ?t'"
    by (rule to_processed) (simp add: TransitionToProcessed_Inr demo_wager_def status_defs IsTerminal_def)
  ultimately have "transition\<^sup>*\<^sup>* ?t ?t'" by auto
  moreover have "known_status (status ?t)" by (simp add: known_status_def demo_wager_def status_defs)
  ultimately show ?thesis unfolding Let_def by (rule life_cycle)
qed

text \<open>
  C35. The rows that are read back are of their types. In every reachable state every row of a wallet makes a wallet that is in order, with a positive version;
  and in every row of a transaction the parts belong together: the amount is positive, or zero for a loss; a refund and a rollback name a reference; the status is
  processed, rejected or pending reference, the last two only for the kinds they are meant for, with the failure code exactly when rejected.
\<close>

theorem rows_are_well_formed:
  assumes "reachable R cfg d"
  shows "list_all (\<lambda>r. \<exists>w. wallet_of_row R' r = Inr w \<and> wallet_ok w \<and> 0 < sint (version w)) (wallets d)
     \<and> list_all well_formed_tx (wager_transactions d)"
  using reachable_well_formed [OF assms] well_formed_wallet_reads
  by (auto simp: well_formed_def list_all_iff)

theorem rows_are_well_formed_witness:
  "list_all (\<lambda>r. \<exists>w. wallet_of_row demo_R r = Inr w \<and> wallet_ok w \<and> 0 < sint (version w)) (wallets demo_parked)
     \<and> list_all well_formed_tx (wager_transactions demo_parked)"
  by (rule rows_are_well_formed [OF demo_parked_reachable])

text \<open>
  The text that is hashed determines the payload: two transactions whose fields are UTF-8 and whose amounts are not negative have the same
  canonical JSON if and only if they agree on the ten fields; only a collision of SHA-256 can make two payloads one.
\<close>

lemma payload_is_identified:
  assumes "utf8_fields t" "utf8_fields t'" "0 \<le> cents (wmoney t)" "0 \<le> cents (wmoney t')"
  shows "canonicalJSON t = canonicalJSON t' \<longleftrightarrow> same_payload t t'"
  using canonicalJSON_inj [OF _ assms] same_payload_canonical by blast

lemma payload_is_identified_witness:
  "canonicalJSON (demo_wager ''b1'' ''BET'' 3000 '''' 1) \<noteq> canonicalJSON (demo_wager ''b1'' ''BET'' 3001 '''' 1)"
proof -
  have u: "utf8_fields (demo_wager ''b1'' ''BET'' a '''' 1)" for a
    by (simp add: utf8_fields_def demo_wager_def valid_utf8_ascii is_ascii_def byte_val_def)
  have "\<not> same_payload (demo_wager ''b1'' ''BET'' 3000 '''' 1) (demo_wager ''b1'' ''BET'' 3001 '''' 1)"
    by (simp add: same_payload_def demo_wager_def)
  then show ?thesis using payload_is_identified [OF u u, of 3000 3001] by (simp add: demo_wager_def cents_def)
qed

text \<open>
  C36. Attempts to publish an event are counted and bounded. In every reachable state an event is pending, published (exactly those have the instant of it) or failed, it has no
  more attempts than the configured maximum (at least one), it is given up exactly when it has reached it, the delay until the next attempt is between 1 and 64 seconds (so
  the shift count in it is never negative), and an event that is published or given up is the same in every later state.
\<close>

theorem delivery_attempts_are_bounded:
  assumes "reachable R cfg d" "service_run R cfg d d'" "r \<in> set (outbox_events d)"
  shows "o_status r \<in> {''PENDING'', ''PUBLISHED'', ''FAILED''}
     \<and> (o_status r = ''PUBLISHED'' \<longleftrightarrow> o_published_at r \<noteq> None)
     \<and> 0 \<le> o_attempts r \<and> o_attempts r \<le> max 1 (OutboxMaxAttempts cfg)
     \<and> (o_status r = ''FAILED'' \<longleftrightarrow> o_attempts r = max 1 (OutboxMaxAttempts cfg))
     \<and> 1000000000 \<le> backoff (o_attempts r) \<and> backoff (o_attempts r) \<le> 64000000000
     \<and> (o_status r = ''PENDING'' \<or> r \<in> set (outbox_events d'))"
proof -
  have "attempts_ok cfg r" using reachable_attempts [OF assms(1)] assms(3) by (simp add: list_all_iff)
  moreover have "o_status r = ''PENDING'' \<or> r \<in> set (outbox_events d')"
    using run_settled_event [OF assms(2,1,3)] by blast
  ultimately show ?thesis using backoff_bounds [of "o_attempts r"] unfolding attempts_ok_def attempt_limit_def by blast
qed

theorem delivery_attempts_are_bounded_witness:
  "let r = publish_row 5001 (hd (outbox_events demo1)) in
   o_status r \<in> {''PENDING'', ''PUBLISHED'', ''FAILED''} \<and> (o_status r = ''PUBLISHED'' \<longleftrightarrow> o_published_at r \<noteq> None)
     \<and> 0 \<le> o_attempts r \<and> o_attempts r \<le> max 1 (OutboxMaxAttempts demo_cfg)
     \<and> (o_status r = ''FAILED'' \<longleftrightarrow> o_attempts r = max 1 (OutboxMaxAttempts demo_cfg))
     \<and> 1000000000 \<le> backoff (o_attempts r) \<and> backoff (o_attempts r) \<le> 64000000000
     \<and> (o_status r = ''PENDING'' \<or> r \<in> set (outbox_events demo_published))"
  unfolding Let_def
proof (rule delivery_attempts_are_bounded)
  show "reachable demo_R demo_cfg demo_published" by (rule reachable_run [OF demo1_reachable demo_published_step])
  show "service_run demo_R demo_cfg demo_published demo_published" by (rule run_refl)
  show "publish_row 5001 (hd (outbox_events demo1)) \<in> set (outbox_events demo_published)"
    by (simp add: demo_published_def demo1_def)
qed

section \<open>The texts of requests\<close>

text \<open>
  C38. Requests and messages written as the README describes them, with texts in UTF-8, are read into the fields they were written from:
  quotes, backslashes, control characters and every other code point survive the escapes.
\<close>

theorem written_requests_are_read:
  assumes "utf8_value (wallet_request b)" "utf8_value (wager_request g)" "utf8_value (wager_message e)"
  shows "decode_wallet_body (show_json (wallet_request b)) = Some b
     \<and> decode_wager_body (show_json (wager_request g)) err = Some g
     \<and> unmarshal_envelope (show_json (wager_message e)) = Some e"
  using assms wallet_request_read wager_request_read wager_message_read by blast

definition demo_wallet_body :: wallet_body where
  "demo_wallet_body = \<lparr>wb_PlayerID = ''p1'', wb_Amount = ''100.00'', wb_Currency = ''BRL''\<rparr>"

lemma demo_texts_utf8: "utf8_value (wallet_request demo_wallet_body)" "utf8_value (wager_message demo_envelope)"
  by (simp_all add: wallet_request_def demo_wallet_body_def wager_message_def demo_envelope_def valid_utf8_ascii is_ascii_def
      byte_val_def)

theorem written_requests_are_read_witness:
  "decode_wallet_body (show_json (wallet_request demo_wallet_body)) = Some demo_wallet_body
   \<and> decode_wager_body (show_json (wager_request demo_body)) None = Some demo_body
   \<and> unmarshal_envelope (show_json (wager_message demo_envelope)) = Some demo_envelope"
  by (rule written_requests_are_read [OF demo_texts_utf8(1) demo_body_utf8 demo_texts_utf8(2)])

text \<open>
  C39. Whatever bytes two requests to process a wager have, if they are decoded (with ASCII currency codes) and pass the validation, the texts that are hashed
  for them are the same if and only if the requests agree on provider, external identifier, player, wallet, round,
  game, kind, reference and the parsed money. (Decoded strings are UTF-8, so nothing is lost when they are written again.)
\<close>

theorem requests_with_one_payload:
  assumes "decode_wager_body raw err = Some b" "is_ascii (gb_Currency b)"
    "prepare_wager R cfg now (wager_input b key) = Inr t"
    and "decode_wager_body raw' err' = Some b'" "is_ascii (gb_Currency b')"
    "prepare_wager R cfg now' (wager_input b' key') = Inr t'"
  shows "canonicalJSON t = canonicalJSON t' \<longleftrightarrow> same_request b b' \<and> wmoney t = wmoney t'"
  by (rule request_payloads [OF assms])

lemma demo_prepared:
  "prepare_wager demo_R demo_cfg now (wager_input demo_body ''kb1'')
     = Inr (let t = demo_wager ''b1'' ''BET'' 3000 '''' now in t\<lparr>payloadHash := sha256_hex (canonicalJSON t)\<rparr>)"
  by (simp add: demo_eval process_eval demo2_eval wager_input_def demo_body_def)

theorem requests_with_one_payload_witness:
  "canonicalJSON (demo_wager ''b1'' ''BET'' 3000 '''' 2000) = canonicalJSON (demo_wager ''b1'' ''BET'' 3000 '''' 9000)"
proof -
  have a: "is_ascii (gb_Currency demo_body)" by (simp add: demo_body_def is_ascii_def byte_val_def)
  from requests_with_one_payload [OF demo_request_read a demo_prepared demo_request_read a demo_prepared, of 2000 9000]
  show ?thesis by (simp add: Let_def same_request_def canonicalJSON_def payload_map_def demo_wager_def)
qed

section \<open>Processes and workers\<close>

text \<open>
  C37. Refinement: every interleaving of any number of processes, of their requests and of the batches of their workers, with processes that start and
  end at any moment, is a run of the service on the database; so its books balance in every state on the way.
\<close>

theorem interleavings_are_runs:
  assumes "system_run R cfg H J \<sigma> \<sigma>'" "reachable R cfg (system_db \<sigma>)"
  shows "service_run R cfg (system_db \<sigma>) (system_db \<sigma>') \<and> ledger_inv (system_db \<sigma>')"
  using system_run_service [OF assms(1)] reachable_ledger [OF reachable_run [OF assms(2)]] by blast

theorem interleavings_are_runs_witness:
  "service_run demo_R demo_cfg demo1 demo_published \<and> ledger_inv demo_published"
  using interleavings_are_runs [OF demo_system_run] demo1_reachable by (simp add: demo_published_system_def demo_system_def)

text \<open>
  C30. When \<open>Stop\<close> is called on a worker whose loop was entered, and returns without an error, the loop has returned, and nothing that happens later makes
  it read or process anything again.
\<close>

theorem stop_ends_the_worker:
  assumes "worker_run polling fetch handle (new_worker, s0) es1 (w1, s1)" "loop_at w1 \<noteq> NotStarted"
    "worker_step polling fetch handle CallStop (w1, s1) = Moves (w2, s2)"
    "worker_run polling fetch handle (w2, s2) es2 (w, s)" "stop_at w = StopReturned None"
  shows "loop_at w = Returned \<and> (\<forall>es' w' s'. worker_run polling fetch handle (w, s) es' (w', s') \<longrightarrow> list_all of_stop es')"
proof -
  have "loop_at w = Returned" by (rule stop_is_final [OF assms])
  then show ?thesis by (simp add: returned_run)
qed

theorem stop_ends_the_worker_witness:
  "loop_at demo_stopped = Returned"
  using stop_ends_the_worker [OF demo_taking_run _ demo_stop_call demo_stopped_run]
  by (simp add: demo_taking_def demo_stopped_def)

text \<open>
  C40. Once \<open>Stop\<close> has closed its channel, the SQS worker ends: it handles the messages that it has already received, reads no more, and has at most four
  events besides; until its loop has returned, some event of the loop can happen.
\<close>

theorem sqs_worker_ends:
  assumes "worker_run True received_messages (message_job R cfg) (w0, s0) es (w, s)" "stopChan_closed w0"
  shows "length es \<le> events_left w0 \<and> (\<forall>reply. TakeTick reply \<notin> set es)
     \<and> (loop_at w \<noteq> Returned \<longrightarrow> (\<exists>e. \<not> of_stop e \<and> worker_step True received_messages (message_job R cfg) e (w, s) \<noteq> Blocked))"
  using events_left_run [OF assms] loop_not_stuck [of w True received_messages "message_job R cfg" s] no_more_ticks [OF assms]
  by simp

theorem sqs_worker_ends_witness:
  "5 \<le> events_left demo_stopping"
  using sqs_worker_ends [OF demo_stopped_run] by (simp add: demo_stopping_def)

end
